(* ===== verification/Prelude.thy ===== *)
theory Prelude
  imports Main "HOL-Library.Word"
begin

text \<open>
  Shared material of the development: the machine-integer types of the Rust sources, the
  saturating and rounding operations of \<^verbatim>\<open>core::num\<close> that the sources call, and the generic
  facts about lists and maps that several components use.
\<close>

section \<open>Rule collections\<close>

named_theorems sat_simps \<open>saturating word arithmetic, read as arithmetic on nat\<close>
named_theorems inv_simps \<open>definitions of the component invariants\<close>

section \<open>Early returns\<close>

text \<open>A chain of checks of which the first to find something decides.\<close>

definition or_else :: "'a option \<Rightarrow> 'a option \<Rightarrow> 'a option" where
  "or_else a b = (case a of None \<Rightarrow> b | Some x \<Rightarrow> Some x)"

lemma or_else_simps [simp]: "or_else None b = b" "or_else (Some x) b = Some x"
  by (simp_all add: or_else_def)

lemma or_else_None_iff [simp]: "or_else a b = None \<longleftrightarrow> a = None \<and> b = None"
  by (cases a) simp_all

section \<open>Machine integers\<close>

type_synonym u8 = "8 word"
type_synonym u16 = "16 word"
type_synonym u32 = "32 word"
type_synonym u64 = "64 word"
type_synonym u128 = "128 word"

text \<open>\<^verbatim>\<open>u*::saturating_sub\<close>, \<^verbatim>\<open>u*::saturating_add\<close> and \<^verbatim>\<open>u*::div_ceil\<close>; the last
  panics on a zero divisor, which every caller excludes.\<close>

definition sat_sub :: "'a::len word \<Rightarrow> 'a word \<Rightarrow> 'a word" where
  "sat_sub a b = (if a < b then 0 else a - b)"

definition sat_add :: "'a::len word \<Rightarrow> 'a word \<Rightarrow> 'a word" where
  "sat_add a b = (if unat a + unat b < 2 ^ LENGTH('a) then a + b else - 1)"

definition div_ceil :: "'a::len word \<Rightarrow> 'a word \<Rightarrow> 'a word" where
  "div_ceil a b = (if a mod b = 0 then a div b else a div b + 1)"

text \<open>\<^verbatim>\<open>uN::try_from(x).unwrap_or(uN::MAX)\<close> for an unsigned \<^verbatim>\<open>x\<close> of a wider type.\<close>

definition clamp_word :: "nat \<Rightarrow> 'a::len word" where
  "clamp_word n = (if n < 2 ^ LENGTH('a) then word_of_nat n else - 1)"

lemma unat_lt_2p: "unat (w :: 'a::len word) < 2 ^ LENGTH('a)"
  by (rule unsigned_less)

lemma unat_minus_one_max: "unat (- 1 :: 'a::len word) = 2 ^ LENGTH('a) - 1"
proof -
  have "uint (- 1 :: 'a word) = 2 ^ LENGTH('a) - 1"
    by (simp add: uint_word_ariths zmod_minus1)
  then show ?thesis by (simp add: unat_eq_nat_uint nat_diff_distrib nat_power_eq)
qed

lemma unat_sat_sub [sat_simps]: "unat (sat_sub a b) = unat a - unat b"
proof (cases "a < b")
  case True
  then have "unat a < unat b" by (simp add: word_less_nat_alt)
  with True show ?thesis by (simp add: sat_sub_def)
next
  case False
  then have "b \<le> a" by simp
  with False show ?thesis by (simp add: sat_sub_def unat_sub)
qed

lemma unat_sat_add [sat_simps]:
  fixes a b :: "'a::len word"
  shows "unat (sat_add a b) = min (unat a + unat b) (2 ^ LENGTH('a) - 1)"
proof (cases "unat a + unat b < 2 ^ LENGTH('a)")
  case True
  then have "unat (a + b) = unat a + unat b" by (simp add: unat_word_ariths)
  with True show ?thesis by (simp add: sat_add_def)
next
  case False
  then show ?thesis by (simp add: sat_add_def unat_minus_one_max)
qed

lemma unat_clamp_word [sat_simps]:
  "unat (clamp_word n :: 'a::len word) = min n (2 ^ LENGTH('a) - 1)"
proof (cases "n < 2 ^ LENGTH('a)")
  case True
  then show ?thesis by (simp add: clamp_word_def unat_of_nat)
next
  case False
  then show ?thesis by (simp add: clamp_word_def unat_minus_one_max)
qed

lemma unat_div_ceil [sat_simps]:
  fixes a b :: "'a::len word"
  assumes "b \<noteq> 0"
  shows "unat (div_ceil a b) = (unat a + unat b - 1) div unat b"
proof -
  have b: "0 < unat b" using assms by (simp add: unat_gt_0)
  have small: "unat a < 2 ^ LENGTH('a)" by simp
  show ?thesis
  proof (cases "unat a mod unat b = 0")
    case True
    then obtain q where q: "unat a = unat b * q" by auto
    have "(unat b * q + unat b - 1) div unat b = q"
      using b by (simp add: div_nat_eqI)
    moreover have "a mod b = 0"
      using True by (metis unat_eq_zero unat_mod)
    ultimately show ?thesis
      using b q by (simp add: div_ceil_def unat_div)
  next
    case False
    then have nz: "a mod b \<noteq> 0" by (metis unat_0 unat_mod)
    from False b have "unat b \<noteq> 1" by (metis mod_less_divisor less_one)
    with b have "2 \<le> unat b" by simp
    moreover from False have "0 < unat a" by (cases "unat a") auto
    ultimately have "unat a div unat b < unat a" by simp
    with small have lt: "Suc (unat a div unat b) < 2 ^ LENGTH('a)" by linarith
    have "unat (a div b + 1) = Suc (unat a div unat b)"
      using lt by (simp add: unat_word_ariths unat_div)
    moreover have "(unat a + unat b - 1) div unat b = Suc (unat a div unat b)"
    proof -
      let ?q = "unat a div unat b" and ?r = "unat a mod unat b"
      have e: "unat a = ?r + unat b * ?q" by simp
      have "unat a + unat b - 1 = (?r - 1) + unat b * Suc ?q"
        using False e b by (simp only: mult_Suc_right)
      moreover have "(?r - 1) div unat b = 0"
        using b by (simp add: less_imp_diff_less)
      ultimately show ?thesis using b by (simp only: div_mult_self2)
    qed
    ultimately show ?thesis using nz by (simp add: div_ceil_def)
  qed
qed

lemma unat_ucast_up:
  "LENGTH('a) \<le> LENGTH('b) \<Longrightarrow> unat (ucast (w :: 'a::len word) :: 'b::len word) = unat w"
  by (simp add: unsigned_ucast_eq take_bit_nat_eq_self_iff) (meson le_trans less_le_trans
      one_le_numeral power_increasing unsigned_less)

lemma unat_inc: "a < b \<Longrightarrow> unat (a + 1) = Suc (unat a)"
  for a b :: "'a::len word"
proof -
  assume "a < b"
  then have "unat a < unat b" by (simp add: word_less_nat_alt)
  with unat_lt_2p [of b] have "Suc (unat a) < 2 ^ LENGTH('a)" by linarith
  then show ?thesis by (simp add: unat_word_ariths)
qed

lemma unat_dec: "0 < a \<Longrightarrow> unat (a - 1) = unat a - 1"
  for a :: "'a::len word"
proof -
  assume "0 < a"
  then have "0 < unat a" by (simp add: word_less_nat_alt)
  then have "1 \<le> a" by (simp add: word_le_nat_alt Suc_leI)
  then show ?thesis by (simp add: unat_sub)
qed

end
