(* ===== verification/Interfaces.thy ===== *)
theory Interfaces
  imports Prelude
begin

text \<open>
  The interfaces the components share, as locales: a step relation with an invariant, a step
  function over events with an invariant, a keyed store (the registries), and a codec (the wire
  formats). Each locale is interpreted in the theory of the component that provides the
  operations; the lemmas proved here once are used there through the interpretation.
\<close>

section \<open>Transition systems with an invariant\<close>

locale invariant_system =
  fixes init :: "'s \<Rightarrow> bool" and step :: "'s \<Rightarrow> 's \<Rightarrow> bool" and inv :: "'s \<Rightarrow> bool"
  assumes init_inv: "init s \<Longrightarrow> inv s"
    and step_inv: "inv s \<Longrightarrow> step s t \<Longrightarrow> inv t"
begin

lemma steps_inv: "step\<^sup>*\<^sup>* s t \<Longrightarrow> inv s \<Longrightarrow> inv t"
  by (induction rule: rtranclp_induct) (auto intro: step_inv)

lemma reachable_inv: "init s \<Longrightarrow> step\<^sup>*\<^sup>* s t \<Longrightarrow> inv t"
  by (blast intro: steps_inv init_inv)

end

text \<open>The same for a deterministic component driven by a list of operations.\<close>

locale event_machine =
  fixes apply_event :: "'e \<Rightarrow> 's \<Rightarrow> 's" and inv :: "'s \<Rightarrow> bool"
  assumes event_inv: "inv s \<Longrightarrow> inv (apply_event e s)"
begin

lemma run_inv: "inv s \<Longrightarrow> inv (fold apply_event es s)"
  by (induction es arbitrary: s) (auto intro: event_inv)

end

sublocale event_machine \<subseteq> invariant_system inv "\<lambda>s t. \<exists>e. t = apply_event e s" inv
  by unfold_locales (auto intro: event_inv)

section \<open>Keyed stores\<close>

locale keyed_store =
  fixes lookup :: "'m \<Rightarrow> 'k \<Rightarrow> 'v option"
    and insert :: "'k \<Rightarrow> 'v \<Rightarrow> 'm \<Rightarrow> 'm"
    and remove :: "'k \<Rightarrow> 'm \<Rightarrow> 'm"
  assumes lookup_insert: "lookup (insert k v m) = (lookup m)(k \<mapsto> v)"
    and lookup_remove: "lookup (remove k m) = (lookup m)(k := None)"
begin

lemma insert_overwrites: "lookup (insert k v (insert k w m)) = lookup (insert k v m)"
  by (simp add: lookup_insert)

lemma remove_insert: "lookup (remove k (insert k v m)) = lookup (remove k m)"
  by (simp add: lookup_insert lookup_remove)

lemma insert_commutes:
  "k \<noteq> l \<Longrightarrow> lookup (insert k v (insert l w m)) = lookup (insert l w (insert k v m))"
  by (auto simp: lookup_insert)

lemma insert_frame: "k \<noteq> l \<Longrightarrow> lookup (insert l w m) k = lookup m k"
  by (simp add: lookup_insert)

lemma remove_frame: "k \<noteq> l \<Longrightarrow> lookup (remove l m) k = lookup m k"
  by (simp add: lookup_remove)

lemma dom_insert: "dom (lookup (insert k v m)) = {k} \<union> dom (lookup m)"
  by (auto simp: lookup_insert)

lemma dom_remove: "dom (lookup (remove k m)) = dom (lookup m) - {k}"
  by (auto simp: lookup_remove split: if_splits)

end

section \<open>Codecs\<close>

text \<open>
  A field codec writes a value as bytes and reads it back off the front of a buffer, returning
  the unread rest. The law is stated with an arbitrary rest, which is what lets fields be
  concatenated.
\<close>

locale codec =
  fixes enc :: "'a \<Rightarrow> 'b list" and dec :: "'b list \<Rightarrow> ('a \<times> 'b list) option"
    and valid :: "'a \<Rightarrow> bool"
  assumes dec_enc: "valid x \<Longrightarrow> dec (enc x @ rest) = Some (x, rest)"
begin

lemma enc_inj: "valid x \<Longrightarrow> valid y \<Longrightarrow> enc x = enc y \<Longrightarrow> x = y"
  using dec_enc [of x "[]"] dec_enc [of y "[]"] by simp

lemma enc_prefix_free:
  assumes "valid x" "valid y" "enc x @ r = enc y @ s"
  shows "x = y \<and> r = s"
proof -
  have "Some (x, r) = dec (enc x @ r)" by (rule dec_enc [OF assms(1), symmetric])
  also have "\<dots> = dec (enc y @ s)" by (simp only: assms(3))
  also have "\<dots> = Some (y, s)" by (rule dec_enc [OF assms(2)])
  finally have "Some (x, r) = Some (y, s)" .
  then show ?thesis by simp
qed

lemma dec_enc_nil: "valid x \<Longrightarrow> dec (enc x) = Some (x, [])"
  using dec_enc [of x "[]"] by simp

end

end
