(* ===== verification/Cps_Limiter.thy ===== *)
theory Cps_Limiter
  imports Interfaces
begin

text \<open>
  The calls-per-second limiter of \<^verbatim>\<open>src/src/call/cps_limiter.rs\<close> (generic cell rate algorithm).
  The clock is an argument: nanoseconds since the limiter's origin, as a natural number, clamped
  to \<^verbatim>\<open>u64\<close> where the source clamps it. \<open>cps_try_acquire\<close> is the loop when no other thread
  interferes; \<open>cps_step\<close> is the interleaving of any number of threads at the granularity of the
  atomic load and the compare-exchange, spurious failures of the weak exchange included.
\<close>

section \<open>State and operations\<close>

record cps_limiter =
  cps_limit :: u32
  cps_interval_ns :: u64
  cps_burst_tolerance_ns :: u64
  cps_tat_ns :: u64

datatype cps_limit_exceeded = CpsLimitExceeded u32

definition cps_new :: "u32 \<Rightarrow> cps_limiter" where
  "cps_new limit_per_second =
     (let limit = (ucast limit_per_second :: u64);
          interval_ns = div_ceil 1000000000 limit;
          burst_tolerance_ns = (limit - 1) * interval_ns
      in \<lparr>cps_limit = limit_per_second, cps_interval_ns = interval_ns,
          cps_burst_tolerance_ns = burst_tolerance_ns, cps_tat_ns = 0\<rparr>)"

text \<open>One pass through the loop body: the verdict on a loaded \<open>tat\<close> at a read \<open>now\<close>, either the
  rejection or the value offered to the compare-exchange.\<close>

definition cps_attempt :: "cps_limiter \<Rightarrow> u64 \<Rightarrow> u64 \<Rightarrow> cps_limit_exceeded + u64" where
  "cps_attempt l tat now =
     (let allow_at = sat_sub tat (cps_burst_tolerance_ns l)
      in if now < allow_at then Inl (CpsLimitExceeded (cps_limit l))
         else Inr (sat_add (max tat now) (cps_interval_ns l)))"

definition cps_try_acquire :: "nat \<Rightarrow> cps_limiter \<Rightarrow> (cps_limit_exceeded + unit) \<times> cps_limiter" where
  "cps_try_acquire elapsed l =
     (case cps_attempt l (cps_tat_ns l) (clamp_word elapsed) of
        Inl e \<Rightarrow> (Inl e, l)
      | Inr new_tat \<Rightarrow> (Inr (), l\<lparr>cps_tat_ns := new_tat\<rparr>))"

definition cps_count_at :: "cps_limiter \<Rightarrow> u64 \<Rightarrow> u64 \<Rightarrow> u32" where
  "cps_count_at l tat now =
     (let pressure = sat_sub tat now
      in if pressure = 0 then 0
         else clamp_word (unat (div_ceil pressure (cps_interval_ns l))))"

definition cps_current_count :: "nat \<Rightarrow> cps_limiter \<Rightarrow> u32" where
  "cps_current_count elapsed l = cps_count_at l (cps_tat_ns l) (clamp_word elapsed)"

section \<open>Interleaved execution\<close>

text \<open>Where a thread stands in \<open>try_acquire\<close>: it has read the clock, it is at the head of the
  loop with a \<open>tat\<close> and a \<open>now\<close>, its exchange failed and it holds the actual value, it returned.\<close>

datatype cps_pc =
    PIdle
  | PTimed u64
  | PLoop u64 u64
  | PRetry u64
  | PDone "cps_limit_exceeded + unit"

record cps_sys =
  sys_limiter :: cps_limiter
  sys_clock :: nat
  sys_threads :: "nat \<Rightarrow> cps_pc"
  sys_log :: "u64 list" \<comment> \<open>clock readings of the accepted calls, newest first (ghost)\<close>

inductive cps_step :: "cps_sys \<Rightarrow> cps_sys \<Rightarrow> bool" where
  tick: "sys_clock s \<le> c \<Longrightarrow> cps_step s (s\<lparr>sys_clock := c\<rparr>)"
| read_clock: "sys_threads s i = PIdle \<Longrightarrow>
     cps_step s (s\<lparr>sys_threads := (sys_threads s)(i := PTimed (clamp_word (sys_clock s)))\<rparr>)"
| load: "sys_threads s i = PTimed now \<Longrightarrow>
     cps_step s (s\<lparr>sys_threads :=
       (sys_threads s)(i := PLoop (cps_tat_ns (sys_limiter s)) now)\<rparr>)"
| reject: "sys_threads s i = PLoop tat now \<Longrightarrow> cps_attempt (sys_limiter s) tat now = Inl e \<Longrightarrow>
     cps_step s (s\<lparr>sys_threads := (sys_threads s)(i := PDone (Inl e))\<rparr>)"
| exchange: "sys_threads s i = PLoop tat now \<Longrightarrow>
     cps_attempt (sys_limiter s) tat now = Inr new_tat \<Longrightarrow>
     cps_tat_ns (sys_limiter s) = tat \<Longrightarrow>
     cps_step s (s\<lparr>sys_limiter := (sys_limiter s)\<lparr>cps_tat_ns := new_tat\<rparr>,
                   sys_threads := (sys_threads s)(i := PDone (Inr ())),
                   sys_log := now # sys_log s\<rparr>)"
| exchange_fails: "sys_threads s i = PLoop tat now \<Longrightarrow>
     cps_attempt (sys_limiter s) tat now = Inr new_tat \<Longrightarrow>
     cps_step s (s\<lparr>sys_threads :=
       (sys_threads s)(i := PRetry (cps_tat_ns (sys_limiter s)))\<rparr>)"
| reread_clock: "sys_threads s i = PRetry tat \<Longrightarrow>
     cps_step s (s\<lparr>sys_threads :=
       (sys_threads s)(i := PLoop tat (clamp_word (sys_clock s)))\<rparr>)"
| again: "sys_threads s i = PDone r \<Longrightarrow>
     cps_step s (s\<lparr>sys_threads := (sys_threads s)(i := PIdle)\<rparr>)"

definition cps_init :: "cps_sys \<Rightarrow> bool" where
  "cps_init s \<longleftrightarrow> (\<exists>lim. lim \<noteq> 0 \<and> sys_limiter s = cps_new lim) \<and>
     sys_threads s = (\<lambda>_. PIdle) \<and> sys_log s = []"

section \<open>Well-formed limiters\<close>

definition cps_wf :: "cps_limiter \<Rightarrow> bool" where
  "cps_wf l \<longleftrightarrow>
     (let L = unat (cps_limit l); I = unat (cps_interval_ns l)
      in 0 < L \<and> 0 < I \<and> unat (cps_burst_tolerance_ns l) = (L - 1) * I \<and>
         1000000000 \<le> L * I \<and> L * I < 2 ^ 33)"

lemma ceil_div_bounds:
  fixes a L :: nat
  assumes "0 < L" "0 < a"
  shows "0 < (a + L - 1) div L" "a \<le> L * ((a + L - 1) div L)" "L * ((a + L - 1) div L) < a + L"
proof -
  let ?q = "(a + L - 1) div L" and ?r = "(a + L - 1) mod L"
  have e: "L * ?q + ?r = a + L - 1" by (rule mult_div_mod_eq)
  have r: "?r < L" using assms by simp
  show le: "a \<le> L * ?q" and "L * ?q < a + L" using e r assms by linarith+
  show "0 < ?q"
  proof (rule ccontr)
    assume "\<not> 0 < ?q"
    then have "?q = 0" by simp
    with le assms(2) show False by simp
  qed
qed

lemma cps_new_wf:
  assumes "lim \<noteq> 0"
  shows "cps_wf (cps_new lim)"
proof -
  let ?limit = "ucast lim :: u64"
  let ?L = "unat lim" and ?I = "(1000000000 + unat lim - 1) div unat lim"
  have ul: "unat ?limit = ?L" by (simp add: unat_ucast_up)
  have L: "0 < ?L" using assms by (simp add: unat_gt_0)
  have Lb: "?L < 2 ^ 32" using unat_lt_2p [of lim] by simp
  note q = ceil_div_bounds [OF L, of 1000000000, simplified]
  have nz: "?limit \<noteq> 0" using L ul by (metis unat_0 less_irrefl)
  have interval: "unat (div_ceil 1000000000 ?limit) = ?I"
    using unat_div_ceil [OF nz, of 1000000000] by (simp add: ul)
  have prod: "?L * ?I < 2 ^ 33" using q(3) Lb by simp
  have le: "(?L - 1) * ?I \<le> ?L * ?I" by (rule mult_le_mono1) simp
  have "?L * ?I < 2 ^ 64" using prod by simp
  with le have small: "(?L - 1) * ?I < 2 ^ 64" by (rule le_less_trans)
  have "1 \<le> ?limit" using nz by (simp add: word_le_nat_alt unat_gt_0 Suc_leI)
  then have dec: "unat (?limit - 1) = ?L - 1" by (simp add: unat_sub ul)
  have "unat ((?limit - 1) * div_ceil 1000000000 ?limit) = (?L - 1) * ?I"
    using small by (simp add: unat_word_ariths dec interval)
  then show ?thesis
    using L q prod interval by (simp add: cps_wf_def cps_new_def Let_def)
qed

lemma cps_new_fields [simp]: "cps_limit (cps_new lim) = lim" "cps_tat_ns (cps_new lim) = 0"
  by (simp_all add: cps_new_def Let_def)

lemma cps_wf_tat [simp]: "cps_wf (l\<lparr>cps_tat_ns := t\<rparr>) = cps_wf l"
  by (simp add: cps_wf_def)

lemma cps_attempt_tat [simp]: "cps_attempt (l\<lparr>cps_tat_ns := t\<rparr>) = cps_attempt l"
  by (simp add: cps_attempt_def fun_eq_iff)

text \<open>The verdict, read on natural numbers.\<close>

lemma cps_attempt_Inl:
  assumes "cps_wf l"
  shows "cps_attempt l tat now = Inl e \<longleftrightarrow>
    unat now + (unat (cps_limit l) - 1) * unat (cps_interval_ns l) < unat tat \<and>
    e = CpsLimitExceeded (cps_limit l)"
  using assms by (auto simp: cps_attempt_def cps_wf_def Let_def word_less_nat_alt sat_simps)

lemma unat_max: "unat (max a b) = max (unat a) (unat b)"
  by (simp add: max_def word_le_nat_alt)

lemma cps_attempt_Inr:
  assumes "cps_wf l" "cps_attempt l tat now = Inr new"
  shows "unat tat \<le> unat now + (unat (cps_limit l) - 1) * unat (cps_interval_ns l)"
    and "unat new = min (max (unat tat) (unat now) + unat (cps_interval_ns l)) (2 ^ 64 - 1)"
  using assms by (auto simp: cps_attempt_def cps_wf_def Let_def word_less_nat_alt sat_simps
      unat_max split: if_splits)

lemma limit_times_interval:
  "cps_wf l \<Longrightarrow> (unat (cps_limit l) - 1) * unat (cps_interval_ns l) + unat (cps_interval_ns l)
     = unat (cps_limit l) * unat (cps_interval_ns l)"
  by (cases "unat (cps_limit l)") (auto simp: cps_wf_def Let_def)

lemma cps_attempt_upper:
  assumes "cps_wf l" "cps_attempt l tat now = Inr new"
  shows "unat new \<le> unat now + unat (cps_limit l) * unat (cps_interval_ns l)"
  using cps_attempt_Inr [OF assms] limit_times_interval [OF assms(1)] by linarith

lemma cps_attempt_exact:
  assumes "cps_wf l" "cps_attempt l tat now = Inr new" "unat now + 2 ^ 33 \<le> 2 ^ 64"
  shows "unat new = max (unat tat) (unat now) + unat (cps_interval_ns l)"
proof -
  have "unat (cps_limit l) * unat (cps_interval_ns l) < 2 ^ 33"
    using assms(1) by (simp add: cps_wf_def Let_def)
  then show ?thesis
    using cps_attempt_Inr [OF assms(1,2)] limit_times_interval [OF assms(1)] assms(3) by linarith
qed

section \<open>Linearisability and the invariant of the interleaving\<close>

text \<open>The accepted calls replayed one after the other, oldest last in the list: \<open>Some\<close> of the
  theoretical arrival time they lead to, \<open>None\<close> if the sequential limiter rejects one.\<close>

fun cps_replay :: "cps_limiter \<Rightarrow> u64 list \<Rightarrow> u64 option" where
  "cps_replay l [] = Some 0"
| "cps_replay l (now # log) =
     (case cps_replay l log of
        None \<Rightarrow> None
      | Some tat \<Rightarrow> (case cps_attempt l tat now of Inl _ \<Rightarrow> None | Inr t \<Rightarrow> Some t))"

lemma cps_replay_tat [simp]: "cps_replay (l\<lparr>cps_tat_ns := t\<rparr>) log = cps_replay l log"
  by (induction log) (auto split: option.split)

fun pc_now :: "cps_pc \<Rightarrow> u64 option" where
  "pc_now (PTimed now) = Some now"
| "pc_now (PLoop tat now) = Some now"
| "pc_now _ = None"

definition cps_inv :: "cps_sys \<Rightarrow> bool" where
  "cps_inv s \<longleftrightarrow> cps_wf (sys_limiter s) \<and>
     (\<forall>i now. pc_now (sys_threads s i) = Some now \<longrightarrow> unat now \<le> sys_clock s) \<and>
     (\<forall>now \<in> set (sys_log s). unat now \<le> sys_clock s) \<and>
     cps_replay (sys_limiter s) (sys_log s) = Some (cps_tat_ns (sys_limiter s)) \<and>
     unat (cps_tat_ns (sys_limiter s))
       \<le> sys_clock s + unat (cps_limit (sys_limiter s)) * unat (cps_interval_ns (sys_limiter s))"

lemma unat_clamp_le: "unat (clamp_word n :: 'a::len word) \<le> n"
  by (simp add: sat_simps)

lemma cps_init_inv: "cps_init s \<Longrightarrow> cps_inv s"
  by (auto simp: cps_init_def cps_inv_def cps_new_wf)

lemma cps_step_inv:
  assumes "cps_inv s" "cps_step s t"
  shows "cps_inv t"
  using assms(2,1)
proof (induction rule: cps_step.induct)
  case (exchange s i tat now new_tat)
  then have "unat now \<le> sys_clock s"
    unfolding cps_inv_def by (metis pc_now.simps(2))
  moreover have "unat new_tat
      \<le> unat now + unat (cps_limit (sys_limiter s)) * unat (cps_interval_ns (sys_limiter s))"
    using exchange by (intro cps_attempt_upper) (auto simp: cps_inv_def)
  ultimately show ?case using exchange by (auto simp: cps_inv_def)
next
  case (load s i now)
  then have "unat now \<le> sys_clock s"
    unfolding cps_inv_def by (metis pc_now.simps(1))
  with load show ?case by (auto simp: cps_inv_def)
next
  case (tick s c)
  then show ?case by (fastforce simp: cps_inv_def)
qed (auto simp: cps_inv_def unat_clamp_le)

interpretation cps_system: invariant_system cps_init cps_step cps_inv
  by unfold_locales (blast intro: cps_init_inv cps_step_inv)+

section \<open>The rate bound\<close>

lemma cps_replay_window:
  fixes t T :: nat
  assumes "cps_wf l" "cps_replay l log = Some tat" "\<forall>n \<in> set log. unat n + 2 ^ 33 \<le> 2 ^ 64"
  defines "k \<equiv> \<lambda>xs. length (filter (\<lambda>n. t \<le> unat n \<and> unat n \<le> t + T) xs)"
  shows "(0 < k log \<longrightarrow> t + k log * unat (cps_interval_ns l) \<le> unat tat) \<and>
    k log * unat (cps_interval_ns l) \<le> T + unat (cps_limit l) * unat (cps_interval_ns l)"
  using assms(2,3)
proof (induction log arbitrary: tat)
  case Nil
  then show ?case by (simp add: k_def)
next
  case (Cons n log)
  let ?I = "unat (cps_interval_ns l)" and ?L = "unat (cps_limit l)"
  from Cons.prems(1) obtain tat0 where replay: "cps_replay l log = Some tat0"
    and att: "cps_attempt l tat0 n = Inr tat"
    by (auto split: option.splits sum.splits)
  note IH = Cons.IH [OF replay]
  have new: "unat tat = max (unat tat0) (unat n) + ?I"
    using assms(1) att Cons.prems(2) by (intro cps_attempt_exact) auto
  note ok = cps_attempt_Inr(1) [OF assms(1) att] and LI = limit_times_interval [OF assms(1)]
  show ?case
  proof (cases "t \<le> unat n \<and> unat n \<le> t + T")
    case True
    then have k: "k (n # log) = Suc (k log)" by (simp add: k_def)
    show ?thesis
    proof (cases "k log")
      case 0
      then show ?thesis using True k new LI by (simp add: le_max_iff_disj)
    next
      case (Suc j)
      then show ?thesis
        using True k new ok LI IH Cons.prems(2) by (simp add: le_max_iff_disj)
    qed
  next
    case False
    then have "k (n # log) = k log" by (auto simp: k_def)
    then show ?thesis using new IH Cons.prems(2) by auto
  qed
qed

text \<open>C16. However many threads call the limiter, in whatever order their loads and exchanges
  interleave, the calls it accepts in any window of \<open>T\<close> nanoseconds number at most the burst
  \<open>limit\<close> plus one per refill interval.\<close>

theorem cps_rate_bound:
  assumes "cps_init s\<^sub>0" and "cps_step\<^sup>*\<^sup>* s\<^sub>0 s" and "sys_clock s + 2 ^ 33 \<le> 2 ^ 64"
  shows "length (filter (\<lambda>n. t \<le> unat n \<and> unat n \<le> t + T) (sys_log s))
    \<le> unat (cps_limit (sys_limiter s)) + T div unat (cps_interval_ns (sys_limiter s))"
proof -
  let ?I = "unat (cps_interval_ns (sys_limiter s))"
  have inv: "cps_inv s" using assms(1,2) by (rule cps_system.reachable_inv)
  then have wf: "cps_wf (sys_limiter s)"
    and replay: "cps_replay (sys_limiter s) (sys_log s) = Some (cps_tat_ns (sys_limiter s))"
    by (auto simp: cps_inv_def)
  have stamps: "\<forall>n \<in> set (sys_log s). unat n + 2 ^ 33 \<le> 2 ^ 64"
    using inv assms(3) by (auto simp: cps_inv_def)
  have I: "0 < ?I" using wf by (simp add: cps_wf_def Let_def)
  have "length (filter (\<lambda>n. t \<le> unat n \<and> unat n \<le> t + T) (sys_log s)) * ?I
      \<le> T + unat (cps_limit (sys_limiter s)) * ?I"
    using cps_replay_window [OF wf replay stamps, of t T] by blast
  from div_le_mono [OF this, of ?I]
  have "length (filter (\<lambda>n. t \<le> unat n \<and> unat n \<le> t + T) (sys_log s))
      \<le> (T + unat (cps_limit (sys_limiter s)) * ?I) div ?I"
    using I by simp
  then show ?thesis using I by simp
qed

text \<open>C17. Every interleaved execution is linearisable: the shared arrival time is the one the
  sequential limiter reaches on the accepted calls in the order of their exchanges, none of
  which it would reject.\<close>

theorem cps_linearisable:
  assumes "cps_init s\<^sub>0" and "cps_step\<^sup>*\<^sup>* s\<^sub>0 s"
  shows "cps_replay (sys_limiter s) (sys_log s) = Some (cps_tat_ns (sys_limiter s))"
  using cps_system.reachable_inv [OF assms] by (simp add: cps_inv_def)

section \<open>The burst, and the reported count\<close>

text \<open>Calls one after the other at the given clock readings.\<close>

fun cps_run :: "nat list \<Rightarrow> cps_limiter \<Rightarrow> (cps_limit_exceeded + unit) list \<times> cps_limiter" where
  "cps_run [] l = ([], l)"
| "cps_run (t # ts) l =
     (let (r, l') = cps_try_acquire t l; (rs, l'') = cps_run ts l' in (r # rs, l''))"

lemma cps_try_acquire_frame:
  "cps_limit (snd (cps_try_acquire t l)) = cps_limit l"
  "cps_interval_ns (snd (cps_try_acquire t l)) = cps_interval_ns l"
  "cps_wf (snd (cps_try_acquire t l)) = cps_wf l"
  by (auto simp: cps_try_acquire_def split: sum.splits)

lemma cps_try_acquire_accepts:
  assumes "cps_wf l" "t + 2 ^ 33 \<le> 2 ^ 64"
    and "unat (cps_tat_ns l) \<le> t + (unat (cps_limit l) - 1) * unat (cps_interval_ns l)"
  shows "fst (cps_try_acquire t l) = Inr ()"
    and "unat (cps_tat_ns (snd (cps_try_acquire t l)))
      = max (unat (cps_tat_ns l)) t + unat (cps_interval_ns l)"
proof -
  have now: "unat (clamp_word t :: u64) = t" using assms(2) by (simp add: sat_simps)
  obtain new where new: "cps_attempt l (cps_tat_ns l) (clamp_word t) = Inr new"
    using cps_attempt_Inl [OF assms(1), of "cps_tat_ns l" "clamp_word t"] assms(3) now
    by (cases "cps_attempt l (cps_tat_ns l) (clamp_word t)") auto
  then show "fst (cps_try_acquire t l) = Inr ()" by (simp add: cps_try_acquire_def)
  show "unat (cps_tat_ns (snd (cps_try_acquire t l)))
      = max (unat (cps_tat_ns l)) t + unat (cps_interval_ns l)"
    using cps_attempt_exact [OF assms(1) new] assms(2) now new by (simp add: cps_try_acquire_def)
qed

lemma cps_run_accepts:
  assumes "cps_wf l" "sorted ts" "\<forall>t \<in> set ts. t + 2 ^ 33 \<le> 2 ^ 64 \<and>
      unat (cps_tat_ns l) \<le> t + j * unat (cps_interval_ns l)"
    and "j + length ts \<le> unat (cps_limit l)"
  shows "fst (cps_run ts l) = replicate (length ts) (Inr ())"
  using assms
proof (induction ts arbitrary: l j)
  case Nil
  then show ?case by simp
next
  case (Cons t ts)
  let ?l = "snd (cps_try_acquire t l)"
  have "j * unat (cps_interval_ns l) \<le> (unat (cps_limit l) - 1) * unat (cps_interval_ns l)"
    using Cons.prems(4) by (intro mult_le_mono1) simp
  then have le: "unat (cps_tat_ns l) \<le> t + (unat (cps_limit l) - 1) * unat (cps_interval_ns l)"
  proof -
    have "unat (cps_tat_ns l) \<le> t + j * unat (cps_interval_ns l)" using Cons.prems(3) by simp
    with \<open>j * _ \<le> _\<close> show ?thesis by linarith
  qed
  note acc = cps_try_acquire_accepts [OF Cons.prems(1) _ le]
  have "fst (cps_run ts ?l) = replicate (length ts) (Inr ())"
  proof (rule Cons.IH [where j = "Suc j"])
    show "\<forall>u \<in> set ts. u + 2 ^ 33 \<le> 2 ^ 64 \<and>
        unat (cps_tat_ns ?l) \<le> u + Suc j * unat (cps_interval_ns ?l)"
    proof
      fix u assume u: "u \<in> set ts"
      have "t \<le> u" using Cons.prems(2) u by simp
      moreover have "unat (cps_tat_ns l) \<le> u + j * unat (cps_interval_ns l)" "u + 2 ^ 33 \<le> 2 ^ 64"
        using Cons.prems(3) u by auto
      moreover have "unat (cps_tat_ns ?l) = max (unat (cps_tat_ns l)) t + unat (cps_interval_ns l)"
        using acc(2) Cons.prems(3) by simp
      ultimately show "u + 2 ^ 33 \<le> 2 ^ 64 \<and>
          unat (cps_tat_ns ?l) \<le> u + Suc j * unat (cps_interval_ns ?l)"
        by (simp add: cps_try_acquire_frame)
    qed
  qed (use Cons.prems in \<open>auto simp: cps_try_acquire_frame\<close>)
  with acc(1) Cons.prems(3) show ?case by (simp add: split_beta)
qed

text \<open>A fresh limiter accepts a burst: its first \<open>limit\<close> calls, whatever their spacing.\<close>

theorem cps_burst_accepted:
  assumes "lim \<noteq> 0" "sorted ts" "length ts \<le> unat lim" "\<forall>t \<in> set ts. t + 2 ^ 33 \<le> 2 ^ 64"
  shows "fst (cps_run ts (cps_new lim)) = replicate (length ts) (Inr ())"
  using assms by (intro cps_run_accepts [where j = 0]) (auto simp: cps_new_wf)

text \<open>The reported count never exceeds the configured limit, in any interleaving.\<close>

theorem cps_count_bounded:
  assumes "cps_init s\<^sub>0" and "cps_step\<^sup>*\<^sup>* s\<^sub>0 s" and "sys_clock s + 2 ^ 33 \<le> 2 ^ 64"
  shows "cps_current_count (sys_clock s) (sys_limiter s) \<le> cps_limit (sys_limiter s)"
proof -
  let ?l = "sys_limiter s"
  let ?p = "sat_sub (cps_tat_ns ?l) (clamp_word (sys_clock s))"
  let ?I = "unat (cps_interval_ns ?l)" and ?L = "unat (cps_limit ?l)"
  have inv: "cps_inv s" using assms(1,2) by (rule cps_system.reachable_inv)
  have nz: "cps_interval_ns ?l \<noteq> 0"
    using inv by (auto simp: cps_inv_def cps_wf_def Let_def)
  then have I: "0 < ?I" by (simp add: unat_gt_0)
  have "unat (cps_tat_ns ?l) \<le> sys_clock s + ?L * ?I" using inv by (simp add: cps_inv_def)
  moreover have "unat ?p = unat (cps_tat_ns ?l) - sys_clock s"
    using assms(3) by (simp add: sat_simps)
  ultimately have "unat ?p \<le> ?L * ?I" by linarith
  then have "(unat ?p + ?I - 1) div ?I \<le> (?L * ?I + (?I - 1)) div ?I"
    using I by (intro div_le_mono) simp
  also have "\<dots> = ?L" by (rule div_nat_eqI) (use I in \<open>simp_all add: mult.commute\<close>)
  finally have "unat (div_ceil ?p (cps_interval_ns ?l)) \<le> ?L"
    by (simp add: unat_div_ceil [OF nz])
  then have "unat (clamp_word (unat (div_ceil ?p (cps_interval_ns ?l))) :: u32) \<le> ?L"
    using unat_clamp_le le_trans by blast
  then show ?thesis
    by (simp add: cps_current_count_def cps_count_at_def Let_def word_le_nat_alt)
qed

section \<open>A concrete execution\<close>

text \<open>A limiter of two calls per second; one thread runs \<open>try_acquire\<close> to its exchange.\<close>

definition cps_demo_start :: cps_sys where
  "cps_demo_start = \<lparr>sys_limiter = cps_new 2, sys_clock = 7, sys_threads = (\<lambda>_. PIdle), sys_log = []\<rparr>"

definition cps_demo_end :: cps_sys where
  "cps_demo_end = \<lparr>sys_limiter = (cps_new 2)\<lparr>cps_tat_ns := 500000007\<rparr>, sys_clock = 7,
     sys_threads = (\<lambda>_. PIdle)(0 := PDone (Inr ())), sys_log = [7]\<rparr>"

lemma cps_demo_init: "cps_init cps_demo_start"
  by (auto simp: cps_init_def cps_demo_start_def intro: exI [of _ 2])

lemma cps_demo_attempt: "cps_attempt (cps_new 2) 0 7 = Inr 500000007"
  by (simp add: cps_attempt_def cps_new_def Let_def div_ceil_def sat_sub_def sat_add_def max_def)

lemma cps_demo_steps: "cps_step\<^sup>*\<^sup>* cps_demo_start cps_demo_end"
proof -
  let ?s1 = "cps_demo_start\<lparr>sys_threads := (sys_threads cps_demo_start)
    (0 := PTimed (clamp_word (sys_clock cps_demo_start)))\<rparr>"
  let ?s2 = "?s1\<lparr>sys_threads := (sys_threads ?s1)
    (0 := PLoop (cps_tat_ns (sys_limiter ?s1)) (clamp_word (sys_clock cps_demo_start)))\<rparr>"
  have 1: "cps_step cps_demo_start ?s1"
    by (rule cps_step.read_clock) (simp add: cps_demo_start_def)
  have 2: "cps_step ?s1 ?s2" by (rule cps_step.load) simp
  have eq: "cps_demo_end = ?s2\<lparr>
      sys_limiter := (sys_limiter ?s2)\<lparr>cps_tat_ns := 500000007\<rparr>,
      sys_threads := (sys_threads ?s2)(0 := PDone (Inr ())), sys_log := 7 # sys_log ?s2\<rparr>"
    by (simp add: cps_demo_start_def cps_demo_end_def)
  have 3: "cps_step ?s2 cps_demo_end"
    unfolding eq by (rule cps_step.exchange [where tat = 0])
      (simp_all add: cps_demo_start_def clamp_word_def cps_demo_attempt)
  show ?thesis
    by (rule converse_rtranclp_into_rtranclp [OF 1 converse_rtranclp_into_rtranclp [OF 2
          r_into_rtranclp [of cps_step, OF 3]]])
qed

theorem cps_rate_bound_witness:
  "length (filter (\<lambda>n. 0 \<le> unat n \<and> unat n \<le> 0 + 1000000000) (sys_log cps_demo_end))
    \<le> unat (cps_limit (sys_limiter cps_demo_end)) +
       1000000000 div unat (cps_interval_ns (sys_limiter cps_demo_end))"
  by (rule cps_rate_bound [OF cps_demo_init cps_demo_steps]) (simp add: cps_demo_end_def)

theorem cps_linearisable_witness:
  "cps_replay (sys_limiter cps_demo_end) (sys_log cps_demo_end)
     = Some (cps_tat_ns (sys_limiter cps_demo_end))"
  by (rule cps_linearisable [OF cps_demo_init cps_demo_steps])

end
