(* ===== verification/Hash_Map.thy ===== *)
theory Hash_Map
  imports Interfaces "HOL-Library.AList"
begin

text \<open>
  The hash maps of the sources (\<^verbatim>\<open>HashMap\<close>, \<^verbatim>\<open>DashMap\<close>) as association lists with distinct
  keys: the list order stands for the iteration order, which the sources do not rely on and the
  theorems do not mention.
\<close>

type_synonym ('k, 'v) hmap = "('k \<times> 'v) list"

definition hm_get :: "('k, 'v) hmap \<Rightarrow> 'k \<Rightarrow> 'v option" where
  "hm_get m k = map_of m k"

definition hm_insert :: "'k \<Rightarrow> 'v \<Rightarrow> ('k, 'v) hmap \<Rightarrow> ('k, 'v) hmap" where
  "hm_insert k v m = AList.update k v m"

definition hm_remove :: "'k \<Rightarrow> ('k, 'v) hmap \<Rightarrow> ('k, 'v) hmap" where
  "hm_remove k m = AList.delete k m"

definition hm_contains :: "('k, 'v) hmap \<Rightarrow> 'k \<Rightarrow> bool" where
  "hm_contains m k \<longleftrightarrow> hm_get m k \<noteq> None"

text \<open>\<^verbatim>\<open>retain\<close> keeps the entries a predicate accepts.\<close>

definition hm_retain :: "('k \<Rightarrow> 'v \<Rightarrow> bool) \<Rightarrow> ('k, 'v) hmap \<Rightarrow> ('k, 'v) hmap" where
  "hm_retain P m = filter (\<lambda>(k, v). P k v) m"

text \<open>An in-place update of every value (\<^verbatim>\<open>values_mut\<close>).\<close>

definition hm_map_values :: "('k \<Rightarrow> 'v \<Rightarrow> 'w) \<Rightarrow> ('k, 'v) hmap \<Rightarrow> ('k, 'w) hmap" where
  "hm_map_values f m = map (\<lambda>(k, v). (k, f k v)) m"

definition hm_ok :: "('k, 'v) hmap \<Rightarrow> bool" where
  "hm_ok m \<longleftrightarrow> distinct (map fst m)"

lemma hm_get_insert [simp]: "hm_get (hm_insert k v m) = (hm_get m)(k \<mapsto> v)"
  by (auto simp: hm_get_def hm_insert_def update_conv')

lemma hm_get_remove [simp]: "hm_get (hm_remove k m) = (hm_get m)(k := None)"
  by (auto simp: hm_get_def hm_remove_def delete_conv' fun_eq_iff)

lemma hm_get_Nil [simp]: "hm_get [] k = None"
  by (simp add: hm_get_def)

lemma hm_ok_insert [simp]: "hm_ok m \<Longrightarrow> hm_ok (hm_insert k v m)"
  by (simp add: hm_ok_def hm_insert_def distinct_update)

lemma hm_ok_remove [simp]: "hm_ok m \<Longrightarrow> hm_ok (hm_remove k m)"
  by (simp add: hm_ok_def hm_remove_def distinct_delete)

lemma hm_ok_Nil [simp]: "hm_ok []"
  by (simp add: hm_ok_def)

lemma hm_ok_retain [simp]: "hm_ok m \<Longrightarrow> hm_ok (hm_retain P m)"
  unfolding hm_ok_def hm_retain_def by (rule distinct_map_filter)

lemma hm_ok_map_values [simp]: "hm_ok (hm_map_values f m) = hm_ok m"
  by (simp add: hm_ok_def hm_map_values_def comp_def split_def)

lemma hm_get_retain:
  "hm_ok m \<Longrightarrow> hm_get (hm_retain P m) k =
     (case hm_get m k of None \<Rightarrow> None | Some v \<Rightarrow> if P k v then Some v else None)"
proof (induction m)
  case Nil
  then show ?case by (simp add: hm_retain_def)
next
  case (Cons x m)
  obtain a b where x: "x = (a, b)" by (cases x)
  show ?case
  proof (cases "k = a")
    case True
    with Cons.prems x have "k \<notin> fst ` set (filter (\<lambda>(k, v). P k v) m)"
      by (force simp: hm_ok_def)
    then have "map_of (filter (\<lambda>(k, v). P k v) m) k = None" by (rule map_of_eq_None_iff [THEN iffD2])
    with True x show ?thesis by (simp add: hm_get_def hm_retain_def)
  next
    case False
    with Cons x show ?thesis by (simp add: hm_ok_def hm_get_def hm_retain_def)
  qed
qed

lemma hm_get_map_values: "hm_get (hm_map_values f m) k = map_option (f k) (hm_get m k)"
  by (induction m) (auto simp: hm_get_def hm_map_values_def)

lemma hm_get_in: "hm_get m k = Some v \<Longrightarrow> (k, v) \<in> set m"
  by (simp add: hm_get_def map_of_SomeD)

lemma hm_in_get: "hm_ok m \<Longrightarrow> (k, v) \<in> set m \<longleftrightarrow> hm_get m k = Some v"
  by (auto simp: hm_ok_def hm_get_def)

interpretation hash_map: keyed_store hm_get hm_insert hm_remove
  by unfold_locales simp_all

end
