(* ===== verification/Rust_Str.thy ===== *)
theory Rust_Str
  imports Prelude
begin

text \<open>
  The operations of Rust's \<^verbatim>\<open>str\<close> that the sources call. A string is its list of code points;
  \<open>char\<close> holds the code points below 256, which covers the ASCII text of SIP headers, keys and
  numbers. White space and lower case follow the Unicode properties on that range.
\<close>

section \<open>Characters\<close>

definition code :: "char \<Rightarrow> nat" where
  "code c = of_char c"

definition is_white :: "char \<Rightarrow> bool" where
  "is_white c \<longleftrightarrow> (9 \<le> code c \<and> code c \<le> 13) \<or> code c = 32 \<or> code c = 133 \<or> code c = 160"

definition is_ascii_digit :: "char \<Rightarrow> bool" where
  "is_ascii_digit c \<longleftrightarrow> 48 \<le> code c \<and> code c \<le> 57"

definition is_ascii_hexdigit :: "char \<Rightarrow> bool" where
  "is_ascii_hexdigit c \<longleftrightarrow> is_ascii_digit c \<or> (65 \<le> code c \<and> code c \<le> 70) \<or>
     (97 \<le> code c \<and> code c \<le> 102)"

definition ascii_lower :: "char \<Rightarrow> char" where
  "ascii_lower c = (if 65 \<le> code c \<and> code c \<le> 90 then char_of (code c + 32) else c)"

definition unicode_lower :: "char \<Rightarrow> char" where
  "unicode_lower c =
     (if (65 \<le> code c \<and> code c \<le> 90) \<or> (192 \<le> code c \<and> code c \<le> 222 \<and> code c \<noteq> 215)
      then char_of (code c + 32) else c)"

section \<open>Strings\<close>

definition to_ascii_lowercase :: "string \<Rightarrow> string" where
  "to_ascii_lowercase s = map ascii_lower s"

definition to_lowercase :: "string \<Rightarrow> string" where
  "to_lowercase s = map unicode_lower s"

definition eq_ignore_ascii_case :: "string \<Rightarrow> string \<Rightarrow> bool" where
  "eq_ignore_ascii_case a b \<longleftrightarrow> to_ascii_lowercase a = to_ascii_lowercase b"

definition trim_start :: "string \<Rightarrow> string" where
  "trim_start s = dropWhile is_white s"

definition trim_end :: "string \<Rightarrow> string" where
  "trim_end s = rev (dropWhile is_white (rev s))"

definition trim :: "string \<Rightarrow> string" where
  "trim s = trim_end (trim_start s)"

definition starts_with :: "string \<Rightarrow> string \<Rightarrow> bool" where
  "starts_with s p \<longleftrightarrow> take (length p) s = p"

definition strip_prefix :: "string \<Rightarrow> string \<Rightarrow> string option" where
  "strip_prefix p s = (if starts_with s p then Some (drop (length p) s) else None)"

definition ends_with :: "string \<Rightarrow> string \<Rightarrow> bool" where
  "ends_with s p \<longleftrightarrow> starts_with (rev s) (rev p)"

definition str_contains :: "char \<Rightarrow> string \<Rightarrow> bool" where
  "str_contains c s \<longleftrightarrow> c \<in> set s"

text \<open>\<^verbatim>\<open>split(c)\<close> always yields at least one piece; \<^verbatim>\<open>split_once(c)\<close> cuts at the first \<open>c\<close>;
  \<^verbatim>\<open>splitn(n, c)\<close> stops cutting after \<open>n - 1\<close> cuts and yields nothing for \<open>n = 0\<close>.\<close>

fun split_on :: "char \<Rightarrow> string \<Rightarrow> string list" where
  "split_on c [] = [[]]"
| "split_on c (x # xs) =
     (if x = c then [] # split_on c xs
      else case split_on c xs of [] \<Rightarrow> [[x]] | p # ps \<Rightarrow> (x # p) # ps)"

fun split_once :: "char \<Rightarrow> string \<Rightarrow> (string \<times> string) option" where
  "split_once c [] = None"
| "split_once c (x # xs) =
     (if x = c then Some ([], xs)
      else case split_once c xs of None \<Rightarrow> None | Some (a, b) \<Rightarrow> Some (x # a, b))"

fun splitn :: "nat \<Rightarrow> char \<Rightarrow> string \<Rightarrow> string list" where
  "splitn 0 c s = []"
| "splitn (Suc 0) c s = [s]"
| "splitn (Suc (Suc n)) c s =
     (case split_once c s of None \<Rightarrow> [s] | Some (a, b) \<Rightarrow> a # splitn (Suc n) c b)"

text \<open>Byte offsets: a code point below 128 is one byte of UTF-8, the others of the range are two.
  \<open>split_bytes n s\<close> cuts at byte offset \<open>n\<close>, and is \<open>None\<close> where \<open>n\<close> is past the end or inside a
  character: there \<^verbatim>\<open>get(..n)\<close> is \<^verbatim>\<open>None\<close> and the indexing \<^verbatim>\<open>s[..n]\<close> panics.\<close>

definition char_bytes :: "char \<Rightarrow> nat" where
  "char_bytes c = (if code c < 128 then 1 else 2)"

definition byte_len :: "string \<Rightarrow> nat" where
  "byte_len s = sum_list (map char_bytes s)"

fun split_bytes :: "nat \<Rightarrow> string \<Rightarrow> (string \<times> string) option" where
  "split_bytes 0 s = Some ([], s)"
| "split_bytes (Suc n) [] = None"
| "split_bytes (Suc n) (c # s) =
     (if char_bytes c \<le> Suc n
      then map_option (\<lambda>(a, b). (c # a, b)) (split_bytes (Suc n - char_bytes c) s)
      else None)"

definition is_ascii :: "string \<Rightarrow> bool" where
  "is_ascii s \<longleftrightarrow> (\<forall>c \<in> set s. code c < 128)"

section \<open>Numbers\<close>

fun digits_value :: "nat \<Rightarrow> string \<Rightarrow> nat option" where
  "digits_value acc [] = Some acc"
| "digits_value acc (c # cs) =
     (if is_ascii_digit c then digits_value (10 * acc + (code c - 48)) cs else None)"

text \<open>\<^verbatim>\<open>str::parse::<uN>\<close>: an optional \<open>+\<close>, at least one digit, and no overflow.\<close>

definition parse_uint :: "nat \<Rightarrow> string \<Rightarrow> nat option" where
  "parse_uint bound s =
     (let ds = (case s of [] \<Rightarrow> [] | c # r \<Rightarrow> if c = CHR ''+'' then r else s)
      in if ds = [] then None
         else case digits_value 0 ds of
                None \<Rightarrow> None
              | Some v \<Rightarrow> if v < bound then Some v else None)"

text \<open>\<^verbatim>\<open>uN::to_string\<close>.\<close>

fun nat_to_string :: "nat \<Rightarrow> string" where
  "nat_to_string n =
     (if n < 10 then [char_of (48 + n)]
      else nat_to_string (n div 10) @ [char_of (48 + n mod 10)])"

declare nat_to_string.simps [simp del]

section \<open>Facts\<close>

lemma code_char_of [simp]: "code (char_of n) = n mod 256"
  by (simp add: code_def)

lemma eq_ignore_ascii_case_refl [simp]: "eq_ignore_ascii_case s s"
  by (simp add: eq_ignore_ascii_case_def)

lemma eq_ignore_ascii_case_sym: "eq_ignore_ascii_case a b \<longleftrightarrow> eq_ignore_ascii_case b a"
  by (auto simp: eq_ignore_ascii_case_def)

lemma starts_with_append [simp]: "starts_with (p @ s) p"
  by (simp add: starts_with_def)

lemma split_once_Some: "split_once c s = Some (a, b) \<Longrightarrow> s = a @ c # b \<and> c \<notin> set a"
proof (induction s arbitrary: a)
  case Nil
  then show ?case by simp
next
  case (Cons x xs)
  show ?case
  proof (cases "x = c")
    case True
    with Cons.prems show ?thesis by auto
  next
    case False
    with Cons.prems obtain a' where "split_once c xs = Some (a', b)" "a = x # a'"
      by (auto split: option.splits)
    with Cons.IH False show ?thesis by simp
  qed
qed

lemma split_once_None_iff: "split_once c s = None \<longleftrightarrow> c \<notin> set s"
  by (induction s) (auto split: option.splits)

lemma split_once_append: "c \<notin> set a \<Longrightarrow> split_once c (a @ c # b) = Some (a, b)"
  by (induction a) auto

lemma digits_value_append:
  "digits_value acc (xs @ ys) = Option.bind (digits_value acc xs) (\<lambda>v. digits_value v ys)"
  by (induction xs arbitrary: acc) auto

lemma digit_char: "d < 10 \<Longrightarrow> is_ascii_digit (char_of (48 + d)) \<and> code (char_of (48 + d)) - 48 = d"
  by (simp add: is_ascii_digit_def)

lemma digits_value_nat_to_string: "digits_value 0 (nat_to_string n) = Some n"
proof (induction n rule: nat_to_string.induct)
  case (1 n)
  show ?case
  proof (cases "n < 10")
    case True
    with digit_char [OF True] show ?thesis by (subst nat_to_string.simps) simp
  next
    case False
    have d: "n mod 10 < 10" by simp
    from False "1.IH" have "digits_value 0 (nat_to_string (n div 10)) = Some (n div 10)" by simp
    with False digit_char [OF d] show ?thesis
      by (subst nat_to_string.simps) (simp add: digits_value_append)
  qed
qed

lemma nat_to_string_digits: "\<forall>c \<in> set (nat_to_string n). is_ascii_digit c"
proof (induction n rule: nat_to_string.induct)
  case (1 n)
  have d: "n mod 10 < 10" by simp
  show ?case
  proof (cases "n < 10")
    case True
    with digit_char [OF True] show ?thesis by (subst nat_to_string.simps) simp
  next
    case False
    with "1.IH" digit_char [OF d] show ?thesis by (subst nat_to_string.simps) auto
  qed
qed

lemma nat_to_string_nonempty: "nat_to_string n \<noteq> []"
  by (subst nat_to_string.simps) simp

lemma digit_not:
  "is_ascii_digit c \<Longrightarrow> c \<noteq> CHR ''+'' \<and> c \<noteq> CHR '';'' \<and> c \<noteq> CHR '':'' \<and> \<not> is_white c"
  by (auto simp: is_ascii_digit_def is_white_def code_def)

text \<open>Printing a number and parsing it back is the identity below the type's bound.\<close>

lemma parse_uint_nat_to_string: "n < bound \<Longrightarrow> parse_uint bound (nat_to_string n) = Some n"
proof -
  assume n: "n < bound"
  obtain c r where cr: "nat_to_string n = c # r"
    using nat_to_string_nonempty by (cases "nat_to_string n") auto
  then have "c \<noteq> CHR ''+''"
    using nat_to_string_digits [of n] digit_not [of c] by simp
  then show ?thesis
    using digits_value_nat_to_string [of n] n by (simp add: parse_uint_def cr)
qed

lemma dropWhile_none: "\<forall>c \<in> set s. \<not> P c \<Longrightarrow> dropWhile P s = s"
  by (cases s) auto

lemma trim_id: "\<forall>c \<in> set s. \<not> is_white c \<Longrightarrow> trim s = s"
  by (simp add: trim_def trim_start_def trim_end_def dropWhile_none)

lemma length_trim_end: "length (trim_end s) \<le> length s"
  using length_dropWhile_le [of is_white "rev s"] by (simp add: trim_end_def)

lemma trim_eq_iff:
  assumes "s \<noteq> []"
  shows "trim s = s \<longleftrightarrow> \<not> is_white (hd s) \<and> \<not> is_white (last s)"
proof (cases "is_white (hd s)")
  case True
  with assms have "length (trim_start s) < length s"
    by (cases s) (auto simp: trim_start_def less_Suc_eq_le length_dropWhile_le)
  then have "length (trim s) < length s"
    using length_trim_end [of "trim_start s"] by (simp add: trim_def)
  with True show ?thesis by auto
next
  case False
  with assms have start: "trim_start s = s" by (cases s) (auto simp: trim_start_def)
  from assms obtain t c where s: "s = t @ [c]" by (cases s rule: rev_cases) auto
  show ?thesis
  proof (cases "is_white c")
    case True
    then have "length (trim_end s) < length s"
      using length_dropWhile_le [of is_white "rev t"] by (simp add: s trim_end_def)
    with True s start show ?thesis by (auto simp: trim_def)
  next
    case nw: False
    with False s start show ?thesis by (simp add: trim_def trim_end_def)
  qed
qed

lemma hd_last_trim:
  assumes "trim s \<noteq> []"
  shows "\<not> is_white (hd (trim s)) \<and> \<not> is_white (last (trim s))"
proof -
  let ?d = "dropWhile is_white s"
  have d: "?d \<noteq> []"
  proof
    assume "?d = []"
    then have "trim s = []" unfolding trim_def trim_start_def trim_end_def by (simp only: rev.simps dropWhile.simps)
    with assms show False ..
  qed
  have e: "dropWhile is_white (rev ?d) \<noteq> []"
    using assms by (simp add: trim_def trim_start_def trim_end_def)
  have "?d = trim s @ rev (takeWhile is_white (rev ?d))"
    by (simp add: trim_def trim_start_def trim_end_def)
      (metis rev_append rev_rev_ident takeWhile_dropWhile_id)
  then have "hd (trim s) = hd ?d" using assms by (metis hd_append2)
  then show ?thesis
    using hd_dropWhile [OF d] hd_dropWhile [OF e]
    by (simp add: trim_def trim_start_def trim_end_def last_rev)
qed

lemma trim_trim [simp]: "trim (trim s) = trim s"
proof (cases "trim s = []")
  case True
  have "trim [] = []" by (simp add: trim_def trim_start_def trim_end_def)
  with True show ?thesis by simp
next
  case False
  with hd_last_trim [OF False] trim_eq_iff [OF False] show ?thesis by blast
qed

lemma is_ascii_simps [simp]:
  "is_ascii []" "is_ascii (c # s) \<longleftrightarrow> code c < 128 \<and> is_ascii s"
  "is_ascii (s @ t) \<longleftrightarrow> is_ascii s \<and> is_ascii t"
  by (auto simp: is_ascii_def)

lemma byte_len_simps [simp]:
  "byte_len [] = 0" "byte_len (c # s) = char_bytes c + byte_len s"
  "byte_len (s @ t) = byte_len s + byte_len t"
  by (simp_all add: byte_len_def)

lemma byte_len_ascii: "is_ascii s \<Longrightarrow> byte_len s = length s"
  by (induction s) (auto simp: char_bytes_def)

lemma split_bytes_append: "is_ascii a \<Longrightarrow> split_bytes (length a) (a @ b) = Some (a, b)"
  by (induction a) (auto simp: char_bytes_def)

lemma split_bytes_ascii:
  "is_ascii s \<Longrightarrow> n \<le> length s \<Longrightarrow> split_bytes n s = Some (take n s, drop n s)"
  by (induction n s rule: split_bytes.induct) (auto simp: char_bytes_def)

lemma split_bytes_inside:
  "is_ascii a \<Longrightarrow> 128 \<le> code c \<Longrightarrow> split_bytes (Suc (length a)) (a @ c # b) = None"
  by (induction a) (auto simp: char_bytes_def)

lemma split_bytes_Some: "split_bytes n s = Some (a, b) \<Longrightarrow> s = a @ b \<and> byte_len a = n"
  by (induction n s arbitrary: a b rule: split_bytes.induct)
    (auto simp: char_bytes_def split: if_splits)

lemma split_on_no: "c \<notin> set s \<Longrightarrow> split_on c s = [s]"
  by (induction s) auto

lemma split_on_append: "c \<notin> set a \<Longrightarrow> split_on c (a @ c # b) = a # split_on c b"
  by (induction a) auto

end
