(* ===== verification/Call_Policy.thy ===== *)
theory Call_Policy
  imports Hash_Map Rust_Str "HOL-Library.Sublist"
begin

text \<open>
  Call policies: \<^verbatim>\<open>PolicyGuard\<close>, the \<^verbatim>\<open>FrequencyLimiter\<close> trait and its in-memory backend, from
  \<^verbatim>\<open>src/src/call/policy.rs\<close>, with the policy data of
  \<^verbatim>\<open>src/crates/rustpbx-models/src/policy.rs\<close>. The trait is a record of operations over a backend
  state. Phone-number metadata and calendar time come from other packages and are parameters
  (\<open>policy_env\<close>); times of day are numbers ordered as \<^verbatim>\<open>NaiveTime\<close> is. Timestamps (\<^verbatim>\<open>i64\<close>) are
  integers.
\<close>

section \<open>Policy data\<close>

record time_window =
  tw_start :: string
  tw_end :: string
  tw_timezone :: string

record frequency_limit =
  fl_count :: u32
  fl_window_hours :: u32

record daily_limit =
  dl_count :: u32

record concurrency_limit =
  cl_max_total :: u32
  cl_max_per_account :: "(string, u32) hmap"

record policy_spec =
  ps_called_prefix :: "string option"
  ps_trunk_country :: "string option"
  ps_allowed_destination_countries :: "string list"
  ps_time_window :: "time_window option"
  ps_deny_regions :: "string list"
  ps_allow_landline :: "bool option"
  ps_frequency_limit :: "frequency_limit option"
  ps_daily_limit :: "daily_limit option"
  ps_concurrency :: "concurrency_limit option"
  ps_tags :: "string list"

definition policy_default :: policy_spec where
  "policy_default = \<lparr>ps_called_prefix = None, ps_trunk_country = None,
     ps_allowed_destination_countries = [], ps_time_window = None, ps_deny_regions = [],
     ps_allow_landline = None, ps_frequency_limit = None, ps_daily_limit = None,
     ps_concurrency = None, ps_tags = []\<rparr>"

datatype policy_rejection =
    DestinationNotAllowed string
  | LandlineNotAllowed string
  | TimeWindowDenied string
  | RegionDenied string
  | FrequencyLimitExceeded string
  | DailyLimitExceeded string
  | ConcurrencyLimitExceeded string
  | InvalidNumber string

fun rejection_message :: "policy_rejection \<Rightarrow> string" where
  "rejection_message (DestinationNotAllowed msg) = msg"
| "rejection_message (LandlineNotAllowed msg) = msg"
| "rejection_message (TimeWindowDenied msg) = msg"
| "rejection_message (RegionDenied msg) = msg"
| "rejection_message (FrequencyLimitExceeded msg) = msg"
| "rejection_message (DailyLimitExceeded msg) = msg"
| "rejection_message (ConcurrencyLimitExceeded msg) = msg"
| "rejection_message (InvalidNumber msg) = msg"

datatype policy_check_status = PolicyAllowed | PolicyRejected policy_rejection

datatype policy_error = InvalidStartTime | InvalidEndTime | InvalidTimezone | LimiterError string

record concurrency_hold =
  ch_policy_id :: string
  ch_scope :: string
  ch_scope_value :: string

record policy_check_outcome =
  pco_status :: policy_check_status
  pco_holds :: "concurrency_hold list"

section \<open>Parameters: the limiter trait, phone numbers and the clock\<close>

record 's limiter_ops =
  lo_check_and_increment :: "string \<Rightarrow> string \<Rightarrow> string \<Rightarrow> u32 \<Rightarrow> u32 \<Rightarrow> 's \<Rightarrow> (policy_error + bool) \<times> 's"
  lo_check_daily_limit :: "string \<Rightarrow> string \<Rightarrow> string \<Rightarrow> u32 \<Rightarrow> 's \<Rightarrow> (policy_error + bool) \<times> 's"
  lo_check_concurrency :: "string \<Rightarrow> string \<Rightarrow> string \<Rightarrow> u32 \<Rightarrow> 's \<Rightarrow> (policy_error + bool) \<times> 's"
  lo_release_concurrency :: "string \<Rightarrow> string \<Rightarrow> string \<Rightarrow> 's \<Rightarrow> (policy_error + unit) \<times> 's"

datatype phone_type = FixedLine | FixedLineOrMobile | OtherPhoneType

record 'n policy_env =
  pe_parse :: "string \<Rightarrow> 'n option"
  pe_country_id :: "'n \<Rightarrow> string option"
  pe_number_type :: "'n \<Rightarrow> phone_type"
  pe_parse_hm :: "string \<Rightarrow> nat option"
  pe_now_local :: nat
  pe_now_in :: "string \<Rightarrow> nat option"

section \<open>The policy check\<close>

text \<open>The filters that make a policy irrelevant to a call: it is then allowed at once.\<close>

definition policy_applies :: "policy_spec \<Rightarrow> string \<Rightarrow> string option \<Rightarrow> bool" where
  "policy_applies policy callee origin_country \<longleftrightarrow>
     (case ps_called_prefix policy of None \<Rightarrow> True | Some pre \<Rightarrow> starts_with callee pre) \<and>
     (case ps_trunk_country policy of
        None \<Rightarrow> True
      | Some tc \<Rightarrow> (case origin_country of None \<Rightarrow> True | Some oc \<Rightarrow> tc = oc))"

definition listed_region :: "string list \<Rightarrow> string \<Rightarrow> bool" where
  "listed_region regions region \<longleftrightarrow> (\<exists>c \<in> set regions. eq_ignore_ascii_case c region)"

definition check_destination :: "'n policy_env \<Rightarrow> policy_spec \<Rightarrow> string \<Rightarrow> 'n option \<Rightarrow>
    policy_rejection option" where
  "check_destination env policy callee parsed =
     (if ps_allowed_destination_countries policy = [] then None
      else case parsed of
             None \<Rightarrow> None
           | Some number \<Rightarrow>
               (case pe_country_id env number of
                  Some region \<Rightarrow>
                    if listed_region (ps_allowed_destination_countries policy) region then None
                    else Some (DestinationNotAllowed
                      (''Destination country '' @ region @ '' not allowed for callee '' @ callee))
                | None \<Rightarrow> Some (InvalidNumber (''No country ID found for callee '' @ callee))))"

definition check_landline :: "'n policy_env \<Rightarrow> policy_spec \<Rightarrow> string \<Rightarrow> 'n option \<Rightarrow>
    policy_rejection option" where
  "check_landline env policy callee parsed =
     (case (ps_allow_landline policy, parsed) of
        (Some allow_landline, Some number) \<Rightarrow>
          let is_fixed = (pe_number_type env number \<in> {FixedLine, FixedLineOrMobile})
          in if \<not> allow_landline \<and> is_fixed
             then Some (LandlineNotAllowed (''Landline calls are not allowed: '' @ callee))
             else None
      | _ \<Rightarrow> None)"

definition check_time_window :: "'n policy_env \<Rightarrow> policy_spec \<Rightarrow>
    policy_error + policy_rejection option" where
  "check_time_window env policy =
     (case ps_time_window policy of
        None \<Rightarrow> Inr None
      | Some window \<Rightarrow>
          (case pe_parse_hm env (tw_start window) of
             None \<Rightarrow> Inl InvalidStartTime
           | Some start \<Rightarrow>
               (case pe_parse_hm env (tw_end window) of
                  None \<Rightarrow> Inl InvalidEndTime
                | Some end' \<Rightarrow>
                    (case (if tw_timezone window = ''Local'' then Some (pe_now_local env)
                           else pe_now_in env (tw_timezone window)) of
                       None \<Rightarrow> Inl InvalidTimezone
                     | Some now \<Rightarrow>
                         let denied = TimeWindowDenied (''Call outside allowed time window: '' @
                               tw_start window @ '' - '' @ tw_end window)
                         in if start \<le> end'
                            then (if now < start \<or> end' < now then Inr (Some denied) else Inr None)
                            else (if now < start \<and> end' < now then Inr (Some denied)
                                  else Inr None)))))"

definition region_denied :: "policy_spec \<Rightarrow> string option \<Rightarrow> (string \<Rightarrow> string) \<Rightarrow>
    policy_rejection option" where
  "region_denied policy region message =
     (case region of
        Some r \<Rightarrow> if listed_region (ps_deny_regions policy) r then Some (RegionDenied (message r))
                  else None
      | None \<Rightarrow> None)"

definition check_deny_regions :: "'n policy_env \<Rightarrow> policy_spec \<Rightarrow> string \<Rightarrow> string \<Rightarrow> 'n option \<Rightarrow>
    string option \<Rightarrow> policy_rejection option" where
  "check_deny_regions env policy caller callee parsed origin_country =
     (if ps_deny_regions policy = [] then None
      else or_else
        (region_denied policy (Option.bind parsed (pe_country_id env))
           (\<lambda>r. ''Destination country '' @ r @ '' is denied for callee '' @ callee))
        (or_else
           (region_denied policy (Option.bind (pe_parse env caller) (pe_country_id env))
              (\<lambda>r. ''Source country '' @ r @ '' is denied for caller '' @ caller))
           (region_denied policy origin_country
              (\<lambda>r. ''Origin country '' @ r @ '' is denied''))))"

definition policy_static_checks :: "'n policy_env \<Rightarrow> policy_spec \<Rightarrow> string \<Rightarrow> string \<Rightarrow>
    string option \<Rightarrow> policy_error + policy_rejection option" where
  "policy_static_checks env policy caller callee origin_country =
     (let parsed = pe_parse env callee
      in case or_else (check_destination env policy callee parsed)
                      (check_landline env policy callee parsed) of
           Some r \<Rightarrow> Inr (Some r)
         | None \<Rightarrow>
             (case check_time_window env policy of
                Inl e \<Rightarrow> Inl e
              | Inr (Some r) \<Rightarrow> Inr (Some r)
              | Inr None \<Rightarrow> Inr (check_deny_regions env policy caller callee parsed origin_country)))"

text \<open>The limiter calls, in the source's order; the last one acquires a slot and records it.\<close>

definition check_frequency :: "'s limiter_ops \<Rightarrow> string \<Rightarrow> policy_spec \<Rightarrow> string \<Rightarrow> 's \<Rightarrow>
    (policy_error + policy_rejection option) \<times> 's" where
  "check_frequency ops policy_id policy caller s =
     (case ps_frequency_limit policy of
        None \<Rightarrow> (Inr None, s)
      | Some limit \<Rightarrow>
          (case lo_check_and_increment ops policy_id ''caller'' caller (fl_count limit)
                  (fl_window_hours limit) s of
             (Inl e, s') \<Rightarrow> (Inl e, s')
           | (Inr True, s') \<Rightarrow> (Inr None, s')
           | (Inr False, s') \<Rightarrow>
               (Inr (Some (FrequencyLimitExceeded
                  (''Frequency limit reached for caller '' @ caller))), s')))"

definition check_daily :: "'s limiter_ops \<Rightarrow> string \<Rightarrow> policy_spec \<Rightarrow> string \<Rightarrow> 's \<Rightarrow>
    (policy_error + policy_rejection option) \<times> 's" where
  "check_daily ops policy_id policy caller s =
     (case ps_daily_limit policy of
        None \<Rightarrow> (Inr None, s)
      | Some limit \<Rightarrow>
          (case lo_check_daily_limit ops policy_id ''caller'' caller (dl_count limit) s of
             (Inl e, s') \<Rightarrow> (Inl e, s')
           | (Inr True, s') \<Rightarrow> (Inr None, s')
           | (Inr False, s') \<Rightarrow>
               (Inr (Some (DailyLimitExceeded
                  (''Daily limit reached for caller '' @ caller))), s')))"

definition check_slots :: "'s limiter_ops \<Rightarrow> string \<Rightarrow> policy_spec \<Rightarrow> string \<Rightarrow> 's \<Rightarrow>
    (policy_error + policy_rejection option \<times> concurrency_hold list) \<times> 's" where
  "check_slots ops policy_id policy caller s =
     (case ps_concurrency policy of
        None \<Rightarrow> (Inr (None, []), s)
      | Some limit \<Rightarrow>
          (case lo_check_concurrency ops policy_id ''caller'' caller (cl_max_total limit) s of
             (Inl e, s') \<Rightarrow> (Inl e, s')
           | (Inr False, s') \<Rightarrow>
               (Inr (Some (ConcurrencyLimitExceeded
                  (''Concurrency limit reached for caller '' @ caller)), []), s')
           | (Inr True, s') \<Rightarrow>
               (Inr (None, [\<lparr>ch_policy_id = policy_id, ch_scope = ''caller'',
                             ch_scope_value = caller\<rparr>]), s')))"

definition check_policy_inner :: "'s limiter_ops \<Rightarrow> 'n policy_env \<Rightarrow> string \<Rightarrow> policy_spec \<Rightarrow>
    string \<Rightarrow> string \<Rightarrow> string option \<Rightarrow> 's \<Rightarrow>
    (policy_error + policy_check_status \<times> concurrency_hold list) \<times> 's" where
  "check_policy_inner ops env policy_id policy caller callee origin_country s =
     (if \<not> policy_applies policy callee origin_country then (Inr (PolicyAllowed, []), s)
      else case policy_static_checks env policy caller callee origin_country of
             Inl e \<Rightarrow> (Inl e, s)
           | Inr (Some r) \<Rightarrow> (Inr (PolicyRejected r, []), s)
           | Inr None \<Rightarrow>
               (case check_frequency ops policy_id policy caller s of
                  (Inl e, s') \<Rightarrow> (Inl e, s')
                | (Inr (Some r), s') \<Rightarrow> (Inr (PolicyRejected r, []), s')
                | (Inr None, s') \<Rightarrow>
                    (case check_daily ops policy_id policy caller s' of
                       (Inl e, s'') \<Rightarrow> (Inl e, s'')
                     | (Inr (Some r), s'') \<Rightarrow> (Inr (PolicyRejected r, []), s'')
                     | (Inr None, s'') \<Rightarrow>
                         (case check_slots ops policy_id policy caller s'' of
                            (Inl e, s3) \<Rightarrow> (Inl e, s3)
                          | (Inr (Some r, holds), s3) \<Rightarrow> (Inr (PolicyRejected r, holds), s3)
                          | (Inr (None, holds), s3) \<Rightarrow> (Inr (PolicyAllowed, holds), s3)))))"

definition check_policy :: "'s limiter_ops \<Rightarrow> 'n policy_env \<Rightarrow> string \<Rightarrow> policy_spec \<Rightarrow>
    string \<Rightarrow> string \<Rightarrow> string option \<Rightarrow> 's \<Rightarrow> (policy_error + policy_check_outcome) \<times> 's" where
  "check_policy ops env policy_id policy caller callee origin_country s =
     (case check_policy_inner ops env policy_id policy caller callee origin_country s of
        (Inl e, s') \<Rightarrow> (Inl e, s')
      | (Inr (status, holds), s') \<Rightarrow>
          (Inr \<lparr>pco_status = status,
                pco_holds = (if status = PolicyAllowed then holds else [])\<rparr>, s'))"

text \<open>Best-effort release at session teardown: a failed release does not stop the others.\<close>

fun release_concurrency_holds :: "'s limiter_ops \<Rightarrow> concurrency_hold list \<Rightarrow> 's \<Rightarrow> 's" where
  "release_concurrency_holds ops [] s = s"
| "release_concurrency_holds ops (hold # holds) s =
     release_concurrency_holds ops holds
       (snd (lo_release_concurrency ops (ch_policy_id hold) (ch_scope hold) (ch_scope_value hold) s))"

section \<open>The in-memory limiter\<close>

definition evaluate_window :: "u32 \<Rightarrow> int \<Rightarrow> int \<Rightarrow> int \<Rightarrow> u32 \<Rightarrow> bool \<times> u32 \<times> int" where
  "evaluate_window count window_end now new_window_end limit =
     (if window_end < now then (True, 1, new_window_end)
      else if limit \<le> count then (False, count, window_end)
      else (True, count + 1, window_end))"

definition parse_limit_key :: "string \<Rightarrow> (string \<times> string \<times> string \<times> string) option" where
  "parse_limit_key key =
     (case splitn 4 CHR '':'' key of
        [p, s, v, t] \<Rightarrow> Some (p, s, v, t)
      | _ \<Rightarrow> None)"

definition opt_matches :: "string option \<Rightarrow> string \<Rightarrow> bool" where
  "opt_matches f x \<longleftrightarrow> (case f of None \<Rightarrow> True | Some y \<Rightarrow> y = x)"

definition key_matches_filters :: "string \<times> string \<times> string \<times> string \<Rightarrow> string option \<Rightarrow>
    string option \<Rightarrow> string option \<Rightarrow> string option \<Rightarrow> bool" where
  "key_matches_filters parts policy_id scope scope_value limit_type =
     (case parts of (p_id, s, s_val, l_type) \<Rightarrow>
        opt_matches policy_id p_id \<and> opt_matches scope s \<and> opt_matches scope_value s_val \<and>
        opt_matches limit_type l_type)"

type_synonym mem_limiter = "(string, u32 \<times> int) hmap"

definition i64_max :: int where
  "i64_max = 2 ^ 63 - 1"

definition limit_key :: "string \<Rightarrow> string \<Rightarrow> string \<Rightarrow> string \<Rightarrow> string" where
  "limit_key policy_id scope scope_value limit_type =
     policy_id @ '':'' @ scope @ '':'' @ scope_value @ '':'' @ limit_type"

definition mem_cleanup :: "int \<Rightarrow> mem_limiter \<Rightarrow> mem_limiter" where
  "mem_cleanup now m = hm_retain (\<lambda>_ (_, window_end). now < window_end) m"

definition mem_window_check :: "string \<Rightarrow> int \<Rightarrow> int \<Rightarrow> u32 \<Rightarrow> mem_limiter \<Rightarrow>
    (policy_error + bool) \<times> mem_limiter" where
  "mem_window_check key now new_window_end limit m =
     (let (count, window_end) = (case hm_get m key of None \<Rightarrow> (0, 0) | Some e \<Rightarrow> e);
          (ok, count', window_end') = evaluate_window count window_end now new_window_end limit
      in (Inr ok, hm_insert key (count', window_end') m))"

definition mem_check_and_increment :: "int \<Rightarrow> string \<Rightarrow> string \<Rightarrow> string \<Rightarrow> u32 \<Rightarrow> u32 \<Rightarrow>
    mem_limiter \<Rightarrow> (policy_error + bool) \<times> mem_limiter" where
  "mem_check_and_increment now policy_id scope scope_value limit window_hours m =
     mem_window_check (limit_key policy_id scope scope_value ''frequency'') now
       (now + int (unat window_hours) * 3600) limit m"

definition mem_check_daily_limit :: "int \<Rightarrow> int \<Rightarrow> string \<Rightarrow> string \<Rightarrow> string \<Rightarrow> u32 \<Rightarrow>
    mem_limiter \<Rightarrow> (policy_error + bool) \<times> mem_limiter" where
  "mem_check_daily_limit now today_end policy_id scope scope_value limit m =
     mem_window_check (limit_key policy_id scope scope_value ''daily'') now today_end limit m"

definition mem_check_concurrency :: "string \<Rightarrow> string \<Rightarrow> string \<Rightarrow> u32 \<Rightarrow> mem_limiter \<Rightarrow>
    (policy_error + bool) \<times> mem_limiter" where
  "mem_check_concurrency policy_id scope scope_value max_concurrency m =
     (let key = limit_key policy_id scope scope_value ''concurrency'';
          count = (case hm_get m key of None \<Rightarrow> 0 | Some (c, _) \<Rightarrow> c)
      in if max_concurrency \<le> count then (Inr False, hm_insert key (count, i64_max) m)
         else (Inr True, hm_insert key (count + 1, i64_max) m))"

definition mem_release_concurrency :: "string \<Rightarrow> string \<Rightarrow> string \<Rightarrow> mem_limiter \<Rightarrow>
    (policy_error + unit) \<times> mem_limiter" where
  "mem_release_concurrency policy_id scope scope_value m =
     (let key = limit_key policy_id scope scope_value ''concurrency''
      in case hm_get m key of
           Some (count, window_end) \<Rightarrow>
             if 0 < count then (Inr (), hm_insert key (count - 1, window_end) m) else (Inr (), m)
         | None \<Rightarrow> (Inr (), m))"

definition limit_selected :: "string option \<Rightarrow> string option \<Rightarrow> string option \<Rightarrow> string option \<Rightarrow>
    string \<Rightarrow> bool" where
  "limit_selected policy_id scope scope_value limit_type key =
     (case parse_limit_key key of
        None \<Rightarrow> False
      | Some parts \<Rightarrow> key_matches_filters parts policy_id scope scope_value limit_type)"

definition mem_clear_limits :: "string option \<Rightarrow> string option \<Rightarrow> string option \<Rightarrow>
    string option \<Rightarrow> mem_limiter \<Rightarrow> nat \<times> mem_limiter" where
  "mem_clear_limits policy_id scope scope_value limit_type m =
     (let keys_to_remove = filter (limit_selected policy_id scope scope_value limit_type) (map fst m)
      in (length keys_to_remove, fold hm_remove keys_to_remove m))"

definition mem_limiter_ops :: "int \<Rightarrow> int \<Rightarrow> mem_limiter limiter_ops" where
  "mem_limiter_ops now today_end =
     \<lparr>lo_check_and_increment = mem_check_and_increment now,
      lo_check_daily_limit = mem_check_daily_limit now today_end,
      lo_check_concurrency = mem_check_concurrency,
      lo_release_concurrency = mem_release_concurrency\<rparr>"

section \<open>The limiter interface\<close>

text \<open>How many of the holds are on a slot.\<close>

definition hold_slot :: "(string \<Rightarrow> string \<Rightarrow> string \<Rightarrow> 'k) \<Rightarrow> concurrency_hold \<Rightarrow> 'k" where
  "hold_slot slot_of h = slot_of (ch_policy_id h) (ch_scope h) (ch_scope_value h)"

definition holds_on :: "(string \<Rightarrow> string \<Rightarrow> string \<Rightarrow> 'k) \<Rightarrow> concurrency_hold list \<Rightarrow> 'k \<Rightarrow> nat" where
  "holds_on slot_of hs k = length (filter (\<lambda>h. hold_slot slot_of h = k) hs)"

lemma holds_on_simps [simp]:
  "holds_on f [] k = 0"
  "holds_on f (h # hs) k = (if hold_slot f h = k then 1 else 0) + holds_on f hs k"
  "holds_on f (hs @ gs) k = holds_on f hs k + holds_on f gs k"
  by (simp_all add: holds_on_def)

fun outcome_holds :: "policy_error + policy_check_outcome \<Rightarrow> concurrency_hold list" where
  "outcome_holds (Inl e) = []"
| "outcome_holds (Inr oc) = pco_holds oc"

text \<open>What \<^verbatim>\<open>FrequencyLimiter\<close> promises about concurrency slots: only a granted
  \<open>check_concurrency\<close> takes one, below the configured maximum, and a release gives one back.\<close>

locale frequency_limiter =
  fixes ops :: "'s limiter_ops"
    and slot_of :: "string \<Rightarrow> string \<Rightarrow> string \<Rightarrow> 'k"
    and slots :: "'s \<Rightarrow> 'k \<Rightarrow> nat"
  assumes frequency_frame:
      "lo_check_and_increment ops p sc v limit hours s = (rf, s') \<Longrightarrow> slots s' = slots s"
    and daily_frame: "lo_check_daily_limit ops p sc v limit s = (rf, s') \<Longrightarrow> slots s' = slots s"
    and concurrency_granted: "lo_check_concurrency ops p sc v m s = (Inr True, s') \<Longrightarrow>
      slots s' = (slots s)(slot_of p sc v := Suc (slots s (slot_of p sc v))) \<and>
      slots s (slot_of p sc v) < unat m"
    and concurrency_denied: "lo_check_concurrency ops p sc v m s = (r, s') \<Longrightarrow> r \<noteq> Inr True \<Longrightarrow>
      slots s' = slots s"
    and release: "slots (snd (lo_release_concurrency ops p sc v s))
      = (slots s)(slot_of p sc v := slots s (slot_of p sc v) - 1)"
begin

lemma check_frequency_slots: "slots (snd (check_frequency ops pid pol caller s)) = slots s"
  by (auto simp: check_frequency_def dest: frequency_frame
      split: option.splits prod.splits sum.splits bool.splits)

lemma check_daily_slots: "slots (snd (check_daily ops pid pol caller s)) = slots s"
  by (auto simp: check_daily_def dest: daily_frame
      split: option.splits prod.splits sum.splits bool.splits)

lemma check_slots_slots:
  assumes "check_slots ops pid pol caller s = (r, s')"
  shows "case r of
      Inr (None, hs) \<Rightarrow> (\<forall>k. slots s' k = slots s k + holds_on slot_of hs k)
    | Inr (Some _, hs) \<Rightarrow> hs = [] \<and> slots s' = slots s
    | Inl _ \<Rightarrow> slots s' = slots s"
  using assms concurrency_denied [of pid "''caller''" caller _ s]
    concurrency_granted [of pid "''caller''" caller _ s s']
  by (auto simp: check_slots_def hold_slot_def
      split: option.splits prod.splits sum.splits bool.splits)

lemma check_policy_inner_slots:
  assumes "check_policy_inner ops env pid pol caller callee oc s = (r, s')"
  shows "case r of
      Inr (PolicyAllowed, hs) \<Rightarrow> (\<forall>k. slots s' k = slots s k + holds_on slot_of hs k)
    | Inr (PolicyRejected _, hs) \<Rightarrow> hs = [] \<and> slots s' = slots s
    | Inl _ \<Rightarrow> slots s' = slots s"
proof -
  obtain rf sf where f: "check_frequency ops pid pol caller s = (rf, sf)" by fastforce
  obtain rd sd where d: "check_daily ops pid pol caller sf = (rd, sd)" by fastforce
  obtain rc sc where c: "check_slots ops pid pol caller sd = (rc, sc)" by fastforce
  have "slots sf = slots s" "slots sd = slots sf"
    using check_frequency_slots [of pid pol caller s] check_daily_slots [of pid pol caller sf] f d
    by simp_all
  with assms f d c check_slots_slots [OF c] show ?thesis
    by (auto simp: check_policy_inner_def split: if_splits sum.splits option.splits prod.splits)
qed

lemma check_policy_accounts:
  assumes "check_policy ops env pid pol caller callee oc s = (r, s')"
  shows "slots s' k = slots s k + holds_on slot_of (outcome_holds r) k"
  using assms check_policy_inner_slots [of env pid pol caller callee oc s]
  by (auto simp: check_policy_def split: prod.splits sum.splits policy_check_status.splits if_splits)

lemma check_slots_bounded:
  assumes "check_slots ops pid pol caller s = (r, s')" "slots s k \<le> bound"
    and "\<forall>limit. ps_concurrency pol = Some limit \<longrightarrow> slot_of pid ''caller'' caller = k \<longrightarrow>
      unat (cl_max_total limit) \<le> bound"
  shows "slots s' k \<le> bound"
  using assms concurrency_denied [of pid "''caller''" caller _ s]
    concurrency_granted [of pid "''caller''" caller _ s s']
  by (force simp: check_slots_def split: option.splits prod.splits sum.splits bool.splits)

lemma check_policy_bounded:
  assumes c: "check_policy ops env pid pol caller callee oc s = (r, s')" and b: "slots s k \<le> bound"
    and m: "\<forall>limit. ps_concurrency pol = Some limit \<longrightarrow> slot_of pid ''caller'' caller = k \<longrightarrow>
      unat (cl_max_total limit) \<le> bound"
  shows "slots s' k \<le> bound"
proof -
  obtain rf sf where f: "check_frequency ops pid pol caller s = (rf, sf)" by fastforce
  obtain rd sd where d: "check_daily ops pid pol caller sf = (rd, sd)" by fastforce
  obtain rc sc where e: "check_slots ops pid pol caller sd = (rc, sc)" by fastforce
  have "slots sf = slots s" "slots sd = slots sf"
    using check_frequency_slots [of pid pol caller s] check_daily_slots [of pid pol caller sf] f d
    by simp_all
  with check_slots_bounded [OF e _ m] b c f d e show ?thesis
    by (auto simp: check_policy_def check_policy_inner_def
        split: if_splits sum.splits option.splits prod.splits)
qed

lemma check_policy_rejected_holds:
  assumes "check_policy ops env pid pol caller callee oc s = (Inr oc', s')"
    and "pco_status oc' \<noteq> PolicyAllowed"
  shows "pco_holds oc' = []"
  using assms by (auto simp: check_policy_def split: prod.splits sum.splits)

lemma release_holds_slots:
  "slots (release_concurrency_holds ops hs s) k = slots s k - holds_on slot_of hs k"
  by (induction hs arbitrary: s) (auto simp: release hold_slot_def)

lemma check_then_release:
  assumes "check_policy ops env pid pol caller callee oc s = (r, s')"
  shows "slots (release_concurrency_holds ops (outcome_holds r) s') = slots s"
  using check_policy_accounts [OF assms] by (auto simp: release_holds_slots)

end

text \<open>The in-memory limiter keeps its slots under the keys of type \<open>concurrency\<close>.\<close>

definition mem_slot_of :: "string \<Rightarrow> string \<Rightarrow> string \<Rightarrow> string" where
  "mem_slot_of p sc v = limit_key p sc v ''concurrency''"

definition mem_slots :: "mem_limiter \<Rightarrow> string \<Rightarrow> nat" where
  "mem_slots m key =
     (if suffix '':concurrency'' key
      then (case hm_get m key of None \<Rightarrow> 0 | Some (c, _) \<Rightarrow> unat c) else 0)"

lemma rev_eq: "xs = ys \<Longrightarrow> rev xs = rev ys"
  by simp

lemma limit_key_suffix:
  "suffix '':concurrency'' (limit_key p sc v ''concurrency'')"
  "\<not> suffix '':concurrency'' (limit_key p sc v ''frequency'')"
  "\<not> suffix '':concurrency'' (limit_key p sc v ''daily'')"
  by (auto simp: limit_key_def suffix_def dest!: rev_eq)

lemma mem_window_check_slots:
  "\<not> suffix '':concurrency'' key \<Longrightarrow>
     mem_slots (snd (mem_window_check key now new_end limit m)) = mem_slots m"
  by (auto simp: mem_window_check_def mem_slots_def Let_def fun_eq_iff split: prod.splits option.splits)

interpretation mem_limiter: frequency_limiter "mem_limiter_ops now today_end" mem_slot_of mem_slots
  for now today_end
proof (unfold_locales, goal_cases)
  case (1 p sc v limit hours s r s')
  then show ?case
    using mem_window_check_slots [OF limit_key_suffix(2), of p sc v now _ limit s]
    by (simp add: mem_limiter_ops_def mem_check_and_increment_def) (metis snd_conv)
next
  case (2 p sc v limit s r s')
  then show ?case
    using mem_window_check_slots [OF limit_key_suffix(3), of p sc v now today_end limit s]
    by (auto simp: mem_limiter_ops_def mem_check_daily_limit_def)
next
  case (3 p sc v m s s')
  then show ?case
    by (auto simp: mem_limiter_ops_def mem_check_concurrency_def mem_slots_def mem_slot_of_def
        Let_def limit_key_suffix fun_eq_iff not_le word_less_nat_alt [symmetric] unat_inc
        unat_gt_0 word_gt_0
        split: if_splits option.splits)
next
  case (4 p sc v m s r s')
  then show ?case
    by (auto simp: mem_limiter_ops_def mem_check_concurrency_def mem_slots_def Let_def fun_eq_iff
        split: if_splits option.splits)
next
  case (5 p sc v s)
  then show ?case
    by (auto simp: mem_limiter_ops_def mem_release_concurrency_def mem_slots_def mem_slot_of_def
        Let_def limit_key_suffix fun_eq_iff unat_dec not_less word_le_nat_alt split: option.splits)
qed

end
