(* ===== verification/Policy_Runs.thy ===== *)
theory Policy_Runs
  imports Call_Policy Interfaces
begin

text \<open>
  Runs of the call-policy engine (\<^verbatim>\<open>src/src/call/policy.rs\<close>). The first group interleaves all the
  operations of \<^verbatim>\<open>InMemoryFrequencyLimiter\<close>, its cleanup task and clearing included, and bounds the calls admitted
  in any window. The second group is the life of calls: \<open>check_policy\<close> at set-up, release of the
  holds at teardown, interleaved over many calls. The third is the administration of limit keys.
\<close>

section \<open>Interleaved limiter operations\<close>

datatype limiter_event =
    CheckFrequency int string string string u32 u32
  | CheckDaily int int string string string u32
  | CheckConcurrency int string string string u32
  | ReleaseConcurrency int string string string
  | CleanupTick int
  | ClearLimits int "string option" "string option" "string option" "string option"

fun ev_time :: "limiter_event \<Rightarrow> int" where
  "ev_time (CheckFrequency now p sc v limit hours) = now"
| "ev_time (CheckDaily now today_end p sc v limit) = now"
| "ev_time (CheckConcurrency now p sc v m) = now"
| "ev_time (ReleaseConcurrency now p sc v) = now"
| "ev_time (CleanupTick now) = now"
| "ev_time (ClearLimits now p sc v t) = now"

fun limiter_step :: "limiter_event \<Rightarrow> mem_limiter \<Rightarrow> mem_limiter" where
  "limiter_step (CheckFrequency now p sc v limit hours) m =
     snd (mem_check_and_increment now p sc v limit hours m)"
| "limiter_step (CheckDaily now today_end p sc v limit) m =
     snd (mem_check_daily_limit now today_end p sc v limit m)"
| "limiter_step (CheckConcurrency now p sc v mx) m = snd (mem_check_concurrency p sc v mx m)"
| "limiter_step (ReleaseConcurrency now p sc v) m = snd (mem_release_concurrency p sc v m)"
| "limiter_step (CleanupTick now) m = mem_cleanup now m"
| "limiter_step (ClearLimits now p sc v t) m = snd (mem_clear_limits p sc v t m)"

text \<open>Does the event admit a call on the frequency key \<open>key\<close>?\<close>

fun admits :: "string \<Rightarrow> limiter_event \<Rightarrow> mem_limiter \<Rightarrow> bool" where
  "admits key (CheckFrequency now p sc v limit hours) m \<longleftrightarrow>
     limit_key p sc v ''frequency'' = key \<and>
     fst (mem_check_and_increment now p sc v limit hours m) = Inr True"
| "admits key _ m \<longleftrightarrow> False"

fun admitted :: "string \<Rightarrow> int \<Rightarrow> int \<Rightarrow> limiter_event list \<Rightarrow> mem_limiter \<Rightarrow> nat" where
  "admitted key t u [] m = 0"
| "admitted key t u (ev # evs) m =
     (if admits key ev m \<and> t \<le> ev_time ev \<and> ev_time ev < u then 1 else 0) +
     admitted key t u evs (limiter_step ev m)"

text \<open>Every check of the key has the same limit and window, and no administrator clears the key.\<close>

fun uses_limit :: "string \<Rightarrow> u32 \<Rightarrow> u32 \<Rightarrow> limiter_event \<Rightarrow> bool" where
  "uses_limit key limit hours (CheckFrequency now p sc v l h) \<longleftrightarrow>
     (limit_key p sc v ''frequency'' = key \<longrightarrow> l = limit \<and> h = hours)"
| "uses_limit key limit hours (ClearLimits now p sc v t) \<longleftrightarrow> \<not> limit_selected p sc v t key"
| "uses_limit key limit hours _ \<longleftrightarrow> True"

lemma admitted_late:
  "\<forall>ev \<in> set evs. u \<le> ev_time ev \<Longrightarrow> admitted key t u evs m = 0"
  by (induction evs arbitrary: m) auto

text \<open>How many more calls can be admitted in \<open>[t, t + w)\<close> given the entry of the key.\<close>

definition budget :: "int \<Rightarrow> int \<Rightarrow> nat \<Rightarrow> int \<Rightarrow> (u32 \<times> int) option \<Rightarrow> nat" where
  "budget t w limit lo entry =
     (case entry of
        None \<Rightarrow> if lo < t then 2 * max 1 limit else max 1 limit
      | Some (c, e) \<Rightarrow>
          if e < t then 2 * max 1 limit
          else if e < t + w then (limit - unat c) + max 1 limit
          else limit - unat c)"

lemma budget_le: "budget t w limit lo entry \<le> 2 * max 1 limit"
  by (auto simp: budget_def split: option.split prod.split)

lemma budget_later: "lo \<le> x \<Longrightarrow> budget t w limit x entry \<le> budget t w limit lo entry"
  by (auto simp: budget_def split: option.split prod.split)

lemma cleanup_budget:
  assumes "hm_ok m" "lo \<le> x" "x < t + w"
  shows "budget t w limit x (hm_get (mem_cleanup x m) key) \<le> budget t w limit lo (hm_get m key)"
  using assms(2,3)
  by (auto simp: budget_def mem_cleanup_def hm_get_retain [OF assms(1)] split: option.split)

lemma window_budget:
  assumes "lo \<le> x" "0 < x" "x < t + w" "0 \<le> w"
    and "mem_window_check key x (x + w) limit m = (r, m')"
  shows "(if r = Inr True \<and> t \<le> x then 1 else 0) + budget t w (unat limit) x (hm_get m' key)
    \<le> budget t w (unat limit) lo (hm_get m key)"
  using assms
  by (auto simp: budget_def mem_window_check_def evaluate_window_def Let_def
      unat_inc [unfolded word_less_nat_alt] word_le_nat_alt not_le max_def split: option.splits if_splits)
    (simp_all add: Suc_diff_Suc diff_le_mono2)

lemma hm_get_fold_remove:
  "hm_get (fold hm_remove ks m) k = (if k \<in> set ks then None else hm_get m k)"
  by (induction ks arbitrary: m) auto

lemma hm_get_None_keys: "k \<notin> set (map fst m) \<Longrightarrow> hm_get m k = None"
  by (auto simp: hm_get_def map_of_eq_None_iff)

lemma mem_clear_limits_get:
  "hm_get (snd (mem_clear_limits pid sc v t m)) key
     = (if limit_selected pid sc v t key then None else hm_get m key)"
  using hm_get_None_keys [of key m]
  by (auto simp: mem_clear_limits_def Let_def hm_get_fold_remove)

lemma hm_ok_fold_remove: "hm_ok m \<Longrightarrow> hm_ok (fold hm_remove ks m)"
  by (induction ks arbitrary: m) simp_all

lemma limiter_step_ok [simp]: "hm_ok m \<Longrightarrow> hm_ok (limiter_step ev m)"
  by (cases ev) (auto simp: mem_check_and_increment_def mem_check_daily_limit_def
      mem_window_check_def mem_check_concurrency_def mem_release_concurrency_def mem_cleanup_def
      mem_clear_limits_def hm_ok_fold_remove Let_def split: prod.splits option.splits)

lemma limit_key_types:
  "limit_key p sc v ''daily'' \<noteq> limit_key p' sc' v' ''frequency''"
  "limit_key p sc v ''concurrency'' \<noteq> limit_key p' sc' v' ''frequency''"
  by (auto simp: limit_key_def dest!: rev_eq)

lemma other_step:
  assumes "\<not> (\<exists>now p sc v l h. ev = CheckFrequency now p sc v l h \<and> limit_key p sc v ''frequency'' = key)"
    and "\<forall>now. ev \<noteq> CleanupTick now" and "uses_limit key limit hours ev" and "key = limit_key p0 sc0 v0 ''frequency''"
  shows "hm_get (limiter_step ev m) key = hm_get m key \<and> \<not> admits key ev m"
  using assms
  by (cases ev) (auto simp: limit_key_types limit_key_types [symmetric] mem_check_and_increment_def mem_check_daily_limit_def
      mem_window_check_def mem_check_concurrency_def mem_release_concurrency_def mem_clear_limits_get
      Let_def split: prod.splits option.splits)

lemma step_budget:
  fixes hours :: u32
  defines "w \<equiv> int (unat hours) * 3600"
  assumes "hm_ok m" "lo \<le> ev_time ev" "0 < ev_time ev" "ev_time ev < t + w"
    and "uses_limit key limit hours ev" and key: "key = limit_key p0 sc0 v0 ''frequency''"
  shows "(if admits key ev m \<and> t \<le> ev_time ev then 1 else 0)
      + budget t w (unat limit) (ev_time ev) (hm_get (limiter_step ev m) key)
    \<le> budget t w (unat limit) lo (hm_get m key)"
proof (cases "\<exists>now p sc v l h. ev = CheckFrequency now p sc v l h \<and> limit_key p sc v ''frequency'' = key")
  case True
  then obtain now p sc v where ev: "ev = CheckFrequency now p sc v limit hours"
    "limit_key p sc v ''frequency'' = key"
    using assms(6) by auto
  obtain r m' where "mem_window_check key now (now + w) limit m = (r, m')" by fastforce
  with window_budget [OF _ _ _ _ this, of lo t] assms(3-5) ev show ?thesis
    by (simp add: mem_check_and_increment_def w_def)
next
  case other: False
  show ?thesis
  proof (cases "\<exists>now. ev = CleanupTick now")
    case True
    with cleanup_budget [OF assms(2), of lo] assms(3,5) show ?thesis by auto
  next
    case False
    with other_step [OF other _ assms(6) key] budget_later [OF assms(3)] show ?thesis by auto
  qed
qed

lemma admitted_budget:
  fixes hours :: u32
  defines "w \<equiv> int (unat hours) * 3600"
  assumes "hm_ok m" "sorted (map ev_time evs)" "\<forall>ev \<in> set evs. lo \<le> ev_time ev \<and> 0 < ev_time ev"
    and "\<forall>ev \<in> set evs. uses_limit key limit hours ev" "key = limit_key p0 sc0 v0 ''frequency''"
  shows "admitted key t (t + w) evs m \<le> budget t w (unat limit) lo (hm_get m key)"
  using assms(2-5)
proof (induction evs arbitrary: m lo)
  case (Cons ev evs)
  show ?case
  proof (cases "ev_time ev < t + w")
    case True
    have "admitted key t (t + w) evs (limiter_step ev m)
        \<le> budget t w (unat limit) (ev_time ev) (hm_get (limiter_step ev m) key)"
      using Cons.prems by (intro Cons.IH) auto
    moreover have "(if admits key ev m \<and> t \<le> ev_time ev then 1 else 0)
        + budget t w (unat limit) (ev_time ev) (hm_get (limiter_step ev m) key)
      \<le> budget t w (unat limit) lo (hm_get m key)"
      unfolding w_def using Cons.prems True assms(6)
      by (intro step_budget) (auto simp: w_def)
    ultimately show ?thesis using True by simp
  next
    case False
    then have "\<forall>e \<in> set (ev # evs). t + w \<le> ev_time e" using Cons.prems by auto
    from admitted_late [OF this] show ?thesis by simp
  qed
qed simp



section \<open>Calls under policies\<close>

text \<open>The calls of a node share the limiter. A call set-up runs \<open>check_policy\<close> and keeps the holds
  of an admitted call; teardown releases them. Every event has its own clock and environment.\<close>

record policy_world =
  pw_limiter :: mem_limiter
  pw_calls :: "concurrency_hold list list"

datatype 'n policy_event =
    SetUp int int "'n policy_env" string policy_spec string string "string option"
  | TearDown int int nat

fun policy_event_apply :: "'n policy_event \<Rightarrow> policy_world \<Rightarrow> policy_world" where
  "policy_event_apply (SetUp now today_end env pid pol caller callee oc) w =
     (case check_policy (mem_limiter_ops now today_end) env pid pol caller callee oc (pw_limiter w) of
        (Inr outcome, m) \<Rightarrow>
          if pco_status outcome = PolicyAllowed
          then w\<lparr>pw_limiter := m, pw_calls := pw_calls w @ [pco_holds outcome]\<rparr>
          else w\<lparr>pw_limiter := m\<rparr>
      | (Inl e, m) \<Rightarrow> w\<lparr>pw_limiter := m\<rparr>)"
| "policy_event_apply (TearDown now today_end i) w =
     (if i < length (pw_calls w)
      then \<lparr>pw_limiter = release_concurrency_holds (mem_limiter_ops now today_end)
                          (pw_calls w ! i) (pw_limiter w),
            pw_calls = take i (pw_calls w) @ drop (Suc i) (pw_calls w)\<rparr>
      else w)"

definition policy_accounted :: "policy_world \<Rightarrow> bool" where
  "policy_accounted w \<longleftrightarrow>
     (\<forall>k. mem_slots (pw_limiter w) k = holds_on mem_slot_of (concat (pw_calls w)) k)"

text \<open>The policies of a run give the slot \<open>key\<close> at most \<open>bound\<close> places.\<close>

fun respects_max :: "string \<Rightarrow> nat \<Rightarrow> 'n policy_event \<Rightarrow> bool" where
  "respects_max key bound (SetUp now today_end env pid pol caller callee oc) \<longleftrightarrow>
     (case ps_concurrency pol of
        None \<Rightarrow> True
      | Some limit \<Rightarrow> mem_slot_of pid ''caller'' caller = key \<longrightarrow> unat (cl_max_total limit) \<le> bound)"
| "respects_max key bound (TearDown now today_end i) \<longleftrightarrow> True"

lemma concat_split_nth:
  "i < length xss \<Longrightarrow> holds_on f (concat xss) k
     = holds_on f (xss ! i) k + holds_on f (concat (take i xss @ drop (Suc i) xss)) k"
  by (subst id_take_nth_drop [of i xss]) (simp_all add: add_ac)

lemma policy_accounted_step:
  assumes "policy_accounted w"
  shows "policy_accounted (policy_event_apply ev w)"
proof (cases ev)
  case (SetUp now today_end env pid pol caller callee oc)
  obtain r m where c: "check_policy (mem_limiter_ops now today_end) env pid pol caller callee oc
      (pw_limiter w) = (r, m)" by fastforce
  show ?thesis
    using SetUp c assms mem_limiter.check_policy_accounts [OF c]
      mem_limiter.check_policy_rejected_holds [of now today_end env pid pol caller callee oc "pw_limiter w"]
    by (cases r) (auto simp: policy_accounted_def)
next
  case (TearDown now today_end i)
  with assms concat_split_nth [of i "pw_calls w" mem_slot_of] show ?thesis
    by (auto simp: policy_accounted_def mem_limiter.release_holds_slots)
qed

definition policy_bounded :: "string \<Rightarrow> nat \<Rightarrow> policy_world \<Rightarrow> bool" where
  "policy_bounded key bound w \<longleftrightarrow> policy_accounted w \<and> mem_slots (pw_limiter w) key \<le> bound"

lemma policy_bounded_step:
  assumes "policy_bounded key bound w" "respects_max key bound ev"
  shows "policy_bounded key bound (policy_event_apply ev w)"
proof (cases ev)
  case (SetUp now today_end env pid pol caller callee oc)
  obtain r m where c: "check_policy (mem_limiter_ops now today_end) env pid pol caller callee oc
      (pw_limiter w) = (r, m)" by fastforce
  have "mem_slots m key \<le> bound"
    using assms SetUp
    by (intro mem_limiter.check_policy_bounded [OF c]) (auto simp: policy_bounded_def)
  then show ?thesis
    using SetUp c assms policy_accounted_step [of w ev]
    by (cases r) (auto simp: policy_bounded_def)
next
  case (TearDown now today_end i)
  with assms policy_accounted_step [of w ev] show ?thesis
    by (auto simp: policy_bounded_def mem_limiter.release_holds_slots intro: le_trans [OF diff_le_self])
qed

interpretation policy_machine: event_machine policy_event_apply policy_accounted
  by unfold_locales (rule policy_accounted_step)

text \<open>C22. Over any interleaving of call set-ups and teardowns, each slot counter of the limiter is
  the number of holds of the calls still up, and never exceeds the largest maximum configured for
  that slot: policy checks neither leak slots nor over-admit.\<close>

theorem policy_calls_bounded:
  assumes "\<forall>ev \<in> set evs. respects_max key bound ev"
  shows "let w = fold policy_event_apply evs \<lparr>pw_limiter = [], pw_calls = []\<rparr>
    in policy_accounted w \<and> holds_on mem_slot_of (concat (pw_calls w)) key \<le> bound"
proof -
  have "policy_bounded key bound w \<Longrightarrow> policy_bounded key bound (fold policy_event_apply evs w)" for w
    using assms by (induction evs arbitrary: w) (auto intro: policy_bounded_step)
  moreover have "policy_bounded key bound \<lparr>pw_limiter = [], pw_calls = []\<rparr>"
    by (simp add: policy_bounded_def policy_accounted_def mem_slots_def)
  ultimately have "policy_bounded key bound
      (fold policy_event_apply evs \<lparr>pw_limiter = [], pw_calls = []\<rparr>)" by blast
  then show ?thesis by (auto simp: policy_bounded_def policy_accounted_def Let_def)
qed

definition demo_policy_env :: "nat policy_env" where
  "demo_policy_env = \<lparr>pe_parse = (\<lambda>s. if s = [] then None else Some (length s)),
     pe_country_id = (\<lambda>n. if n = 4 then Some ''US'' else Some ''DE''),
     pe_number_type = (\<lambda>_. FixedLine), pe_parse_hm = (\<lambda>s. Some (length s)), pe_now_local = 5,
     pe_now_in = (\<lambda>_. None)\<rparr>"

definition demo_policy :: policy_spec where
  "demo_policy = policy_default\<lparr>ps_deny_regions := [''FR''],
     ps_allowed_destination_countries := [''us''],
     ps_time_window := Some \<lparr>tw_start = ''06:00'', tw_end = ''08:00'', tw_timezone = ''Local''\<rparr>,
     ps_concurrency := Some \<lparr>cl_max_total = 1, cl_max_per_account = []\<rparr>\<rparr>"

theorem policy_calls_bounded_witness:
  "let w = fold policy_event_apply
      [SetUp 5 9 demo_policy_env ''p'' demo_policy ''100'' ''2000'' None,
       SetUp 6 9 demo_policy_env ''p'' demo_policy ''100'' ''2001'' None, TearDown 7 9 0]
      \<lparr>pw_limiter = [], pw_calls = []\<rparr>
   in policy_accounted w \<and>
      holds_on mem_slot_of (concat (pw_calls w)) (mem_slot_of ''p'' ''caller'' ''100'') \<le> 1"
  by (rule policy_calls_bounded) (simp add: demo_policy_def)

section \<open>What an allowed call satisfies\<close>

definition in_time_window :: "nat \<Rightarrow> nat \<Rightarrow> nat \<Rightarrow> bool" where
  "in_time_window start end' now \<longleftrightarrow>
     (if start \<le> end' then start \<le> now \<and> now \<le> end' else start \<le> now \<or> now \<le> end')"

lemma check_policy_allowed_static:
  assumes "check_policy ops env pid pol caller callee oc s = (Inr out, s')"
    and "pco_status out = PolicyAllowed" "policy_applies pol callee oc"
  shows "policy_static_checks env pol caller callee oc = Inr None"
  using assms by (auto simp: check_policy_def check_policy_inner_def
      split: sum.splits option.splits prod.splits)

lemma static_checks_passed:
  assumes "policy_static_checks env pol caller callee oc = Inr None"
  shows "check_destination env pol callee (pe_parse env callee) = None"
    and "check_landline env pol callee (pe_parse env callee) = None"
    and "check_time_window env pol = Inr None"
    and "check_deny_regions env pol caller callee (pe_parse env callee) oc = None"
  using assms by (auto simp: policy_static_checks_def Let_def split: option.splits sum.splits)

lemma region_not_denied:
  "region_denied pol region message = None \<longleftrightarrow>
     (\<forall>r. region = Some r \<longrightarrow> \<not> listed_region (ps_deny_regions pol) r)"
  by (auto simp: region_denied_def split: option.splits)

lemma listed_region_Nil [simp]: "\<not> listed_region [] r"
  by (simp add: listed_region_def)

lemma deny_regions_passed:
  assumes "check_deny_regions env pol caller callee parsed oc = None"
  shows "Option.bind parsed (pe_country_id env) = Some r \<Longrightarrow> \<not> listed_region (ps_deny_regions pol) r"
    and "Option.bind (pe_parse env caller) (pe_country_id env) = Some r \<Longrightarrow>
      \<not> listed_region (ps_deny_regions pol) r"
    and "oc = Some r \<Longrightarrow> \<not> listed_region (ps_deny_regions pol) r"
  using assms
  by (auto simp: check_deny_regions_def or_else_None_iff region_not_denied split: if_splits)

lemma time_window_passed:
  assumes "check_time_window env pol = Inr None" "ps_time_window pol = Some win"
  shows "\<exists>start end' now. pe_parse_hm env (tw_start win) = Some start \<and>
    pe_parse_hm env (tw_end win) = Some end' \<and>
    (if tw_timezone win = ''Local'' then now = pe_now_local env
     else pe_now_in env (tw_timezone win) = Some now) \<and> in_time_window start end' now"
  using assms
  by (auto simp: check_time_window_def in_time_window_def Let_def split: option.splits if_splits)

text \<open>C38. A call that an applicable policy allows satisfies every static condition: the time of
  day is inside the window (windows across midnight included), the callee's country is listed and
  not denied, a landline is permitted, and neither the caller's country nor the origin country is
  denied. The limiter, the number database and the clock are arbitrary.\<close>

theorem check_policy_allowed_sound:
  assumes "check_policy ops env pid pol caller callee oc s = (Inr out, s')"
    and "pco_status out = PolicyAllowed" and "policy_applies pol callee oc"
  shows "(\<forall>n r. pe_parse env callee = Some n \<and> pe_country_id env n = Some r \<longrightarrow>
        (ps_allowed_destination_countries pol = [] \<or>
           listed_region (ps_allowed_destination_countries pol) r) \<and>
        \<not> listed_region (ps_deny_regions pol) r)
    \<and> (\<forall>n. pe_parse env callee = Some n \<and> ps_allow_landline pol = Some False \<longrightarrow>
        pe_number_type env n = OtherPhoneType)
    \<and> (\<forall>n r. pe_parse env caller = Some n \<and> pe_country_id env n = Some r \<longrightarrow>
        \<not> listed_region (ps_deny_regions pol) r)
    \<and> (\<forall>r. oc = Some r \<longrightarrow> \<not> listed_region (ps_deny_regions pol) r)
    \<and> (\<forall>win. ps_time_window pol = Some win \<longrightarrow>
        (\<exists>start end' now. pe_parse_hm env (tw_start win) = Some start \<and>
           pe_parse_hm env (tw_end win) = Some end' \<and>
           (if tw_timezone win = ''Local'' then now = pe_now_local env
            else pe_now_in env (tw_timezone win) = Some now) \<and>
           in_time_window start end' now))"
proof -
  note passed = static_checks_passed [OF check_policy_allowed_static [OF assms]]
  show ?thesis
    using passed(1,2) deny_regions_passed [OF passed(4)] time_window_passed [OF passed(3)]
    by (auto simp: check_destination_def check_landline_def Let_def
        split: if_splits option.splits bool.splits intro: phone_type.exhaust)
qed

theorem check_policy_allowed_sound_witness:
  "\<exists>out s'. check_policy (mem_limiter_ops 5 9) demo_policy_env ''p'' demo_policy ''100'' ''2000'' None []
       = (Inr out, s')
     \<and> (\<forall>win. ps_time_window demo_policy = Some win \<longrightarrow>
        (\<exists>start end' now. pe_parse_hm demo_policy_env (tw_start win) = Some start \<and>
           pe_parse_hm demo_policy_env (tw_end win) = Some end' \<and>
           (if tw_timezone win = ''Local'' then now = pe_now_local demo_policy_env
            else pe_now_in demo_policy_env (tw_timezone win) = Some now) \<and>
           in_time_window start end' now))"
proof -
  have "case check_policy (mem_limiter_ops 5 9) demo_policy_env ''p'' demo_policy ''100'' ''2000'' None []
      of (Inr out, s') \<Rightarrow> pco_status out = PolicyAllowed | _ \<Rightarrow> False"
    by code_simp
  then obtain out s' where e: "check_policy (mem_limiter_ops 5 9) demo_policy_env ''p'' demo_policy
      ''100'' ''2000'' None [] = (Inr out, s')" "pco_status out = PolicyAllowed"
    by (auto split: prod.splits sum.splits)
  have "policy_applies demo_policy ''2000'' None"
    by (simp add: policy_applies_def demo_policy_def policy_default_def)
  with check_policy_allowed_sound [OF e] e show ?thesis by blast
qed

section \<open>Listing and clearing limits\<close>

lemma numeral_4: "4 = Suc (Suc (Suc (Suc 0)))"
  by simp

lemma parse_limit_key_limit_key:
  assumes "CHR '':'' \<notin> set p" "CHR '':'' \<notin> set sc" "CHR '':'' \<notin> set v"
  shows "parse_limit_key (limit_key p sc v t) = Some (p, sc, v, t)"
  using assms by (simp add: parse_limit_key_def limit_key_def numeral_4 split_once_append)

lemma parse_limit_key_no_colon:
  "parse_limit_key key = Some (p, sc, v, t) \<Longrightarrow> CHR '':'' \<notin> set p"
  by (auto simp: parse_limit_key_def numeral_4 dest: split_once_Some
      split: list.splits option.splits)

text \<open>Clearing the limits of a policy (with colon-free names) removes exactly the counters of
  that policy: each of its keys is gone, and a key of another policy keeps its counter.\<close>

theorem clear_limits_exact:
  assumes "CHR '':'' \<notin> set p" "CHR '':'' \<notin> set p'" "CHR '':'' \<notin> set sc" "CHR '':'' \<notin> set v"
  shows "hm_get (snd (mem_clear_limits (Some p) None None None m)) (limit_key p' sc v t)
    = (if p' = p then None else hm_get m (limit_key p' sc v t))"
  using parse_limit_key_limit_key [of p' sc v t] assms
  by (auto simp: mem_clear_limits_get limit_selected_def key_matches_filters_def opt_matches_def)

text \<open>The key parser lets the limit type, not the scope value, absorb extra colons, so the
  counters of a policy whose identifier contains a colon, such as the \<open>trunk:<name>\<close> policies of the
  router, can never be selected: clearing them removes nothing, whatever the other filters.\<close>

theorem clear_limits_colon_policy:
  assumes "CHR '':'' \<in> set pid"
  shows "mem_clear_limits (Some pid) sc v t m = (0, m)"
proof -
  have "\<not> limit_selected (Some pid) sc v t key" for key
    using assms parse_limit_key_no_colon [of key]
    by (auto simp: limit_selected_def key_matches_filters_def opt_matches_def split: option.split)
  then show ?thesis by (simp add: mem_clear_limits_def)
qed

end
