(* ===== verification/Sip_Types.thy ===== *)
theory Sip_Types
  imports Hash_Map Rust_Str
begin

text \<open>
  SIP data as the sources read and write it. The types come from the rsipstack package: only the
  fields the sources touch are kept, hosts as their printed text, and the parsers and printers are
  parameters collected in \<open>sip_api\<close>. Values the routing only copies (recording policies, prompts,
  JSON) are represented by their serialised text.
\<close>

record sip_auth =
  au_user :: string
  au_password :: "string option"

record host_with_port =
  hp_host :: string
  hp_port :: "u16 option"

datatype sip_scheme = Sip | Sips | OtherScheme string

record sip_uri =
  uri_scheme :: "sip_scheme option"
  uri_auth :: "sip_auth option"
  uri_host_with_port :: host_with_port
  uri_params :: "string list"

datatype transport = Udp | Tcp | Tls | Ws | Wss

record sip_addr =
  sad_type :: "transport option"
  sad_addr :: host_with_port

record credential =
  cr_username :: string
  cr_auth_username :: "string option"
  cr_password :: string
  cr_realm :: "string option"

datatype sip_header =
    HOther string string
  | HUserAgent string
  | HContact string
  | HStandard string string

fun header_name :: "sip_header \<Rightarrow> string" where
  "header_name (HOther name v) = name"
| "header_name (HUserAgent v) = ''User-Agent''"
| "header_name (HContact v) = ''Contact''"
| "header_name (HStandard name v) = name"

record invite_option =
  io_caller :: sip_uri
  io_callee :: sip_uri
  io_destination :: "sip_addr option"
  io_credential :: "credential option"
  io_headers :: "sip_header list option"

record sip_request =
  rq_uri :: sip_uri
  rq_headers :: "sip_header list"

record sip_api =
  sa_parse_uri :: "string \<Rightarrow> sip_uri option"
  sa_uri_str :: "sip_uri \<Rightarrow> string"
  sa_parse_hostport :: "string \<Rightarrow> host_with_port option"
  sa_addr_str :: "host_with_port \<Rightarrow> string"

definition uri_user :: "sip_uri \<Rightarrow> string" where
  "uri_user u = (case uri_auth u of None \<Rightarrow> [] | Some a \<Rightarrow> au_user a)"

definition uri_user_opt :: "sip_uri \<Rightarrow> string option" where
  "uri_user_opt u = map_option au_user (uri_auth u)"

abbreviation uri_host :: "sip_uri \<Rightarrow> string" where
  "uri_host u \<equiv> hp_host (uri_host_with_port u)"

text \<open>\<^verbatim>\<open>trim_matches\<close> with a set of characters, and \<^verbatim>\<open>strip_suffix\<close>.\<close>

definition trim_matches :: "char list \<Rightarrow> string \<Rightarrow> string" where
  "trim_matches cs s =
     rev (dropWhile (\<lambda>c. c \<in> set cs) (rev (dropWhile (\<lambda>c. c \<in> set cs) s)))"

definition strip_suffix :: "string \<Rightarrow> string \<Rightarrow> string option" where
  "strip_suffix p s = map_option rev (strip_prefix (rev p) (rev s))"

lemma strip_prefix_append [simp]: "strip_prefix p (p @ s) = Some s"
  by (simp add: strip_prefix_def)

lemma strip_suffix_append [simp]: "strip_suffix p (s @ p) = Some s"
  by (simp add: strip_suffix_def)

lemma strip_prefix_Some: "strip_prefix p s = Some r \<longleftrightarrow> s = p @ r"
  by (auto simp: strip_prefix_def starts_with_def) (metis append_take_drop_id)

end
