(* ===== verification/Header_Passthrough.thy ===== *)
theory Header_Passthrough
  imports Sip_Types
begin

text \<open>
  Which custom headers cross from one call leg to the other: \<^verbatim>\<open>HeaderPassthrough\<close> of
  \<^verbatim>\<open>src/src/proxy/routing/mod.rs\<close> and its use in \<^verbatim>\<open>Dialplan::select_passthrough_headers\<close> of
  \<^verbatim>\<open>src/src/call/mod.rs\<close>.
\<close>

datatype passthrough_mode = PmAll | PmWhitelist | PmBlacklist | PmXOnly

record header_passthrough =
  hpt_mode :: passthrough_mode
  hpt_whitelist :: "string list"
  hpt_blacklist :: "string list"

definition passthrough_all :: header_passthrough where
  "passthrough_all = \<lparr>hpt_mode = PmAll, hpt_whitelist = [], hpt_blacklist = []\<rparr>"

definition passthrough_none :: header_passthrough where
  "passthrough_none = \<lparr>hpt_mode = PmWhitelist, hpt_whitelist = [], hpt_blacklist = []\<rparr>"

definition passthrough_x_custom :: header_passthrough where
  "passthrough_x_custom = \<lparr>hpt_mode = PmXOnly, hpt_whitelist = [], hpt_blacklist = []\<rparr>"

definition header_name_matches :: "string \<Rightarrow> string \<Rightarrow> bool" where
  "header_name_matches pattern name =
     (case strip_suffix ''*'' pattern of
        Some pre \<Rightarrow>
          (case split_bytes (byte_len pre) name of
             Some (head, _) \<Rightarrow> eq_ignore_ascii_case head pre
           | None \<Rightarrow> False)
      | None \<Rightarrow> eq_ignore_ascii_case pattern name)"

definition name_listed :: "string list \<Rightarrow> string \<Rightarrow> bool" where
  "name_listed patterns name \<longleftrightarrow> (\<exists>p \<in> set patterns. header_name_matches p name)"

definition passthrough_allows :: "header_passthrough \<Rightarrow> string \<Rightarrow> bool" where
  "passthrough_allows rule name =
     (case hpt_mode rule of
        PmWhitelist \<Rightarrow> name_listed (hpt_whitelist rule) name
      | PmBlacklist \<Rightarrow> \<not> name_listed (hpt_blacklist rule) name
      | PmXOnly \<Rightarrow> header_name_matches ''X-*'' name
      | PmAll \<Rightarrow>
          if hpt_whitelist rule \<noteq> [] then name_listed (hpt_whitelist rule) name
          else if hpt_blacklist rule \<noteq> [] then \<not> name_listed (hpt_blacklist rule) name
          else True)"

fun is_custom_header :: "sip_header \<Rightarrow> bool" where
  "is_custom_header (HOther name v) =
     (case split_bytes 2 name of
        Some (head, _) \<Rightarrow> eq_ignore_ascii_case head ''x-'' \<or> eq_ignore_ascii_case head ''p-''
      | None \<Rightarrow> False)"
| "is_custom_header _ = False"

fun select_passthrough_headers :: "sip_header list \<Rightarrow> sip_header list \<Rightarrow> header_passthrough \<Rightarrow>
    sip_header list" where
  "select_passthrough_headers [] existing rule = []"
| "select_passthrough_headers (header # headers) existing rule =
     (if \<not> is_custom_header header then select_passthrough_headers headers existing rule
      else if \<not> passthrough_allows rule (header_name header)
      then select_passthrough_headers headers existing rule
      else if \<exists>h \<in> set existing. eq_ignore_ascii_case (header_name h) (header_name header)
      then select_passthrough_headers headers existing rule
      else header # select_passthrough_headers headers existing rule)"

section \<open>Matching ignores case\<close>

lemma eq_ignore_ascii_case_trans:
  "eq_ignore_ascii_case a b \<Longrightarrow> eq_ignore_ascii_case a c \<longleftrightarrow> eq_ignore_ascii_case b c"
  by (simp add: eq_ignore_ascii_case_def)

lemma char_bytes_lower [simp]: "char_bytes (ascii_lower c) = char_bytes c"
  by (simp add: char_bytes_def ascii_lower_def)

lemma split_bytes_lower:
  "split_bytes n (map ascii_lower s)
     = map_option (\<lambda>(a, b). (map ascii_lower a, map ascii_lower b)) (split_bytes n s)"
  by (induction n s rule: split_bytes.induct) (auto simp: option.map_comp comp_def split_def)

lemma split_bytes_case:
  assumes "eq_ignore_ascii_case s t"
  shows "map_option (\<lambda>(a, b). map ascii_lower a) (split_bytes n s)
    = map_option (\<lambda>(a, b). map ascii_lower a) (split_bytes n t)"
proof -
  have "map_option fst (split_bytes n (map ascii_lower s))
      = map_option fst (split_bytes n (map ascii_lower t))"
    using assms by (simp add: eq_ignore_ascii_case_def to_ascii_lowercase_def)
  then show ?thesis by (simp add: split_bytes_lower option.map_comp comp_def split_def)
qed

lemma header_name_matches_case:
  assumes "eq_ignore_ascii_case n m"
  shows "header_name_matches p n = header_name_matches p m"
proof (cases "strip_suffix ''*'' p")
  case None
  with assms show ?thesis
    by (auto simp: header_name_matches_def eq_ignore_ascii_case_def)
next
  case (Some pre)
  with split_bytes_case [OF assms, of "byte_len pre"] show ?thesis
    by (auto simp: header_name_matches_def eq_ignore_ascii_case_def to_ascii_lowercase_def
        split: option.splits)
qed

text \<open>Header rules are case-insensitive: a rule in any mode, with exact and with prefix
  patterns, decides alike on two spellings of a name.\<close>

theorem passthrough_allows_case:
  assumes "eq_ignore_ascii_case n m"
  shows "passthrough_allows rule n = passthrough_allows rule m"
  using header_name_matches_case [OF assms]
  by (simp add: passthrough_allows_def name_listed_def split: passthrough_mode.split)

text \<open>The headers copied onto the other leg are exactly the custom headers of the original
  message that the rule allows and that the other leg does not carry yet, in their order; a
  message never gains a standard header, and the empty whitelist copies none.\<close>

theorem select_passthrough_headers_spec:
  "select_passthrough_headers headers existing rule
     = filter (\<lambda>h. is_custom_header h \<and> passthrough_allows rule (header_name h) \<and>
         to_ascii_lowercase (header_name h) \<notin> (to_ascii_lowercase \<circ> header_name) ` set existing) headers \<and>
   select_passthrough_headers headers existing passthrough_none = [] \<and>
   (\<forall>name v. HStandard name v \<notin> set (select_passthrough_headers headers existing rule))"
proof -
  have eq: "select_passthrough_headers headers existing rule
     = filter (\<lambda>h. is_custom_header h \<and> passthrough_allows rule (header_name h) \<and>
         to_ascii_lowercase (header_name h) \<notin> (to_ascii_lowercase \<circ> header_name) ` set existing) headers"
    for rule
    by (induction headers) (auto simp: eq_ignore_ascii_case_def image_iff dest: sym)
  show ?thesis by (simp add: eq) (simp add: passthrough_none_def passthrough_allows_def name_listed_def)
qed

end
