(* ===== verification/Dial_Targets.thy ===== *)
theory Dial_Targets
  imports Sip_Types
begin

text \<open>
  What a call is dialled to, from \<^verbatim>\<open>src/src/call/mod.rs\<close>: locations and dial strategies, transfer
  endpoints with their textual form, SIP URI normalisation, call-forwarding timers, queue plans and
  the flow of a dialplan.
\<close>

section \<open>Locations and dial strategies\<close>

record location =
  loc_aor :: sip_uri
  loc_expires :: u32
  loc_destination :: "sip_addr option"
  loc_last_modified :: "nat option"
  loc_supports_webrtc :: bool
  loc_credential :: "credential option"
  loc_headers :: "sip_header list option"
  loc_registered_username :: "string option"
  loc_registered_realm :: "string option"
  loc_registered_aor :: "sip_uri option"
  loc_contact_raw :: "string option"
  loc_contact_params :: "(string, string) hmap option"
  loc_path :: "sip_uri list option"
  loc_service_route :: "sip_uri list option"
  loc_instance_id :: "string option"
  loc_gruu :: "string option"
  loc_temp_gruu :: "string option"
  loc_reg_id :: "string option"
  loc_transport :: "transport option"
  loc_user_agent :: "string option"
  loc_home_proxy :: "sip_addr option"

text \<open>\<^verbatim>\<open>Location { aor, ..Default::default() }\<close>.\<close>

definition location_of :: "sip_uri \<Rightarrow> location" where
  "location_of aor = \<lparr>loc_aor = aor, loc_expires = 0, loc_destination = None,
     loc_last_modified = None, loc_supports_webrtc = False, loc_credential = None,
     loc_headers = None, loc_registered_username = None, loc_registered_realm = None,
     loc_registered_aor = None, loc_contact_raw = None, loc_contact_params = None,
     loc_path = None, loc_service_route = None, loc_instance_id = None, loc_gruu = None,
     loc_temp_gruu = None, loc_reg_id = None, loc_transport = None, loc_user_agent = None,
     loc_home_proxy = None\<rparr>"

definition routes_via_remote_home_proxy :: "sip_api \<Rightarrow> location \<Rightarrow> bool \<Rightarrow> sip_addr option \<Rightarrow> bool" where
  "routes_via_remote_home_proxy api l cluster_enabled self_ident =
     (if \<not> cluster_enabled then False
      else case loc_home_proxy l of
             None \<Rightarrow> False
           | Some home \<Rightarrow>
               (case self_ident of
                  Some self_addr \<Rightarrow>
                    sa_addr_str api (sad_addr self_addr) \<noteq> sa_addr_str api (sad_addr home)
                | None \<Rightarrow> True))"

definition binding_key :: "sip_api \<Rightarrow> location \<Rightarrow> string" where
  "binding_key api l =
     (case loc_instance_id l of
        Some instance \<Rightarrow> sa_uri_str api (loc_aor l) @ ''|instance='' @ instance
      | None \<Rightarrow>
          (case loc_gruu l of
             Some gruu \<Rightarrow> sa_uri_str api (loc_aor l) @ ''|gruu='' @ gruu
           | None \<Rightarrow> sa_uri_str api (loc_aor l)))"

definition locator_expire_grace_secs :: nat where
  "locator_expire_grace_secs = 30"

text \<open>Instants are nanoseconds; \<^verbatim>\<open>duration_since\<close> saturates at zero.\<close>

definition is_expired_at :: "location \<Rightarrow> nat \<Rightarrow> bool" where
  "is_expired_at l now =
     (if loc_expires l = 0 then True
      else case loc_last_modified l of
             Some last_modified \<Rightarrow>
               (unat (loc_expires l) + locator_expire_grace_secs) * 10 ^ 9 \<le> now - last_modified
           | None \<Rightarrow> False)"

record retry_policy =
  rp_status_codes :: "u16 list"

definition retry_policy_validate :: "retry_policy \<Rightarrow> bool" where
  "retry_policy_validate p \<longleftrightarrow> \<not> (\<exists>code \<in> set (rp_status_codes p). \<not> (300 \<le> code \<and> code \<le> 699))"

record 'h dial_attempt =
  da_location :: location
  da_caller :: "sip_uri option"
  da_hints :: "'h option"
  da_retry_policy :: "retry_policy option"

definition dial_attempt_of_location :: "location \<Rightarrow> 'h dial_attempt" where
  "dial_attempt_of_location l =
     \<lparr>da_location = l, da_caller = None, da_hints = None, da_retry_policy = None\<rparr>"

datatype 'h dial_strategy =
    DSequential "'h dial_attempt list"
  | DParallel "location list"

fun strategy_locations :: "'h dial_strategy \<Rightarrow> location list" where
  "strategy_locations (DSequential attempts) = map da_location attempts"
| "strategy_locations (DParallel ls) = ls"

fun strategy_is_empty :: "'h dial_strategy \<Rightarrow> bool" where
  "strategy_is_empty (DSequential attempts) = (attempts = [])"
| "strategy_is_empty (DParallel ls) = (ls = [])"

section \<open>Transfer endpoints\<close>

datatype transfer_endpoint =
    TUri string
  | TQueue string
  | TRoutePoint string
  | TIvr string
  | TVoicemail string
  | TConference string
  | TRealtime string

fun endpoint_kind :: "transfer_endpoint \<Rightarrow> string" where
  "endpoint_kind (TUri _) = ''sip''"
| "endpoint_kind (TQueue _) = ''queue''"
| "endpoint_kind (TRoutePoint _) = ''route_point''"
| "endpoint_kind (TIvr _) = ''ivr''"
| "endpoint_kind (TVoicemail _) = ''voicemail''"
| "endpoint_kind (TConference _) = ''conference''"
| "endpoint_kind (TRealtime _) = ''realtime''"

definition endpoint_prefixes :: "(string \<times> (string \<Rightarrow> transfer_endpoint)) list" where
  "endpoint_prefixes = [(''queue:'', TQueue), (''toivr:'', TRoutePoint), (''ivr:'', TIvr),
     (''voicemail:'', TVoicemail), (''conference:'', TConference), (''realtime:'', TRealtime)]"

text \<open>The indexing \<^verbatim>\<open>trimmed[..prefix.len()]\<close> panics inside a character.\<close>

datatype slice_panic = NotCharBoundary

fun endpoint_parse_loop :: "(string \<times> (string \<Rightarrow> transfer_endpoint)) list \<Rightarrow> string \<Rightarrow>
    slice_panic + transfer_endpoint option" where
  "endpoint_parse_loop [] trimmed = Inr (Some (TUri trimmed))"
| "endpoint_parse_loop ((pre, ctor) # rest) trimmed =
     (if byte_len pre \<le> byte_len trimmed
      then case split_bytes (byte_len pre) trimmed of
             None \<Rightarrow> Inl NotCharBoundary
           | Some (head, tail) \<Rightarrow>
               if eq_ignore_ascii_case head pre
               then (let name = trim tail in if name = [] then Inr None else Inr (Some (ctor name)))
               else endpoint_parse_loop rest trimmed
      else endpoint_parse_loop rest trimmed)"

definition endpoint_parse :: "string \<Rightarrow> slice_panic + transfer_endpoint option" where
  "endpoint_parse value =
     (let trimmed = trim value
      in if trimmed = [] then Inr None else endpoint_parse_loop endpoint_prefixes trimmed)"

fun endpoint_display :: "transfer_endpoint \<Rightarrow> string" where
  "endpoint_display (TUri uri) = uri"
| "endpoint_display (TQueue name) = ''queue:'' @ name"
| "endpoint_display (TRoutePoint name) = ''toivr:'' @ name"
| "endpoint_display (TIvr name) = ''ivr:'' @ name"
| "endpoint_display (TVoicemail ext) = ''voicemail:'' @ ext"
| "endpoint_display (TConference room) = ''conference:'' @ room"
| "endpoint_display (TRealtime preset) = ''realtime:'' @ preset"

definition bytes_prefix_is :: "string \<Rightarrow> string \<Rightarrow> slice_panic + bool" where
  "bytes_prefix_is pre s =
     (if byte_len pre \<le> byte_len s
      then case split_bytes (byte_len pre) s of
             None \<Rightarrow> Inl NotCharBoundary
           | Some (head, _) \<Rightarrow> Inr (eq_ignore_ascii_case head pre)
      else Inr False)"

definition transfer_target_kind :: "string \<Rightarrow> slice_panic + string option" where
  "transfer_target_kind target =
     (let trimmed = trim target
      in if trimmed = [] then Inr None
         else case bytes_prefix_is ''bridge:'' trimmed of
                Inl e \<Rightarrow> Inl e
              | Inr True \<Rightarrow> Inr (Some ''bridge'')
              | Inr False \<Rightarrow>
                  (case bytes_prefix_is ''voip_bridge:'' trimmed of
                     Inl e \<Rightarrow> Inl e
                   | Inr True \<Rightarrow> Inr (Some ''bridge'')
                   | Inr False \<Rightarrow>
                       (case endpoint_parse trimmed of
                          Inl e \<Rightarrow> Inl e
                        | Inr r \<Rightarrow> Inr (map_option endpoint_kind r))))"

definition build_sip_uri :: "string \<Rightarrow> string \<Rightarrow> string" where
  "build_sip_uri target realm =
     (let trimmed = trim target
      in if trimmed = [] then ''sip:anonymous@'' @ realm
         else case strip_prefix ''sip:'' trimmed of
                Some rest \<Rightarrow>
                  if str_contains CHR ''@'' rest then trimmed else ''sip:'' @ rest @ ''@'' @ realm
              | None \<Rightarrow>
                  (case strip_prefix ''tel:'' trimmed of
                     Some _ \<Rightarrow> trimmed
                   | None \<Rightarrow>
                       if str_contains CHR ''@'' trimmed then ''sip:'' @ trimmed
                       else ''sip:'' @ trimmed @ ''@'' @ realm))"

section \<open>Call forwarding\<close>

datatype call_forwarding_mode = CfAlways | CfWhenBusy | CfWhenNoAnswer

record call_forwarding_config =
  cf_mode :: call_forwarding_mode
  cf_endpoint :: transfer_endpoint
  cf_timeout_secs :: u64

definition call_forwarding_new :: "call_forwarding_mode \<Rightarrow> transfer_endpoint \<Rightarrow> u64 \<Rightarrow>
    call_forwarding_config" where
  "call_forwarding_new mode endpoint timeout_secs =
     \<lparr>cf_mode = mode, cf_endpoint = endpoint, cf_timeout_secs = min 120 (max 5 timeout_secs)\<rparr>"

text \<open>\<^verbatim>\<open>value\<close> is an \<^verbatim>\<open>i64\<close>.\<close>

definition clamp_timeout :: "int \<Rightarrow> u64" where
  "clamp_timeout v = (if v \<le> 0 then 30 else word_of_int (min 120 (max 5 v)))"

section \<open>Queue plans\<close>

record queue_hold_config =
  qh_audio_file :: "string option"
  qh_loop_playback :: bool

definition queue_hold_default :: queue_hold_config where
  "queue_hold_default = \<lparr>qh_audio_file = None, qh_loop_playback = True\<rparr>"

datatype failure_action =
    FaHangup "u16 option" "string option"
  | FaPlayThenHangup string bool u16 "string option"
  | FaTransfer transfer_endpoint

datatype queue_fallback_action =
    QfFailure failure_action
  | QfRedirect sip_uri

record 'h queue_plan =
  qp_accept_immediately :: bool
  qp_passthrough_ringback :: bool
  qp_hold :: "queue_hold_config option"
  qp_fallback :: "queue_fallback_action option"
  qp_dial_strategy :: "'h dial_strategy option"
  qp_ring_timeout_secs :: "u64 option"
  qp_label :: "string option"
  qp_voice_prompts :: "string option"
  qp_queue_name :: string
  qp_priority :: u32

definition queue_plan_default :: "'h queue_plan" where
  "queue_plan_default = \<lparr>qp_accept_immediately = False, qp_passthrough_ringback = False,
     qp_hold = Some (queue_hold_default\<lparr>qh_audio_file := Some ''sounds/phone-calling.wav''\<rparr>),
     qp_fallback = Some (QfFailure (FaPlayThenHangup ''sounds/unavailable-phone.wav'' False 480
       (Some ''All agents are currently unavailable''))),
     qp_dial_strategy = None, qp_ring_timeout_secs = None, qp_label = None,
     qp_voice_prompts = None, qp_queue_name = [], qp_priority = 0\<rparr>"

definition apply_queue_hold_music_default :: "string option \<Rightarrow> 'h queue_plan \<Rightarrow> 'h queue_plan" where
  "apply_queue_hold_music_default global plan =
     (let needs_file = (case qp_hold plan of None \<Rightarrow> True | Some hold \<Rightarrow> qh_audio_file hold = None)
      in case global of
           Some file \<Rightarrow>
             if needs_file
             then plan\<lparr>qp_hold := Some ((case qp_hold plan of None \<Rightarrow> queue_hold_default | Some h \<Rightarrow> h)
                         \<lparr>qh_audio_file := Some file\<rparr>)\<rparr>
             else plan
         | None \<Rightarrow> plan)"

definition with_default_hold_music :: "string option \<Rightarrow> 'h queue_plan \<Rightarrow> 'h queue_plan" where
  "with_default_hold_music global plan =
     (case global of
        Some file \<Rightarrow>
          plan\<lparr>qp_hold := Some ((case qp_hold plan of None \<Rightarrow> queue_hold_default | Some h \<Rightarrow> h)
                 \<lparr>qh_audio_file := Some file\<rparr>)\<rparr>
      | None \<Rightarrow> plan)"

definition display_queue_id :: "'h queue_plan \<Rightarrow> string" where
  "display_queue_id plan = (case qp_label plan of Some l \<Rightarrow> l | None \<Rightarrow> qp_queue_name plan)"

text \<open>The JSON parameters, as far as the function looks at them.\<close>

datatype param_value = PvNum u64 | PvStr string | PvOther

datatype queue_params_error = QueueMissing | QueueTargetInvalid string

definition param_priority :: "param_value option \<Rightarrow> u32 option" where
  "param_priority v =
     (case (case v of
              Some (PvNum n) \<Rightarrow> Some (unat n)
            | Some (PvStr s) \<Rightarrow> parse_uint (2 ^ 64) (trim s)
            | _ \<Rightarrow> None) of
        Some n \<Rightarrow> if n < 2 ^ 32 then Some (word_of_nat n) else None
      | None \<Rightarrow> None)"

definition from_app_params :: "sip_api \<Rightarrow> (string \<Rightarrow> param_value option) \<Rightarrow>
    queue_params_error + 'h queue_plan \<times> u32 option" where
  "from_app_params api params =
     (case (case params ''queue'' of Some (PvStr s) \<Rightarrow> Some (trim s) | _ \<Rightarrow> None) of
        None \<Rightarrow> Inl QueueMissing
      | Some queue \<Rightarrow>
          if queue = [] then Inl QueueMissing
          else
            let target = (if starts_with queue ''skill-group:'' \<or> starts_with queue ''sip:''
                          then queue else ''skill-group:'' @ queue);
                priority = param_priority (params ''priority'')
            in case sa_parse_uri api target of
                 None \<Rightarrow> Inl (QueueTargetInvalid target)
               | Some aor \<Rightarrow>
                   Inr (queue_plan_default
                     \<lparr>qp_dial_strategy := Some (DSequential [dial_attempt_of_location
                        ((location_of aor)\<lparr>loc_contact_raw := Some target\<rparr>)]),
                      qp_queue_name := queue,
                      qp_priority := (case priority of Some p \<Rightarrow> p | None \<Rightarrow> 0)\<rparr>, priority))"

text \<open>\<^verbatim>\<open>i32::try_from(priority).unwrap_or(i32::MAX)\<close>.\<close>

definition clamp_priority_u32_to_i32 :: "u32 \<Rightarrow> int" where
  "clamp_priority_u32_to_i32 p = (if unat p < 2 ^ 31 then int (unat p) else 2 ^ 31 - 1)"

section \<open>The flow of a dialplan\<close>

datatype 'h dialplan_flow =
    FTargets "'h dial_strategy"
  | FQueue "'h queue_plan" "'h dialplan_flow"
  | FApplication string "string option" bool

fun replace_terminal :: "'h dialplan_flow \<Rightarrow> 'h dialplan_flow \<Rightarrow> 'h dialplan_flow" where
  "replace_terminal (FQueue plan next) t = FQueue plan (replace_terminal next t)"
| "replace_terminal (FTargets _) t = t"
| "replace_terminal (FApplication _ _ _) t = t"

fun flow_is_empty :: "'h dialplan_flow \<Rightarrow> bool" where
  "flow_is_empty (FTargets strategy) = strategy_is_empty strategy"
| "flow_is_empty (FQueue _ _) = False"
| "flow_is_empty (FApplication _ _ _) = False"

fun all_webrtc_target :: "'h dialplan_flow \<Rightarrow> bool" where
  "all_webrtc_target (FTargets strategy) =
     (let targets = strategy_locations strategy
      in targets \<noteq> [] \<and> (\<forall>loc \<in> set targets. loc_supports_webrtc loc))"
| "all_webrtc_target (FQueue plan next) =
     (case qp_dial_strategy plan of
        Some strategy \<Rightarrow>
          if \<not> strategy_is_empty strategy
          then (\<forall>loc \<in> set (strategy_locations strategy). loc_supports_webrtc loc)
          else all_webrtc_target next
      | None \<Rightarrow> all_webrtc_target next)"
| "all_webrtc_target (FApplication _ _ _) = False"

fun find_targets :: "'h dialplan_flow \<Rightarrow> location list option" where
  "find_targets (FTargets strategy) = Some (strategy_locations strategy)"
| "find_targets (FQueue _ next) = find_targets next"
| "find_targets (FApplication _ _ _) = None"

fun owner_loop :: "location list \<Rightarrow> (string \<times> string option) option \<Rightarrow>
    (string \<times> string option) option" where
  "owner_loop [] owner = owner"
| "owner_loop (l # ls) owner =
     (case loc_registered_username l of
        None \<Rightarrow> None
      | Some username \<Rightarrow>
          let target_owner = (username, loc_registered_realm l)
          in case owner of
               None \<Rightarrow> owner_loop ls (Some target_owner)
             | Some known \<Rightarrow> if known = target_owner then owner_loop ls owner else None)"

fun registered_owner :: "'h dialplan_flow \<Rightarrow> (string \<times> string option) option" where
  "registered_owner (FTargets strategy) = owner_loop (strategy_locations strategy) None"
| "registered_owner (FQueue _ _) = None"
| "registered_owner (FApplication _ _ _) = None"

section \<open>Properties\<close>

text \<open>A name as the console stores it: ASCII, not empty and without white space around it.\<close>

fun endpoint_named :: "transfer_endpoint \<Rightarrow> string option" where
  "endpoint_named (TUri _) = None"
| "endpoint_named (TQueue n) = Some n"
| "endpoint_named (TRoutePoint n) = Some n"
| "endpoint_named (TIvr n) = Some n"
| "endpoint_named (TVoicemail n) = Some n"
| "endpoint_named (TConference n) = Some n"
| "endpoint_named (TRealtime n) = Some n"

definition clean_name :: "string \<Rightarrow> bool" where
  "clean_name n \<longleftrightarrow> n \<noteq> [] \<and> is_ascii n \<and> trim n = n"

lemma trim_prefixed:
  assumes "p \<noteq> []" "\<not> is_white (hd p)" "n \<noteq> []" "trim n = n"
  shows "trim (p @ n) = p @ n"
  using assms trim_eq_iff [of n] trim_eq_iff [of "p @ n"] by simp

lemma not_white_letters:
  "\<not> is_white CHR ''q''" "\<not> is_white CHR ''t''" "\<not> is_white CHR ''i''" "\<not> is_white CHR ''v''"
  "\<not> is_white CHR ''c''" "\<not> is_white CHR ''r''" "\<not> is_white CHR ''s''"
  by (simp_all add: is_white_def code_def)

lemma ascii_prefix_split:
  assumes "is_ascii p" "is_ascii s"
  shows "byte_len p \<le> byte_len s \<Longrightarrow>
    split_bytes (byte_len p) s = Some (take (length p) s, drop (length p) s)"
  using assms by (simp add: byte_len_ascii split_bytes_ascii)

lemma endpoint_parse_loop_ascii:
  assumes "is_ascii s" "\<forall>(p, c) \<in> set ps. is_ascii p"
  shows "endpoint_parse_loop ps s =
    (case find (\<lambda>(p, c). eq_ignore_ascii_case (take (length p) s) p) ps of
       None \<Rightarrow> Inr (Some (TUri s))
     | Some (p, c) \<Rightarrow>
         (let name = trim (drop (length p) s) in if name = [] then Inr None else Inr (Some (c name))))"
  using assms(2)
proof (induction ps)
  case (Cons x ps)
  obtain p c where x: "x = (p, c)" by (cases x)
  with Cons.prems have p: "is_ascii p" by simp
  show ?case
  proof (cases "length p \<le> length s")
    case True
    then show ?thesis
      using Cons x p assms(1) ascii_prefix_split [OF p assms(1)] by (simp add: byte_len_ascii Let_def)
  next
    case False
    then have "\<not> eq_ignore_ascii_case (take (length p) s) p"
      by (auto simp: eq_ignore_ascii_case_def to_ascii_lowercase_def dest: arg_cong [of _ _ length])
    with False show ?thesis
      using Cons x p assms(1) by (simp add: byte_len_ascii)
  qed
qed simp

lemma endpoint_prefixes_ascii: "\<forall>(p, c) \<in> set endpoint_prefixes. is_ascii p"
  by (simp add: endpoint_prefixes_def code_def)

lemma eq_ignore_ascii_case_Cons [simp]:
  "eq_ignore_ascii_case (a # s) (b # t) \<longleftrightarrow> ascii_lower a = ascii_lower b \<and> eq_ignore_ascii_case s t"
  "eq_ignore_ascii_case [] (b # t) \<longleftrightarrow> False" "eq_ignore_ascii_case (a # s) [] \<longleftrightarrow> False"
  by (auto simp: eq_ignore_ascii_case_def to_ascii_lowercase_def)

lemma ascii_lower_letter [simp]:
  "ascii_lower CHR ''q'' = CHR ''q''" "ascii_lower CHR ''t'' = CHR ''t''"
  "ascii_lower CHR ''i'' = CHR ''i''" "ascii_lower CHR ''v'' = CHR ''v''"
  "ascii_lower CHR ''c'' = CHR ''c''" "ascii_lower CHR ''r'' = CHR ''r''"
  by (simp_all add: ascii_lower_def code_def)

lemma endpoint_display_ascii:
  assumes "endpoint_named e = Some n" "clean_name n"
  shows "is_ascii (endpoint_display e)" and "trim (endpoint_display e) = endpoint_display e"
    and "endpoint_display e \<noteq> []"
  using assms trim_eq_iff [of n] trim_eq_iff [of "endpoint_display e"]
  by (cases e; simp add: clean_name_def code_def not_white_letters)+

lemma ascii_case_eq_ascii:
  assumes "eq_ignore_ascii_case h p" "is_ascii p"
  shows "is_ascii h \<and> length h = length p"
proof -
  have low: "code (ascii_lower c) < 128 \<longleftrightarrow> code c < 128" for c
    by (auto simp: ascii_lower_def)
  have "map ascii_lower h = map ascii_lower p"
    using assms(1) by (simp add: eq_ignore_ascii_case_def to_ascii_lowercase_def)
  then show ?thesis
    using assms(2) by (induction h arbitrary: p) (auto simp: Cons_eq_map_conv, metis low)
qed

text \<open>A transfer endpoint other than a plain URI survives printing and parsing, for every
  clean ASCII name: no prefix shadows another one.\<close>

theorem endpoint_parse_display:
  assumes "endpoint_named e = Some n" "clean_name n"
  shows "endpoint_parse (endpoint_display e) = Inr (Some e)"
proof -
  note d = endpoint_display_ascii [OF assms]
  have "endpoint_parse (endpoint_display e) = endpoint_parse_loop endpoint_prefixes (endpoint_display e)"
    using d by (simp add: endpoint_parse_def)
  also have "\<dots> = Inr (Some e)"
    using assms unfolding endpoint_parse_loop_ascii [OF d(1) endpoint_prefixes_ascii]
    by (cases e) (simp_all add: endpoint_prefixes_def clean_name_def Let_def)
  finally show ?thesis .
qed

lemma no_ascii_head:
  assumes "split_bytes n (a @ c # b) = Some (h, t)" "128 \<le> code c" "is_ascii p" "length a < length p"
  shows "\<not> eq_ignore_ascii_case h p"
proof
  assume "eq_ignore_ascii_case h p"
  with assms(3) have h: "is_ascii h" "length h = length p" using ascii_case_eq_ascii by auto
  have "(a @ c # b) ! length a = h ! length a"
    using split_bytes_Some [OF assms(1)] h(2) assms(4) by (simp add: nth_append)
  then have "c \<in> set h" using h(2) assms(4) by simp
  then show False using h(1) assms(2) by (auto simp: is_ascii_def)
qed

text \<open>Parsing indexes by byte offsets without looking at character boundaries: a target whose
  first three characters are ASCII and whose fourth is not makes it panic.\<close>

theorem endpoint_parse_panics:
  assumes "trim (a @ c # b) = a @ c # b" "is_ascii a" "length a = 3" "128 \<le> code c"
  shows "endpoint_parse (a @ c # b) = Inl NotCharBoundary"
proof -
  define s where "s = a @ c # b"
  have lens: "byte_len ''queue:'' = 6" "byte_len ''toivr:'' = 6" "byte_len ''ivr:'' = 4"
    by (simp_all add: char_bytes_def code_def)
  have at4: "split_bytes 4 s = None"
    using split_bytes_inside [OF assms(2,4), of b] assms(3) by (simp add: s_def)
  have "4 \<le> byte_len s"
    using assms(2-4) byte_len_ascii [of a] by (simp add: s_def char_bytes_def)
  moreover have "\<not> eq_ignore_ascii_case h p"
    if "split_bytes 6 s = Some (h, t)" "p = ''queue:'' \<or> p = ''toivr:''" for h t p
    using that no_ascii_head [OF that(1) [unfolded s_def] assms(4), of p] assms(3)
    by (auto simp: code_def)
  moreover have "trim s = s" "s \<noteq> []" using assms(1) by (simp_all add: s_def)
  ultimately have "endpoint_parse s = Inl NotCharBoundary"
    using at4
    by (auto simp: endpoint_parse_def endpoint_prefixes_def lens Let_def simp del: byte_len_simps
        split: option.split)
  then show ?thesis by (simp add: s_def)
qed

lemma trim_affix:
  assumes "s \<noteq> []" "\<not> is_white (hd s)" "\<not> is_white (last s)"
  shows "trim s = s"
  using assms by (simp add: trim_eq_iff)

lemma build_sip_uri_cases:
  obtains (anonymous) "build_sip_uri t realm = ''sip:anonymous@'' @ realm"
  | (full) r where "build_sip_uri t realm = ''sip:'' @ r" "CHR ''@'' \<in> set r" "r \<noteq> []"
      "\<not> is_white (last r)"
  | (tel) r where "build_sip_uri t realm = ''tel:'' @ r" "\<not> is_white (last (''tel:'' @ r))"
  | (local) u where "build_sip_uri t realm = ''sip:'' @ u @ ''@'' @ realm"
proof -
  let ?s = "trim t"
  note w = hd_last_trim [of t]
  show thesis
  proof (cases "?s = []")
    case True
    then show thesis using anonymous by (simp add: build_sip_uri_def)
  next
    case ne: False
    show thesis
    proof (cases "strip_prefix ''sip:'' ?s")
      case (Some rest)
      with ne w full local show thesis
        by (cases "CHR ''@'' \<in> set rest"; cases "rest = []")
          (auto simp: build_sip_uri_def str_contains_def strip_prefix_Some)
    next
      case none: None
      show thesis
      proof (cases "strip_prefix ''tel:'' ?s")
        case (Some rest)
        with none ne w tel show thesis by (auto simp: build_sip_uri_def strip_prefix_Some)
      next
        case None
        with none ne w full [of ?s] local [of ?s] show thesis
          by (cases "CHR ''@'' \<in> set ?s") (auto simp: build_sip_uri_def str_contains_def)
      qed
    qed
  qed
qed

lemma strip_prefix_sip [simp]:
  "strip_prefix ''sip:'' (CHR ''s'' # CHR ''i'' # CHR ''p'' # CHR '':'' # r) = Some r"
  "strip_prefix ''sip:'' (CHR ''t'' # r) = None"
  "strip_prefix ''tel:'' (CHR ''t'' # CHR ''e'' # CHR ''l'' # CHR '':'' # r) = Some r"
  by (simp_all add: strip_prefix_def starts_with_def)

lemma build_sip_uri_full:
  "trim (''sip:'' @ r) = ''sip:'' @ r \<Longrightarrow> CHR ''@'' \<in> set r \<Longrightarrow>
     build_sip_uri (''sip:'' @ r) realm = ''sip:'' @ r"
  by (simp add: build_sip_uri_def str_contains_def)

lemma build_sip_uri_tel:
  "trim (''tel:'' @ r) = ''tel:'' @ r \<Longrightarrow> build_sip_uri (''tel:'' @ r) realm = ''tel:'' @ r"
  by (simp add: build_sip_uri_def)

text \<open>Normalising a dial target is idempotent and always yields a \<open>sip:\<close> or \<open>tel:\<close> URI, a
  \<open>sip:\<close> one with a host part, for every realm without white space.\<close>

theorem build_sip_uri_normal:
  assumes "\<forall>c \<in> set realm. \<not> is_white c"
  shows "build_sip_uri (build_sip_uri t realm) realm = build_sip_uri t realm \<and>
    (starts_with (build_sip_uri t realm) ''tel:'' \<or>
     starts_with (build_sip_uri t realm) ''sip:'' \<and> CHR ''@'' \<in> set (build_sip_uri t realm))"
proof -
  have at: "\<not> is_white CHR ''@''" by (simp add: is_white_def code_def)
  have last: "\<not> is_white (last (s @ CHR ''@'' # realm))" for s
    using assms at by (cases realm rule: rev_cases) auto
  show ?thesis
  proof (cases t realm rule: build_sip_uri_cases)
    case anonymous
    have "trim (''sip:'' @ ''anonymous@'' @ realm) = ''sip:'' @ ''anonymous@'' @ realm"
      using last [of "''sip:anonymous''"] by (intro trim_affix) (simp_all add: not_white_letters)
    from build_sip_uri_full [OF this] anonymous show ?thesis by (simp add: starts_with_def)
  next
    case (full r)
    have "trim (''sip:'' @ r) = ''sip:'' @ r"
      using full by (intro trim_affix) (simp_all add: not_white_letters)
    from build_sip_uri_full [OF this] full show ?thesis by (simp add: starts_with_def)
  next
    case (tel r)
    have "trim (''tel:'' @ r) = ''tel:'' @ r"
      using tel by (intro trim_affix) (simp_all add: not_white_letters)
    from build_sip_uri_tel [OF this] tel show ?thesis by (simp add: starts_with_def)
  next
    case (local u)
    have "trim (''sip:'' @ u @ ''@'' @ realm) = ''sip:'' @ u @ ''@'' @ realm"
      using last [of "''sip:'' @ u"] by (intro trim_affix) (simp_all add: not_white_letters)
    from build_sip_uri_full [OF this] local show ?thesis by (simp add: starts_with_def)
  qed
qed

text \<open>A queue target with the \<open>sips:\<close> scheme is not dialled: it is taken for the name of a
  skill group, although the description lists \<open>sips:\<close> URIs among those dialled directly.\<close>

theorem sips_queue_taken_for_skill_group:
  assumes "params ''queue'' = Some (PvStr q)" "trim q = q" "starts_with q ''sips:''"
    and "from_app_params api params = Inr (plan, prio)"
  shows "map (\<lambda>l. loc_contact_raw l) (strategy_locations (the (qp_dial_strategy plan)))
    = [Some (''skill-group:'' @ q)]"
proof -
  obtain r where q: "q = ''sips:'' @ r"
    using assms(3) by (metis append_take_drop_id starts_with_def)
  then have no: "\<not> starts_with q ''sip:''" "\<not> starts_with q ''skill-group:''" "q \<noteq> []"
    by (auto simp: starts_with_def)
  show ?thesis
    using assms(1,2,4) no
    by (auto simp: from_app_params_def Let_def dial_attempt_of_location_def split: option.splits)
qed

definition demo_sip_api :: sip_api where
  "demo_sip_api = \<lparr>sa_parse_uri = (\<lambda>s. if s = [] then None
        else Some \<lparr>uri_scheme = Some Sip, uri_auth = None, uri_host_with_port = \<lparr>hp_host = s, hp_port = None\<rparr>, uri_params = []\<rparr>),
     sa_uri_str = (\<lambda>u. hp_host (uri_host_with_port u)),
     sa_parse_hostport = (\<lambda>s. if s = [] then None else Some \<lparr>hp_host = s, hp_port = None\<rparr>),
     sa_addr_str = hp_host\<rparr>"

lemma owner_loop_Some:
  "owner_loop ls (Some k) = Some r \<longleftrightarrow> r = k \<and>
     (\<forall>l \<in> set ls. loc_registered_username l = Some (fst k) \<and> loc_registered_realm l = snd k)"
  by (induction ls) (auto simp: Let_def split: option.splits)

text \<open>The owner of the dialled phones is reported exactly when there is a target and every
  target is a registered contact of that user, in that realm.\<close>

theorem registered_owner_iff:
  "registered_owner (FTargets strategy) = Some (user, realm) \<longleftrightarrow>
     strategy_locations strategy \<noteq> [] \<and>
     (\<forall>l \<in> set (strategy_locations strategy).
        loc_registered_username l = Some user \<and> loc_registered_realm l = realm)"
  by (cases "strategy_locations strategy") (auto simp: owner_loop_Some Let_def split: option.splits)

text \<open>Replacing the terminal of a flow keeps its queues and makes the new terminal's targets the
  flow's.\<close>

lemma find_targets_replace_terminal: "find_targets (replace_terminal f t) = find_targets t"
  by (induction f) auto

lemma replace_terminal_twice: "replace_terminal (replace_terminal f s) (FTargets t) =
    (if \<exists>p n. s = FQueue p n then replace_terminal f (replace_terminal s (FTargets t))
     else replace_terminal f (FTargets t))"
  by (induction f) (cases s; auto)+

lemma clamp_timeout_range: "5 \<le> unat (clamp_timeout v) \<and> unat (clamp_timeout v) \<le> 120"
proof (cases "v \<le> 0")
  case False
  define x where "x = min 120 (max 5 v)"
  have x: "5 \<le> x" "x \<le> 120" unfolding x_def by simp_all
  then have "unat (word_of_int x :: u64) = nat x"
    by (simp add: unat_eq_nat_uint uint_word_of_int)
  with x have "5 \<le> unat (word_of_int x :: u64)" "unat (word_of_int x :: u64) \<le> 120" by simp_all
  with False show ?thesis by (simp add: clamp_timeout_def x_def)
qed (simp add: clamp_timeout_def)

lemma clamp_priority_mono:
  assumes "p \<le> q"
  shows "clamp_priority_u32_to_i32 p \<le> clamp_priority_u32_to_i32 q"
proof -
  have "unat p \<le> unat q" using assms by (simp add: word_le_nat_alt)
  then show ?thesis unfolding clamp_priority_u32_to_i32_def by (auto simp del: of_nat_unat)
qed

end
