(* ===== verification/Call_Limiter.thy ===== *)
theory Call_Limiter
  imports Interfaces
begin

text \<open>
  The concurrent-call limiter of \<^verbatim>\<open>src/src/call/concurrent_call_limiter.rs\<close>. The semaphore is
  tokio's, so it is a parameter: a record of the four operations the source calls, with the
  documented counting behaviour as \<open>semaphore_laws\<close>. A semaphore lives behind an \<^verbatim>\<open>Arc\<close>, shared
  by the limiter and its permits: the store maps addresses to semaphores, a limiter and a permit
  hold an address, and dropping a permit releases at its address.
\<close>

section \<open>State and operations\<close>

record 'sem semaphore_api =
  sem_new :: "nat \<Rightarrow> 'sem"
  sem_try_acquire :: "'sem \<Rightarrow> 'sem option"
  sem_release :: "'sem \<Rightarrow> 'sem"
  sem_available :: "'sem \<Rightarrow> nat"

definition semaphore_laws :: "'sem semaphore_api \<Rightarrow> bool" where
  "semaphore_laws api \<longleftrightarrow>
     (\<forall>n. sem_available api (sem_new api n) = n) \<and>
     (\<forall>s. sem_try_acquire api s = None \<longleftrightarrow> sem_available api s = 0) \<and>
     (\<forall>s s'. sem_try_acquire api s = Some s' \<longrightarrow> sem_available api s = Suc (sem_available api s')) \<and>
     (\<forall>s. sem_available api (sem_release api s) = Suc (sem_available api s))"

type_synonym 'sem sem_store = "nat \<Rightarrow> 'sem"

datatype concurrent_call_limit_exceeded = ConcurrentCallLimitExceeded u32

datatype concurrent_call_permit = ConcurrentCallPermit (permit_addr: nat)

type_synonym concurrent_call_lease = "concurrent_call_permit list"

record concurrent_call_limiter =
  ccl_limit :: u32
  ccl_semaphore :: nat

definition ccl_new :: "'sem semaphore_api \<Rightarrow> nat \<Rightarrow> u32 \<Rightarrow> 'sem sem_store \<Rightarrow>
    concurrent_call_limiter \<times> 'sem sem_store" where
  "ccl_new api addr limit h =
     (\<lparr>ccl_limit = limit, ccl_semaphore = addr\<rparr>, h(addr := sem_new api (unat limit)))"

definition ccl_try_acquire :: "'sem semaphore_api \<Rightarrow> concurrent_call_limiter \<Rightarrow> 'sem sem_store \<Rightarrow>
    (concurrent_call_limit_exceeded + concurrent_call_permit) \<times> 'sem sem_store" where
  "ccl_try_acquire api l h =
     (case sem_try_acquire api (h (ccl_semaphore l)) of
        None \<Rightarrow> (Inl (ConcurrentCallLimitExceeded (ccl_limit l)), h)
      | Some s \<Rightarrow> (Inr (ConcurrentCallPermit (ccl_semaphore l)), h(ccl_semaphore l := s)))"

definition ccl_current :: "'sem semaphore_api \<Rightarrow> concurrent_call_limiter \<Rightarrow> 'sem sem_store \<Rightarrow> u32" where
  "ccl_current api l h =
     sat_sub (ccl_limit l) (word_of_nat (sem_available api (h (ccl_semaphore l))))"

definition drop_permit :: "'sem semaphore_api \<Rightarrow> concurrent_call_permit \<Rightarrow> 'sem sem_store \<Rightarrow>
    'sem sem_store" where
  "drop_permit api p h = h(permit_addr p := sem_release api (h (permit_addr p)))"

definition lease_push :: "concurrent_call_permit \<Rightarrow> concurrent_call_lease \<Rightarrow>
    concurrent_call_lease" where
  "lease_push p l = l @ [p]"

definition lease_release_all :: "'sem semaphore_api \<Rightarrow> concurrent_call_lease \<Rightarrow> 'sem sem_store \<Rightarrow>
    concurrent_call_lease \<times> 'sem sem_store" where
  "lease_release_all api l h = ([], fold (drop_permit api) l h)"

definition lease_take :: "concurrent_call_lease \<Rightarrow> concurrent_call_lease \<times> concurrent_call_lease" where
  "lease_take l = (l, [])"

section \<open>Accounting\<close>

text \<open>Permits outstanding at an address, over a list of leases.\<close>

definition permits_at :: "nat \<Rightarrow> concurrent_call_permit list \<Rightarrow> nat" where
  "permits_at a ps = length (filter (\<lambda>p. permit_addr p = a) ps)"

lemma permits_at_simps [simp]:
  "permits_at a [] = 0"
  "permits_at a (p # ps) = (if permit_addr p = a then 1 else 0) + permits_at a ps"
  "permits_at a (ps @ qs) = permits_at a ps + permits_at a qs"
  by (simp_all add: permits_at_def)

lemma available_drop_permit:
  "semaphore_laws api \<Longrightarrow> sem_available api (drop_permit api p h a)
     = sem_available api (h a) + (if permit_addr p = a then 1 else 0)"
  by (simp add: drop_permit_def semaphore_laws_def)

lemma available_drop_permits:
  "semaphore_laws api \<Longrightarrow> sem_available api (fold (drop_permit api) ps h a)
     = sem_available api (h a) + permits_at a ps"
  by (induction ps arbitrary: h) (auto simp: available_drop_permit)

lemma available_try_acquire:
  assumes "semaphore_laws api" "ccl_try_acquire api l h = (r, h')"
  shows "case r of
      Inl e \<Rightarrow> h' = h \<and> sem_available api (h (ccl_semaphore l)) = 0 \<and>
        e = ConcurrentCallLimitExceeded (ccl_limit l)
    | Inr p \<Rightarrow> permit_addr p = ccl_semaphore l \<and>
        (\<forall>a. sem_available api (h a) = sem_available api (h' a) + (if a = ccl_semaphore l then 1 else 0))"
proof (cases "sem_try_acquire api (h (ccl_semaphore l))")
  case None
  with assms show ?thesis by (auto simp: ccl_try_acquire_def semaphore_laws_def)
next
  case (Some s)
  with assms have "sem_available api (h (ccl_semaphore l)) = Suc (sem_available api s)"
    by (simp add: semaphore_laws_def)
  with assms(2) Some show ?thesis by (auto simp: ccl_try_acquire_def)
qed

section \<open>Leases in use\<close>

text \<open>What sessions do with their leases, in any order: acquire a permit into a lease, release a
  lease, take its permits into a new one, drop it.\<close>

datatype lease_event =
    NewLease
  | Acquire concurrent_call_limiter nat
  | ReleaseAll nat
  | TakeLease nat

record 'sem lease_world =
  lw_store :: "'sem sem_store"
  lw_leases :: "concurrent_call_lease list"

fun lease_apply :: "'sem semaphore_api \<Rightarrow> lease_event \<Rightarrow> 'sem lease_world \<Rightarrow> 'sem lease_world" where
  "lease_apply api NewLease w = w\<lparr>lw_leases := lw_leases w @ [[]]\<rparr>"
| "lease_apply api (Acquire l i) w =
     (if i < length (lw_leases w)
      then case ccl_try_acquire api l (lw_store w) of
             (Inl _, h) \<Rightarrow> w\<lparr>lw_store := h\<rparr>
           | (Inr p, h) \<Rightarrow> w\<lparr>lw_store := h, lw_leases := (lw_leases w)[i := lease_push p (lw_leases w ! i)]\<rparr>
      else w)"
| "lease_apply api (ReleaseAll i) w =
     (if i < length (lw_leases w)
      then let (l, h) = lease_release_all api (lw_leases w ! i) (lw_store w)
           in w\<lparr>lw_store := h, lw_leases := (lw_leases w)[i := l]\<rparr>
      else w)"
| "lease_apply api (TakeLease i) w =
     (if i < length (lw_leases w)
      then let (taken, l) = lease_take (lw_leases w ! i)
           in w\<lparr>lw_leases := (lw_leases w)[i := l] @ [taken]\<rparr>
      else w)"

definition outstanding :: "nat \<Rightarrow> 'sem lease_world \<Rightarrow> nat" where
  "outstanding a w = permits_at a (concat (lw_leases w))"

definition lease_inv :: "'sem semaphore_api \<Rightarrow> (nat \<Rightarrow> nat) \<Rightarrow> 'sem lease_world \<Rightarrow> bool" where
  "lease_inv api cap w \<longleftrightarrow> semaphore_laws api \<and>
     (\<forall>a. sem_available api (lw_store w a) + outstanding a w = cap a)"

lemma permits_at_concat_update:
  "i < length ls \<Longrightarrow> permits_at a (concat (ls[i := l])) + permits_at a (ls ! i)
     = permits_at a (concat ls) + permits_at a l"
  by (induction ls arbitrary: i) (auto simp: nth_Cons split: nat.splits)

lemma lease_invD:
  assumes "lease_inv api cap w"
  shows "semaphore_laws api"
    and "sem_available api (lw_store w a) + permits_at a (concat (lw_leases w)) = cap a"
  using assms by (simp_all add: lease_inv_def outstanding_def)

lemma lease_invI:
  assumes "semaphore_laws api"
    and "\<And>a. sem_available api (lw_store w a) + permits_at a (concat (lw_leases w)) = cap a"
  shows "lease_inv api cap w"
  using assms by (simp add: lease_inv_def outstanding_def)

lemma lease_acquire_inv:
  assumes inv: "lease_inv api cap w" and i: "i < length (lw_leases w)"
  shows "lease_inv api cap (lease_apply api (Acquire l i) w)"
proof -
  obtain r h where rh: "ccl_try_acquire api l (lw_store w) = (r, h)"
    by (cases "ccl_try_acquire api l (lw_store w)")
  note acq = available_try_acquire [OF lease_invD(1) [OF inv] rh]
  show ?thesis
  proof (cases r)
    case (Inl x)
    with acq inv i rh show ?thesis by simp
  next
    case (Inr p)
    have "sem_available api (h a)
        + permits_at a (concat ((lw_leases w)[i := lease_push p (lw_leases w ! i)])) = cap a" for a
      using acq [unfolded Inr] lease_invD(2) [OF inv, of a]
        permits_at_concat_update [OF i, of a "lease_push p (lw_leases w ! i)"]
      by (auto simp: lease_push_def split: if_splits)
    with lease_invD(1) [OF inv] Inr i rh show ?thesis by (auto intro!: lease_invI)
  qed
qed

lemma lease_release_inv:
  assumes inv: "lease_inv api cap w" and i: "i < length (lw_leases w)"
  shows "lease_inv api cap (lease_apply api (ReleaseAll i) w)"
proof (rule lease_invI [OF lease_invD(1) [OF inv]])
  fix a
  have "permits_at a (concat ((lw_leases w)[i := []])) + permits_at a (lw_leases w ! i)
      = permits_at a (concat (lw_leases w))"
    using permits_at_concat_update [OF i, of a "[]"] by simp
  then show "sem_available api (lw_store (lease_apply api (ReleaseAll i) w) a)
      + permits_at a (concat (lw_leases (lease_apply api (ReleaseAll i) w))) = cap a"
    using lease_invD(2) [OF inv, of a] i
    by (simp add: lease_release_all_def available_drop_permits [OF lease_invD(1) [OF inv]])
qed

lemma lease_take_inv:
  assumes inv: "lease_inv api cap w" and i: "i < length (lw_leases w)"
  shows "lease_inv api cap (lease_apply api (TakeLease i) w)"
proof (rule lease_invI [OF lease_invD(1) [OF inv]])
  fix a
  show "sem_available api (lw_store (lease_apply api (TakeLease i) w) a)
      + permits_at a (concat (lw_leases (lease_apply api (TakeLease i) w))) = cap a"
    using lease_invD(2) [OF inv, of a] i permits_at_concat_update [OF i, of a "[]"]
    by (simp add: lease_take_def)
qed

lemma lease_apply_inv:
  assumes "lease_inv api cap w"
  shows "lease_inv api cap (lease_apply api e w)"
proof (cases e)
  case NewLease
  with assms show ?thesis by (auto intro!: lease_invI dest: lease_invD)
next
  case (Acquire l i)
  with assms show ?thesis by (metis lease_acquire_inv lease_apply.simps(2))
next
  case (ReleaseAll i)
  with assms show ?thesis by (metis lease_release_inv lease_apply.simps(3))
next
  case (TakeLease i)
  with assms show ?thesis by (metis lease_take_inv lease_apply.simps(4))
qed

interpretation lease_machine: event_machine "lease_apply api" "lease_inv api cap" for api cap
  by unfold_locales (rule lease_apply_inv)

text \<open>C28. Whatever the sessions do with their leases, a limiter never has more permits out than
  its limit, and \<open>current\<close> reports exactly the permits that are out.\<close>

theorem lease_never_oversubscribed:
  assumes "semaphore_laws api"
    and "\<forall>a. sem_available api (lw_store w a) + outstanding a w = cap a"
    and "cap (ccl_semaphore l) = unat (ccl_limit l)"
  shows "outstanding (ccl_semaphore l) (fold (lease_apply api) es w) \<le> unat (ccl_limit l) \<and>
    unat (ccl_current api l (lw_store (fold (lease_apply api) es w)))
      = outstanding (ccl_semaphore l) (fold (lease_apply api) es w)"
proof -
  let ?w = "fold (lease_apply api) es w" and ?a = "ccl_semaphore l"
  have "lease_inv api cap ?w"
    using assms(1,2) by (intro lease_machine.run_inv) (simp add: lease_inv_def)
  from lease_invD(2) [OF this, of ?a] assms(3)
  have sum: "sem_available api (lw_store ?w ?a) + outstanding ?a ?w = unat (ccl_limit l)"
    by (simp add: outstanding_def)
  moreover have "unat (ccl_limit l) < 2 ^ 32" using unat_lt_2p [of "ccl_limit l"] by simp
  ultimately have "sem_available api (lw_store ?w ?a) < 2 ^ 32" by linarith
  then have "unat (word_of_nat (sem_available api (lw_store ?w ?a)) :: u32)
      = sem_available api (lw_store ?w ?a)"
    by (simp add: unat_of_nat)
  with sum show ?thesis by (simp add: ccl_current_def sat_simps)
qed

text \<open>Releasing a lease gives every permit back: the limiter has room for as many calls more
  as the lease held, and the lease is empty.\<close>

theorem lease_release_all_restores:
  assumes "semaphore_laws api"
  shows "fst (lease_release_all api l h) = [] \<and>
    sem_available api (snd (lease_release_all api l h) a) = sem_available api (h a) + permits_at a l"
  using assms by (simp add: lease_release_all_def available_drop_permits)

section \<open>A counting semaphore\<close>

definition counting_semaphore :: "nat semaphore_api" where
  "counting_semaphore = \<lparr>sem_new = (\<lambda>n. n),
     sem_try_acquire = (\<lambda>s. if s = 0 then None else Some (s - 1)),
     sem_release = Suc, sem_available = (\<lambda>s. s)\<rparr>"

lemma counting_semaphore_laws: "semaphore_laws counting_semaphore"
  by (auto simp: semaphore_laws_def counting_semaphore_def split: if_splits)

theorem lease_never_oversubscribed_witness:
  "let l = \<lparr>ccl_limit = 1, ccl_semaphore = 4\<rparr>;
       w = fold (lease_apply counting_semaphore) [NewLease, Acquire l 0, TakeLease 0, Acquire l 0]
             \<lparr>lw_store = (\<lambda>_. 1), lw_leases = []\<rparr>
   in outstanding 4 w \<le> unat (ccl_limit l) \<and>
      unat (ccl_current counting_semaphore l (lw_store w)) = outstanding 4 w"
  using lease_never_oversubscribed [OF counting_semaphore_laws,
    of "\<lparr>lw_store = (\<lambda>_. 1), lw_leases = []\<rparr>" "\<lambda>_. 1" "\<lparr>ccl_limit = 1, ccl_semaphore = 4\<rparr>"
       "[NewLease, Acquire \<lparr>ccl_limit = 1, ccl_semaphore = 4\<rparr> 0, TakeLease 0,
         Acquire \<lparr>ccl_limit = 1, ccl_semaphore = 4\<rparr> 0]"]
  by (simp add: counting_semaphore_def outstanding_def Let_def del: lease_apply.simps)

end
