(* ===== verification/Route_Config.thy ===== *)
theory Route_Config
  imports Dial_Targets Call_Policy Call_Limiter
begin

text \<open>
  The routing configuration, \<^verbatim>\<open>src/src/proxy/routing/mod.rs\<close>: trunks, rules, queue
  references and the small functions on them, with the dialplan hints of \<^verbatim>\<open>src/src/config.rs\<close> and
  the AMD settings of \<^verbatim>\<open>src/crates/rustpbx-media/src/amd.rs\<close>. A limiter is shared by reference: a
  trunk holds the address of its CPS limiter and of its semaphore. Trunk fields that no modelled
  function reads (registration, health checks, header rules) are left out. IP parsing and name
  resolution are the parameter \<open>ip_api\<close>, regular expressions the parameter \<open>regex_api\<close>.
\<close>

section \<open>Data\<close>

record diversion_policy =
  dp_diversion_headers :: bool
  dp_history_info :: bool

record amd_config =
  amd_enabled :: "bool option"
  amd_engine :: "string option"
  amd_timeout_secs :: "u64 option"
  amd_max_greeting_ms :: "u64 option"
  amd_detect_beep :: "bool option"
  amd_params :: "(string, string) hmap"

record ringback_audio =
  ra_ring :: "string option"
  ra_busy :: "string option"
  ra_reject :: "string option"
  ra_offline :: "string option"
  ra_notfound :: "string option"
  ra_noanswer :: "string option"
  ra_error :: "string option"

datatype media_mode = MmNone | MmBypass | MmAuto | MmForceTranscode
datatype media_proxy_mode = MpAll | MpAuto | MpNat | MpNone | MpBypass
datatype video_policy = VpPassThrough | VpStrip | VpTranscode
datatype trunk_direction = TdInbound | TdOutbound | TdBidirectional
datatype dial_direction = DdInbound | DdOutbound | DdInternal
datatype route_direction = RdAny | RdInbound | RdOutbound

record trunk_config =
  tc_dest :: string
  tc_backup_dest :: "string option"
  tc_outbound_proxy :: "string option"
  tc_username :: "string option"
  tc_password :: "string option"
  tc_codec :: "string list"
  tc_concurrent_call_limiter :: "concurrent_call_limiter option"
  tc_cps_limiter :: "nat option"
  tc_weight :: "u32 option"
  tc_transport :: "string option"
  tc_id :: "int option"
  tc_direction :: "trunk_direction option"
  tc_inbound_hosts :: "string list"
  tc_recording :: "string option"
  tc_amd :: "amd_config option"
  tc_incoming_from_user_prefix :: "string option"
  tc_incoming_to_user_prefix :: "string option"
  tc_country :: "string option"
  tc_policy :: "policy_spec option"
  tc_rewrite_hostport :: bool
  tc_media_mode :: "media_mode option"
  tc_video_policy :: "video_policy option"
  tc_external_ip :: "string option"
  tc_bind_ip :: "string option"
  tc_ice_lite :: "bool option"
  tc_passthrough_custom_sdp_attrs :: "bool option"
  tc_profile :: "string option"
  tc_ringback :: "ringback_audio option"
  tc_max_ring_time :: "u32 option"
  tc_max_call_duration :: "u32 option"
  tc_diversion_headers :: "bool option"
  tc_history_info :: "bool option"

definition trunk_config_default :: trunk_config where
  "trunk_config_default = \<lparr>tc_dest = [], tc_backup_dest = None, tc_outbound_proxy = None,
     tc_username = None, tc_password = None, tc_codec = [], tc_concurrent_call_limiter = None,
     tc_cps_limiter = None, tc_weight = None, tc_transport = None, tc_id = None,
     tc_direction = None, tc_inbound_hosts = [], tc_recording = None, tc_amd = None,
     tc_incoming_from_user_prefix = None, tc_incoming_to_user_prefix = None, tc_country = None,
     tc_policy = None, tc_rewrite_hostport = True, tc_media_mode = None, tc_video_policy = None,
     tc_external_ip = None, tc_bind_ip = None, tc_ice_lite = None,
     tc_passthrough_custom_sdp_attrs = None, tc_profile = None, tc_ringback = None,
     tc_max_ring_time = None, tc_max_call_duration = None, tc_diversion_headers = None,
     tc_history_info = None\<rparr>"

record source_trunk =
  st_name :: string
  st_id :: "int option"
  st_direction :: "trunk_direction option"

datatype dest_config = DestSingle string | DestMultiple "string list"

record match_conditions =
  mc_from_user :: "string option"
  mc_from_host :: "string option"
  mc_to_user :: "string option"
  mc_to_host :: "string option"
  mc_request_uri_user :: "string option"
  mc_request_uri_host :: "string option"
  mc_headers :: "(string, string) hmap"
  mc_caller :: "string option"
  mc_callee :: "string option"

record rewrite_rules =
  rr_from_user :: "string option"
  rr_from_host :: "string option"
  rr_to_user :: "string option"
  rr_to_host :: "string option"
  rr_to_port :: "string option"
  rr_request_uri_user :: "string option"
  rr_request_uri_host :: "string option"
  rr_request_uri_port :: "string option"
  rr_headers :: "(string, string) hmap"

record reject_config =
  rj_code :: u16
  rj_reason :: "string option"

record busy_wait_config =
  bw_enabled :: bool
  bw_max_wait_secs :: u64
  bw_retry_interval_secs :: u64
  bw_hold_audio :: "string option"

record busy_wait_plan =
  bp_max_wait :: "u64 option"
  bp_retry_interval :: u64
  bp_hold_audio :: string

record route_action =
  ra_action :: "string option"
  ra_dest :: "dest_config option"
  ra_select :: string
  ra_hash_key :: "string option"
  ra_reject_config :: "reject_config option"
  ra_queue :: "string option"
  ra_app :: "string option"
  ra_app_params :: "string option"
  ra_auto_answer :: bool
  ra_busy_wait :: "busy_wait_config option"

datatype action_type = ActForward | ActReject | ActBusy | ActQueue | ActApplication

record route_rule =
  rl_name :: string
  rl_id :: "int option"
  rl_source_trunks :: "string list"
  rl_source_trunk_ids :: "int list"
  rl_match_conditions :: match_conditions
  rl_rewrite :: "rewrite_rules option"
  rl_action :: route_action
  rl_codecs :: "string list"
  rl_disable_ice_servers :: "bool option"
  rl_disabled :: "bool option"
  rl_policy :: "policy_spec option"
  rl_max_ring_time :: "u32 option"

record matched_route =
  mr_id :: "int option"
  mr_name :: string

record outbound_trunk_context =
  oc_id :: "int option"
  oc_name :: string
  oc_dest :: "string option"

text \<open>The extensions of the hints are a map from types: the two types the routing inserts are two
  optional fields.\<close>

record dialplan_hints =
  dh_recording :: "string option"
  dh_max_duration :: "u64 option"
  dh_max_ring_time :: "u64 option"
  dh_allow_codecs :: "string list option"
  dh_matched_route :: "matched_route option"
  dh_outbound_trunk :: "outbound_trunk_context option"
  dh_disable_ice_servers :: "bool option"
  dh_media_mode :: "media_proxy_mode option"
  dh_video_policy :: "video_policy option"
  dh_external_ip :: "string option"
  dh_bind_ip :: "string option"
  dh_ice_lite :: "bool option"
  dh_passthrough_custom_sdp_attrs :: "bool option"
  dh_network_profile_id :: "string option"
  dh_ringback :: "ringback_audio option"
  dh_busy_wait :: "busy_wait_config option"
  dh_diversion_policy :: "diversion_policy option"
  dh_amd :: "amd_config option"
  dh_concurrency_holds :: "concurrency_hold list"
  dh_concurrent_call_lease :: concurrent_call_lease

definition hints_default :: dialplan_hints where
  "hints_default = \<lparr>dh_recording = None, dh_max_duration = None, dh_max_ring_time = None,
     dh_allow_codecs = None, dh_matched_route = None, dh_outbound_trunk = None,
     dh_disable_ice_servers = None, dh_media_mode = None, dh_video_policy = None,
     dh_external_ip = None, dh_bind_ip = None, dh_ice_lite = None,
     dh_passthrough_custom_sdp_attrs = None, dh_network_profile_id = None, dh_ringback = None,
     dh_busy_wait = None, dh_diversion_policy = None, dh_amd = None, dh_concurrency_holds = [],
     dh_concurrent_call_lease = []\<rparr>"

definition the_hints :: "dialplan_hints option \<Rightarrow> dialplan_hints" where
  "the_hints h = (case h of None \<Rightarrow> hints_default | Some x \<Rightarrow> x)"

section \<open>Parameters\<close>

record 'ip ip_api =
  ia_parse_net :: "string \<Rightarrow> ('ip \<Rightarrow> bool) option"
  ia_parse_socket :: "string \<Rightarrow> 'ip option"
  ia_parse_ip :: "string \<Rightarrow> 'ip option"
  ia_lookup_host :: "string \<Rightarrow> 'ip list"

record regex_api =
  rx_is_match :: "string \<Rightarrow> string \<Rightarrow> bool option"
  rx_captures :: "string \<Rightarrow> string \<Rightarrow> string list option option"

end
