(* ===== verification/Route_Functions.thy ===== *)
theory Route_Functions
  imports Route_Config
begin

text \<open>
  The functions of \<^verbatim>\<open>src/src/proxy/routing/mod.rs\<close> on the routing configuration, in the order of
  the source, with \<^verbatim>\<open>AmdConfig::overlay\<close> and \<^verbatim>\<open>parse_server_uri\<close>, and what they guarantee.
\<close>

section \<open>Trunks\<close>

definition diversion_resolve :: "bool \<Rightarrow> bool \<Rightarrow> diversion_policy option \<Rightarrow> diversion_policy" where
  "diversion_resolve global_diversion global_history override =
     (case override of
        Some policy \<Rightarrow> policy
      | None \<Rightarrow> \<lparr>dp_diversion_headers = global_diversion, dp_history_info = global_history\<rparr>)"

definition trunk_dest_host_port :: "sip_api \<Rightarrow> string \<Rightarrow> (string \<times> u16) option" where
  "trunk_dest_host_port api dest =
     (if trim dest = [] then None
      else case sa_parse_uri api dest of
             Some uri \<Rightarrow>
               if uri_host uri = [] then None
               else Some (uri_host uri,
                          (case hp_port (uri_host_with_port uri) of None \<Rightarrow> 5060 | Some p \<Rightarrow> p))
           | None \<Rightarrow>
               (case split_on CHR '':'' dest of
                  [] \<Rightarrow> None
                | host # rest \<Rightarrow>
                    if host = [] then None
                    else Some (host,
                      (case rest of
                         [] \<Rightarrow> 5060
                       | p # _ \<Rightarrow> (case parse_uint (2 ^ 16) p of None \<Rightarrow> 5060 | Some n \<Rightarrow> word_of_nat n)))))"

definition find_trunk_by_dest :: "sip_api \<Rightarrow> (string, trunk_config) hmap \<Rightarrow> string \<Rightarrow> u16 \<Rightarrow>
    trunk_config option" where
  "find_trunk_by_dest api trunks host port =
     find (\<lambda>trunk. case trunk_dest_host_port api (tc_dest trunk) of
                     Some (h, p) \<Rightarrow> eq_ignore_ascii_case h host \<and> p = port
                   | None \<Rightarrow> False) (map snd trunks)"

definition builtin_ringback :: ringback_audio where
  "builtin_ringback = \<lparr>ra_ring = None, ra_busy = Some ''tone://480,3000'',
     ra_reject = Some ''tone://480,2000'', ra_offline = Some ''tone://480,2000'',
     ra_notfound = Some ''tone://480,1500'', ra_noanswer = Some ''tone://480,3000'',
     ra_error = Some ''sounds/service_unavailable_en.mp3''\<rparr>"

definition ringback_merge_from :: "ringback_audio \<Rightarrow> ringback_audio \<Rightarrow> ringback_audio" where
  "ringback_merge_from self other =
     \<lparr>ra_ring = or_else (ra_ring other) (ra_ring self),
      ra_busy = or_else (ra_busy other) (ra_busy self),
      ra_reject = or_else (ra_reject other) (ra_reject self),
      ra_offline = or_else (ra_offline other) (ra_offline self),
      ra_notfound = or_else (ra_notfound other) (ra_notfound self),
      ra_noanswer = or_else (ra_noanswer other) (ra_noanswer self),
      ra_error = or_else (ra_error other) (ra_error self)\<rparr>"

definition ringback_for_status :: "ringback_audio \<Rightarrow> u16 \<Rightarrow> string option" where
  "ringback_for_status ra status =
     (if status = 408 \<or> status = 487 then ra_noanswer ra
      else if status = 480 then ra_offline ra
      else if status = 404 then ra_notfound ra
      else if status = 486 then ra_busy ra
      else if status = 603 then ra_reject ra
      else if 500 \<le> status \<and> status \<le> 599 then ra_error ra
      else None)"

definition has_failure_tone :: "ringback_audio \<Rightarrow> bool" where
  "has_failure_tone ra \<longleftrightarrow> ra_busy ra \<noteq> None \<or> ra_reject ra \<noteq> None \<or> ra_offline ra \<noteq> None \<or>
     ra_notfound ra \<noteq> None \<or> ra_noanswer ra \<noteq> None \<or> ra_error ra \<noteq> None"

definition regex_prefix_chars :: string where
  "regex_prefix_chars = ''^$.*?[](){}|'' @ [CHR 0x5C]"

definition matches_user_prefix :: "regex_api \<Rightarrow> string \<Rightarrow> string \<Rightarrow> bool" where
  "matches_user_prefix rx pattern v =
     (let trimmed = trim pattern
      in if trimmed = [] then True
         else if \<not> (\<exists>c \<in> set trimmed. c \<in> set regex_prefix_chars) then starts_with v trimmed
         else case rx_is_match rx trimmed v of None \<Rightarrow> False | Some b \<Rightarrow> b)"

definition user_prefix_fails :: "regex_api \<Rightarrow> string option \<Rightarrow> string option \<Rightarrow> bool" where
  "user_prefix_fails rx pattern user \<longleftrightarrow>
     (case pattern of
        None \<Rightarrow> False
      | Some p \<Rightarrow> trim p \<noteq> [] \<and>
          \<not> matches_user_prefix rx p (case user of None \<Rightarrow> [] | Some u \<Rightarrow> u))"

definition matches_incoming_user_prefixes :: "regex_api \<Rightarrow> trunk_config \<Rightarrow> string option \<Rightarrow>
    string option \<Rightarrow> bool" where
  "matches_incoming_user_prefixes rx trunk from_user to_user =
     (if user_prefix_fails rx (tc_incoming_from_user_prefix trunk) from_user then False
      else if user_prefix_fails rx (tc_incoming_to_user_prefix trunk) to_user then False
      else True)"

fun trunk_direction_allows :: "trunk_direction \<Rightarrow> dial_direction \<Rightarrow> bool" where
  "trunk_direction_allows TdInbound d = (d = DdInbound)"
| "trunk_direction_allows TdOutbound d = (d = DdOutbound)"
| "trunk_direction_allows TdBidirectional d = True"

definition build_source_trunk :: "string \<Rightarrow> trunk_config \<Rightarrow> dial_direction \<Rightarrow> source_trunk option" where
  "build_source_trunk name config direction =
     (if (case tc_direction config of
            Some td \<Rightarrow> \<not> trunk_direction_allows td direction
          | None \<Rightarrow> False)
      then None
      else Some \<lparr>st_name = name, st_id = tc_id config, st_direction = tc_direction config\<rparr>)"

fun route_direction_matches :: "route_direction \<Rightarrow> dial_direction \<Rightarrow> bool" where
  "route_direction_matches RdAny d = True"
| "route_direction_matches RdInbound d = (d = DdInbound)"
| "route_direction_matches RdOutbound d = (d = DdOutbound)"

section \<open>Actions\<close>

definition busy_wait_to_plan :: "busy_wait_config \<Rightarrow> busy_wait_plan" where
  "busy_wait_to_plan bw =
     \<lparr>bp_max_wait = (if 0 < bw_max_wait_secs bw then Some (bw_max_wait_secs bw) else None),
      bp_retry_interval = max 1 (bw_retry_interval_secs bw),
      bp_hold_audio = (case bw_hold_audio bw of Some f \<Rightarrow> f | None \<Rightarrow> ''sounds/phone-calling.wav'')\<rparr>"

definition get_action_type :: "route_action \<Rightarrow> action_type" where
  "get_action_type a =
     (case ra_action a of
        Some action \<Rightarrow>
          if action = ''reject'' then ActReject
          else if action = ''busy'' then ActBusy
          else if action = ''queue'' then ActQueue
          else if action = ''application'' then ActApplication
          else ActForward
      | None \<Rightarrow>
          if ra_app a \<noteq> None then ActApplication
          else if ra_queue a \<noteq> None then ActQueue
          else if ra_reject_config a \<noteq> None then ActReject
          else ActForward)"

section \<open>Queues\<close>

datatype queue_dial_mode = QmSequential | QmParallel

record queue_target_config =
  qt_uri :: string
  qt_label :: "string option"

record route_queue_config =
  rq_name :: "string option"
  rq_accept_immediately :: bool
  rq_passthrough_ringback :: bool
  rq_hold :: "(string option \<times> bool) option"
  rq_fallback :: "(string option \<times> u16 option \<times> string option) option"
  rq_mode :: queue_dial_mode
  rq_wait_timeout_secs :: "u16 option"
  rq_targets :: "queue_target_config list"
  rq_voice_prompts :: "string option"

datatype queue_error =
    InvalidSkillGroupUri string
  | InvalidQueueTargetUri string
  | InvalidFallbackUri string
  | InvalidFailureCode u16
  | FallbackUnspecified
  | FallbackPanic

text \<open>\<^verbatim>\<open>RouteQueueFallbackConfig::to_action\<close> on redirect, failure code and failure reason.\<close>

definition fallback_hangup :: "u16 option \<Rightarrow> string option \<Rightarrow> queue_error + queue_fallback_action" where
  "fallback_hangup failure_code failure_reason =
     (if failure_code \<noteq> None \<or> failure_reason \<noteq> None
      then case failure_code of
             Some c \<Rightarrow>
               if \<not> (100 \<le> c \<and> c \<le> 699) then Inl (InvalidFailureCode c)
               else Inr (QfFailure (FaHangup (Some c) failure_reason))
           | None \<Rightarrow> Inr (QfFailure (FaHangup (Some 480) failure_reason))
      else Inl FallbackUnspecified)"

definition fallback_to_action :: "sip_api \<Rightarrow> string option \<times> u16 option \<times> string option \<Rightarrow>
    queue_error + queue_fallback_action" where
  "fallback_to_action api cfg =
     (case cfg of (redirect, failure_code, failure_reason) \<Rightarrow>
        (case redirect of
           None \<Rightarrow> fallback_hangup failure_code failure_reason
         | Some r \<Rightarrow>
             if trim r = [] then fallback_hangup failure_code failure_reason
             else case endpoint_parse (trim r) of
                    Inl NotCharBoundary \<Rightarrow> Inl FallbackPanic
                  | Inr None \<Rightarrow> fallback_hangup failure_code failure_reason
                  | Inr (Some (TUri uri)) \<Rightarrow>
                      (case sa_parse_uri api uri of
                         None \<Rightarrow> Inl (InvalidFallbackUri uri)
                       | Some parsed \<Rightarrow> Inr (QfRedirect parsed))
                  | Inr (Some other) \<Rightarrow> Inr (QfFailure (FaTransfer other))))"

definition skill_group_location :: "sip_api \<Rightarrow> string \<Rightarrow> queue_error + location list" where
  "skill_group_location api uri_text =
     (let group = trim (case strip_prefix ''skill-group:'' uri_text of Some r \<Rightarrow> r | None \<Rightarrow> uri_text)
      in if group = [] then Inr []
         else case sa_parse_uri api (''skill-group:'' @ group) of
                None \<Rightarrow> Inl (InvalidSkillGroupUri uri_text)
              | Some aor \<Rightarrow> Inr [(location_of aor)\<lparr>loc_contact_raw := Some uri_text\<rparr>])"

definition target_location :: "sip_api \<Rightarrow> queue_target_config \<Rightarrow> queue_error + location list" where
  "target_location api target =
     (let uri_text = trim (qt_uri target)
      in if uri_text = [] then Inr []
         else if starts_with uri_text ''skill-group:'' then skill_group_location api uri_text
         else case sa_parse_uri api uri_text of
                None \<Rightarrow> Inl (InvalidQueueTargetUri uri_text)
              | Some uri \<Rightarrow>
                  Inr [(location_of uri)\<lparr>loc_contact_raw := Some (sa_uri_str api uri)\<rparr>])"

fun target_locations :: "sip_api \<Rightarrow> queue_target_config list \<Rightarrow> queue_error + location list" where
  "target_locations api [] = Inr []"
| "target_locations api (t # ts) =
     (case target_location api t of
        Inl e \<Rightarrow> Inl e
      | Inr ls \<Rightarrow> (case target_locations api ts of Inl e \<Rightarrow> Inl e | Inr rest \<Rightarrow> Inr (ls @ rest)))"

definition build_dial_strategy :: "sip_api \<Rightarrow> route_queue_config \<Rightarrow>
    queue_error + 'h dial_strategy option" where
  "build_dial_strategy api cfg =
     (if rq_targets cfg = [] then Inr None
      else case target_locations api (rq_targets cfg) of
             Inl e \<Rightarrow> Inl e
           | Inr locations \<Rightarrow>
               if locations = [] then Inr None
               else Inr (Some (case rq_mode cfg of
                                 QmParallel \<Rightarrow> DParallel locations
                               | QmSequential \<Rightarrow> DSequential (map dial_attempt_of_location locations))))"

definition to_queue_plan :: "sip_api \<Rightarrow> route_queue_config \<Rightarrow> queue_error + 'h queue_plan" where
  "to_queue_plan api cfg =
     (let hold = (case rq_hold cfg of
                    None \<Rightarrow> None
                  | Some (file, loop) \<Rightarrow>
                      Some \<lparr>qh_audio_file = (case file of Some f \<Rightarrow> Some f
                                              | None \<Rightarrow> qh_audio_file queue_hold_default),
                            qh_loop_playback = loop\<rparr>);
          plan = queue_plan_default\<lparr>qp_accept_immediately := rq_accept_immediately cfg,
                   qp_passthrough_ringback := (rq_passthrough_ringback cfg \<and> rq_accept_immediately cfg),
                   qp_hold := hold\<rparr>
      in case (case rq_fallback cfg of
                 None \<Rightarrow> Inr plan
               | Some f \<Rightarrow> (case fallback_to_action api f of
                              Inl e \<Rightarrow> Inl e
                            | Inr a \<Rightarrow> Inr (plan\<lparr>qp_fallback := Some a\<rparr>))) of
           Inl e \<Rightarrow> Inl e
         | Inr plan1 \<Rightarrow>
             (case build_dial_strategy api cfg of
                Inl e \<Rightarrow> Inl e
              | Inr strategy \<Rightarrow>
                  let plan2 = (case strategy of
                                 Some st \<Rightarrow> plan1\<lparr>qp_dial_strategy := Some st\<rparr>
                               | None \<Rightarrow> plan1);
                      plan3 = (case rq_wait_timeout_secs cfg of
                                 Some t \<Rightarrow> if 0 < t then plan2\<lparr>qp_ring_timeout_secs := Some (ucast t)\<rparr>
                                           else plan2
                               | None \<Rightarrow> plan2)
                  in Inr (plan3\<lparr>qp_voice_prompts := rq_voice_prompts cfg,
                        qp_queue_name := (case rq_name cfg of Some n \<Rightarrow> n | None \<Rightarrow> [])\<rparr>)))"

section \<open>Addresses\<close>

definition rsplit_once :: "char \<Rightarrow> string \<Rightarrow> (string \<times> string) option" where
  "rsplit_once c s = map_option (\<lambda>(a, b). (rev b, rev a)) (split_once c (rev s))"

definition split_host_port :: "string \<Rightarrow> (string \<times> string) option" where
  "split_host_port input =
     (case (case split_once CHR '']'' input of
              Some (before, after) \<Rightarrow>
                if starts_with input ''['' \<and> starts_with after '':''
                then Some (drop 1 before, drop 1 after) else None
            | None \<Rightarrow> None) of
        Some r \<Rightarrow> Some r
      | None \<Rightarrow>
          (case rsplit_once CHR '':'' input of
             Some (before, after) \<Rightarrow>
               if str_contains CHR '':'' before then None else Some (before, after)
           | None \<Rightarrow> None))"

definition parse_literal :: "'ip ip_api \<Rightarrow> string \<Rightarrow> 'ip \<Rightarrow> bool option" where
  "parse_literal ips s addr =
     (case ia_parse_net ips s of
        Some net \<Rightarrow> Some (net addr)
      | None \<Rightarrow>
          (case ia_parse_socket ips s of
             Some ip \<Rightarrow> Some (ip = addr)
           | None \<Rightarrow> (case ia_parse_ip ips s of Some ip \<Rightarrow> Some (ip = addr) | None \<Rightarrow> None)))"

definition host_matches :: "'ip ip_api \<Rightarrow> string \<Rightarrow> 'ip \<Rightarrow> bool" where
  "host_matches ips host addr =
     (let opened = dropWhile (\<lambda>c. c = CHR ''['') (trim host);
          cleaned = trim (rev (dropWhile (\<lambda>c. c = CHR '']'') (rev opened)))
      in if cleaned = [] then False
         else case parse_literal ips cleaned addr of
                Some b \<Rightarrow> b
              | None \<Rightarrow>
                  let target = (case split_host_port cleaned of Some (h, _) \<Rightarrow> h | None \<Rightarrow> cleaned)
                  in addr \<in> set (ia_lookup_host ips target))"

definition candidate_matches :: "'ip ip_api \<Rightarrow> sip_api \<Rightarrow> string \<Rightarrow> 'ip \<Rightarrow> bool" where
  "candidate_matches ips api candidate addr =
     (let trimmed = trim_matches ''<>'' (trim candidate)
      in if trimmed = [] then False
         else case parse_literal ips trimmed addr of
                Some b \<Rightarrow> b
              | None \<Rightarrow>
                  (case sa_parse_uri api trimmed of
                     Some uri \<Rightarrow> host_matches ips (uri_host uri) addr
                   | None \<Rightarrow>
                       (case split_host_port trimmed of
                          Some (host, _) \<Rightarrow> host_matches ips host addr
                        | None \<Rightarrow> host_matches ips trimmed addr)))"

definition matches_inbound_ip :: "'ip ip_api \<Rightarrow> sip_api \<Rightarrow> trunk_config \<Rightarrow> 'ip \<Rightarrow> bool" where
  "matches_inbound_ip ips api trunk addr =
     (if \<exists>host \<in> set (tc_inbound_hosts trunk). candidate_matches ips api host addr then True
      else if candidate_matches ips api (tc_dest trunk) addr then True
      else case tc_backup_dest trunk of
             Some backup \<Rightarrow> candidate_matches ips api backup addr
           | None \<Rightarrow> False)"

definition resolve_transport_from_str :: "string \<Rightarrow> transport option" where
  "resolve_transport_from_str s =
     (let l = to_lowercase s
      in if l = ''udp'' then Some Udp
         else if l = ''tcp'' then Some Tcp
         else if l = ''tls'' then Some Tls
         else if l = ''ws'' then Some Ws
         else if l = ''wss'' then Some Wss
         else None)"

text \<open>The scan of a \<^verbatim>\<open>Via\<close> value: the entry read so far (reversed), then the two flags.\<close>

fun via_scan :: "string \<Rightarrow> string \<Rightarrow> bool \<Rightarrow> bool \<Rightarrow> string list" where
  "via_scan [] cur in_quotes escaped =
     (let last = trim (rev cur) in if last = [] then [] else [last])"
| "via_scan (ch # rest) cur in_quotes escaped =
     (if escaped then via_scan rest (ch # cur) in_quotes False
      else if ch = CHR 0x5C \<and> in_quotes then via_scan rest (ch # cur) in_quotes True
      else if ch = CHR 0x22 then via_scan rest (ch # cur) (\<not> in_quotes) False
      else if ch = CHR '','' \<and> \<not> in_quotes then trim (rev cur) # via_scan rest [] in_quotes False
      else via_scan rest (ch # cur) in_quotes False)"

definition split_via_values :: "string \<Rightarrow> string list" where
  "split_via_values raw = (let r = trim raw in if r = [] then [] else via_scan r [] False False)"

definition replace_char :: "char \<Rightarrow> string \<Rightarrow> string \<Rightarrow> string" where
  "replace_char c t s = concat (map (\<lambda>x. if x = c then t else [x]) s)"

definition escape_sip_quoted :: "string \<Rightarrow> string" where
  "escape_sip_quoted input =
     replace_char CHR 0x22 [CHR 0x5C, CHR 0x22] (replace_char CHR 0x5C [CHR 0x5C, CHR 0x5C] input)"

text \<open>\<^verbatim>\<open>parse_server_uri\<close> of \<^verbatim>\<open>src/src/proxy/trunk_registrar.rs\<close>.\<close>

definition parse_server_uri :: "sip_api \<Rightarrow> string \<Rightarrow> sip_uri option" where
  "parse_server_uri api dest =
     (let trimmed = trim_matches ''<>'' (trim dest)
      in sa_parse_uri api
           (if starts_with trimmed ''sip:'' \<or> starts_with trimmed ''sips:'' then trimmed
            else ''sip:'' @ trimmed))"

text \<open>\<^verbatim>\<open>AmdConfig::overlay\<close>: the set fields and parameters of the argument win.\<close>

definition amd_overlay :: "amd_config \<Rightarrow> amd_config \<Rightarrow> amd_config" where
  "amd_overlay self higher =
     \<lparr>amd_enabled = or_else (amd_enabled higher) (amd_enabled self),
      amd_engine = or_else (amd_engine higher) (amd_engine self),
      amd_timeout_secs = or_else (amd_timeout_secs higher) (amd_timeout_secs self),
      amd_max_greeting_ms = or_else (amd_max_greeting_ms higher) (amd_max_greeting_ms self),
      amd_detect_beep = or_else (amd_detect_beep higher) (amd_detect_beep self),
      amd_params = fold (\<lambda>(k, v). hm_insert k v) (amd_params higher) (amd_params self)\<rparr>"

section \<open>Via values\<close>

text \<open>A value that the scan does not cut: no comma outside quotes, and its quotes closed.\<close>

fun unsplit :: "string \<Rightarrow> bool \<Rightarrow> bool \<Rightarrow> bool" where
  "unsplit [] in_quotes escaped \<longleftrightarrow> \<not> in_quotes \<and> \<not> escaped"
| "unsplit (ch # rest) in_quotes escaped \<longleftrightarrow>
     (if escaped then unsplit rest in_quotes False
      else if ch = CHR 0x5C \<and> in_quotes then unsplit rest in_quotes True
      else if ch = CHR 0x22 then unsplit rest (\<not> in_quotes) False
      else if ch = CHR '','' \<and> \<not> in_quotes then False
      else unsplit rest in_quotes False)"

definition via_value :: "string \<Rightarrow> bool" where
  "via_value v \<longleftrightarrow> v \<noteq> [] \<and> trim v = v \<and> unsplit v False False"

fun via_join :: "string list \<Rightarrow> string" where
  "via_join [] = []"
| "via_join [v] = v"
| "via_join (v # vs) = v @ '', '' @ via_join vs"

lemma via_scan_unsplit:
  "unsplit v q e \<Longrightarrow> via_scan (v @ rest) cur q e = via_scan rest (rev v @ cur) False False"
  by (induction v q e arbitrary: cur rule: unsplit.induct) (auto split: if_splits)

lemma trim_space: "trim (CHR '' '' # s) = trim s"
  by (simp add: trim_def trim_start_def is_white_def code_def)

lemma via_scan_join:
  assumes "vs \<noteq> []" "\<forall>v \<in> set vs. via_value v" "cur = [] \<or> cur = '' ''"
  shows "via_scan (via_join vs) cur False False = vs"
  using assms
proof (induction vs arbitrary: cur rule: via_join.induct)
  case (2 v)
  then show ?case using via_scan_unsplit [of v False False "[]"]
    by (auto simp: via_value_def trim_space Let_def)
next
  case (3 v w vs)
  then have "via_scan (via_join (w # vs)) '' '' False False = w # vs" by simp
  moreover have "trim (rev cur @ v) = v" using 3 by (auto simp: via_value_def trim_space)
  moreover have "unsplit v False False" using 3 by (simp add: via_value_def)
  from via_scan_unsplit [OF this, of "'', '' @ via_join (w # vs)" cur]
  have "via_scan (via_join (v # w # vs)) cur False False
      = trim (rev cur @ v) # via_scan (via_join (w # vs)) '' '' False False"
    by (simp del: via_join.simps(3) add: via_join.simps(3) [of v w vs])
  ultimately show ?case by simp
qed simp

lemma via_join_trim:
  assumes "vs \<noteq> []" "\<forall>v \<in> set vs. via_value v"
  shows "via_join vs \<noteq> [] \<and> \<not> is_white (hd (via_join vs)) \<and> \<not> is_white (last (via_join vs))"
  using assms
  by (induction vs rule: via_join.induct) (auto simp: via_value_def trim_eq_iff)

text \<open>Via values written in one header field, separated by commas, are read back one by one,
  in order; a comma inside a quoted string, with escapes, does not separate.\<close>

theorem split_via_values_join:
  assumes "\<forall>v \<in> set vs. via_value v"
  shows "split_via_values (via_join vs) = vs"
proof (cases "vs = []")
  case True
  then show ?thesis by (simp add: split_via_values_def trim_def trim_start_def trim_end_def)
next
  case False
  with via_join_trim [OF False assms] have "trim (via_join vs) = via_join vs" "via_join vs \<noteq> []"
    by (simp_all add: trim_eq_iff)
  with via_scan_join [OF False assms] show ?thesis by (simp add: split_via_values_def)
qed

section \<open>Quoted strings\<close>

text \<open>How a SIP quoted string is read: up to the first quote that no backslash precedes.\<close>

fun read_quoted :: "string \<Rightarrow> (string \<times> string) option" where
  "read_quoted [] = None"
| "read_quoted (c # s) =
     (if c = CHR 0x22 then Some ([], s)
      else if c = CHR 0x5C
      then (case s of [] \<Rightarrow> None | d # s' \<Rightarrow> map_option (\<lambda>(a, b). (d # a, b)) (read_quoted s'))
      else map_option (\<lambda>(a, b). (c # a, b)) (read_quoted s))"

lemma escape_simps [simp]:
  "escape_sip_quoted [] = []"
  "escape_sip_quoted (c # s) =
     (if c = CHR 0x22 \<or> c = CHR 0x5C then [CHR 0x5C, c] else [c]) @ escape_sip_quoted s"
  by (auto simp: escape_sip_quoted_def replace_char_def)

text \<open>Escaping makes any text safe between quotes: a reader of the quoted string recovers
  exactly the text and stops at the closing quote, so no text can end the string early.\<close>

theorem read_quoted_escape:
  "read_quoted (escape_sip_quoted s @ CHR 0x22 # rest) = Some (s, rest)"
  by (induction s) auto

lemma or_else_assoc: "or_else (or_else a b) c = or_else a (or_else b c)"
  by (cases a) simp_all

section \<open>Ringback and AMD layers\<close>

text \<open>Layers of failure tones compose: merging is associative, and the tone of a status code
  comes from the topmost layer that sets one for it.\<close>

theorem ringback_layers:
  "ringback_merge_from (ringback_merge_from a b) c = ringback_merge_from a (ringback_merge_from b c) \<and>
   ringback_for_status (ringback_merge_from a b) status
     = or_else (ringback_for_status b status) (ringback_for_status a status)"
  by (simp add: ringback_merge_from_def ringback_for_status_def or_else_assoc)

lemma split_host_port_v6:
  assumes "CHR '']'' \<notin> set h"
  shows "split_host_port (''['' @ h @ '']:'' @ p) = Some (h, p)"
proof -
  have "split_once CHR '']'' (''['' @ h @ '']:'' @ p) = Some (CHR ''['' # h, CHR '':'' # p)"
    using split_once_append [of "CHR '']''" "CHR ''['' # h" "CHR '':'' # p"] assms by simp
  then show ?thesis by (simp add: split_host_port_def starts_with_def)
qed

lemma split_host_port_v4:
  assumes "CHR '':'' \<notin> set h" "CHR '']'' \<notin> set h" "CHR '':'' \<notin> set p" "CHR '']'' \<notin> set p"
  shows "split_host_port (h @ '':'' @ p) = Some (h, p)"
proof -
  have "split_once CHR '']'' (h @ '':'' @ p) = None" using assms by (simp add: split_once_None_iff)
  moreover have "rsplit_once CHR '':'' (h @ '':'' @ p) = Some (h, p)"
    using split_once_append [of "CHR '':''" "rev p" "rev h"] assms by (simp add: rsplit_once_def)
  ultimately show ?thesis using assms by (simp add: split_host_port_def str_contains_def)
qed

lemma split_host_port_bare_v6:
  assumes "CHR '']'' \<notin> set (a @ b @ c)" "s = a @ '':'' @ b @ '':'' @ c"
  shows "split_host_port s = None"
proof -
  have "split_once CHR '']'' s = None" using assms by (simp add: split_once_None_iff)
  moreover have "\<exists>x y. rsplit_once CHR '':'' s = Some (x, y) \<and> CHR '':'' \<in> set x"
  proof -
    obtain y x where e: "split_once CHR '':'' (rev s) = Some (y, x)"
      using assms(2) split_once_None_iff [of "CHR '':''" "rev s"] by (cases "split_once CHR '':'' (rev s)") auto
    have "count_list (rev s) CHR '':'' \<ge> 2" using assms(2) by simp
    moreover have "rev s = y @ CHR '':'' # x" "CHR '':'' \<notin> set y" using split_once_Some [OF e] by auto
    ultimately have "CHR '':'' \<in> set x" by (cases "CHR '':'' \<in> set x") (auto simp: count_list_0_iff)
    with e show ?thesis by (auto simp: rsplit_once_def)
  qed
  ultimately show ?thesis by (auto simp: split_host_port_def str_contains_def)
qed

text \<open>A host with a port is cut at the port: an IPv6 literal in brackets keeps its colons, a
  plain host is cut at its only colon, and a bare IPv6 literal is not cut at all.\<close>

theorem split_host_port_forms:
  assumes "CHR '']'' \<notin> set (h @ p)" "CHR '':'' \<notin> set (h @ p)"
    and "CHR '']'' \<notin> set (a @ b @ c)"
  shows "split_host_port (h @ '':'' @ p) = Some (h, p) \<and>
    split_host_port (''['' @ a @ '']:'' @ p) = Some (a, p) \<and>
    split_host_port (a @ '':'' @ b @ '':'' @ c) = None"
  using split_host_port_v4 [of h p] split_host_port_v6 [of a p]
    split_host_port_bare_v6 [OF assms(3) refl] assms by simp

end
