(* ===== verification/Route_Rewrite.thy ===== *)
theory Route_Rewrite
  imports Route_Functions "HOL-Library.List_Lexorder" "HOL-Library.Char_ord"
begin

text \<open>
  Matching a rule and rewriting the INVITE, from \<^verbatim>\<open>src/src/proxy/routing/matcher.rs\<close>
  (\<^verbatim>\<open>matches_rule\<close> to \<^verbatim>\<open>update_uri_host\<close>). The compiled-regex cache is transparent: a pattern's
  verdict is the one of the regular-expression engine, the parameter \<open>regex_api\<close>.
\<close>

section \<open>Errors of a match\<close>

datatype route_error =
    InvalidRegex string
  | UnclosedPlaceholder string
  | EmptyPlaceholder string
  | InvalidIndex string string
  | InvalidHost string
  | SlicePanic
  | NoTrunks
  | InvalidTrunkDest string
  | InvalidOutboundProxy string
  | PolicyFailed policy_error
  | QueueRefMissing
  | NoResourceLookup string
  | QueueLoadFailed string
  | QueueNotFound string
  | QueuePlanInvalid queue_error
  | QueueNeedsDest
  | AppMissing

section \<open>Matching\<close>

definition regex_special_chars :: string where
  "regex_special_chars = ''^$*+?[('' @ [CHR 0x5C]"

definition matches_pattern :: "regex_api \<Rightarrow> string \<Rightarrow> string \<Rightarrow> route_error + bool" where
  "matches_pattern rx pattern v =
     (if \<forall>c \<in> set regex_special_chars. \<not> str_contains c pattern then Inr (pattern = v)
      else case rx_is_match rx pattern v of
             None \<Rightarrow> Inl (InvalidRegex pattern)
           | Some b \<Rightarrow> Inr b)"

fun get_header_value :: "sip_header list \<Rightarrow> string \<Rightarrow> string option" where
  "get_header_value [] name = None"
| "get_header_value (HOther n v # hs) name =
     (if to_lowercase n = to_lowercase name then Some v else get_header_value hs name)"
| "get_header_value (HUserAgent v # hs) name =
     (if to_lowercase name = ''user-agent'' then Some v else get_header_value hs name)"
| "get_header_value (HContact v # hs) name =
     (if to_lowercase name = ''contact'' then Some v else get_header_value hs name)"
| "get_header_value (HStandard n v # hs) name = get_header_value hs name"

record match_context =
  cx_headers :: "sip_header list"
  cx_caller_user :: string
  cx_caller_host :: string
  cx_callee_user :: string
  cx_callee_host :: string
  cx_request_user :: string
  cx_request_host :: string

text \<open>The conditions of a rule as the list of field name, pattern and value they compare, in the
  order of the source; a header condition whose header is missing has no value.\<close>

definition field_conditions :: "match_conditions \<Rightarrow> match_context \<Rightarrow>
    (string \<times> string option \<times> string) list" where
  "field_conditions mc cx =
     [(''from.user'', mc_from_user mc, cx_caller_user cx),
      (''from.host'', mc_from_host mc, cx_caller_host cx),
      (''to.user'', mc_to_user mc, cx_callee_user cx),
      (''to.host'', mc_to_host mc, cx_callee_host cx),
      (''request_uri.user'', mc_request_uri_user mc, cx_request_user cx),
      (''request_uri.host'', mc_request_uri_host mc, cx_request_host cx),
      (''caller'', mc_caller mc, cx_caller_user cx @ ''@'' @ cx_caller_host cx),
      (''callee'', mc_callee mc, cx_callee_user cx @ ''@'' @ cx_callee_host cx)]"

fun match_fields :: "regex_api \<Rightarrow> (string \<times> string option \<times> string) list \<Rightarrow> route_error + bool" where
  "match_fields rx [] = Inr True"
| "match_fields rx ((field, None, v) # fs) = match_fields rx fs"
| "match_fields rx ((field, Some pattern, v) # fs) =
     (case matches_pattern rx pattern v of
        Inl e \<Rightarrow> Inl e
      | Inr False \<Rightarrow> Inr False
      | Inr True \<Rightarrow> match_fields rx fs)"

fun match_headers :: "regex_api \<Rightarrow> sip_header list \<Rightarrow> (string \<times> string) list \<Rightarrow> route_error + bool" where
  "match_headers rx hs [] = Inr True"
| "match_headers rx hs ((key, pattern) # cs) =
     (case strip_prefix ''header.'' key of
        None \<Rightarrow> match_headers rx hs cs
      | Some name \<Rightarrow>
          (case get_header_value hs name of
             None \<Rightarrow> Inr False
           | Some v \<Rightarrow>
               (case matches_pattern rx pattern v of
                  Inl e \<Rightarrow> Inl e
                | Inr False \<Rightarrow> Inr False
                | Inr True \<Rightarrow> match_headers rx hs cs)))"

definition matches_rule :: "regex_api \<Rightarrow> route_rule \<Rightarrow> match_context \<Rightarrow> route_error + bool" where
  "matches_rule rx rule cx =
     (case match_fields rx (field_conditions (rl_match_conditions rule) cx) of
        Inl e \<Rightarrow> Inl e
      | Inr False \<Rightarrow> Inr False
      | Inr True \<Rightarrow> match_headers rx (cx_headers cx) (mc_headers (rl_match_conditions rule)))"

section \<open>Capture groups\<close>

type_synonym captures = "(string, string list) hmap"

definition extract_regex_captures :: "regex_api \<Rightarrow> string \<Rightarrow> string \<Rightarrow> route_error + string list option" where
  "extract_regex_captures rx pattern v =
     (if pattern = [] then Inr None
      else case rx_captures rx pattern v of
             None \<Rightarrow> Inl (InvalidRegex pattern)
           | Some groups \<Rightarrow> Inr groups)"

definition collect_field_capture :: "regex_api \<Rightarrow> captures \<Rightarrow> string \<Rightarrow> string option \<Rightarrow> string \<Rightarrow>
    route_error + captures" where
  "collect_field_capture rx captures key pattern v =
     (case pattern of
        None \<Rightarrow> Inr captures
      | Some p \<Rightarrow>
          (case extract_regex_captures rx p v of
             Inl e \<Rightarrow> Inl e
           | Inr None \<Rightarrow> Inr captures
           | Inr (Some groups) \<Rightarrow> Inr (hm_insert key groups captures)))"

fun collect_fields :: "regex_api \<Rightarrow> (string \<times> string option \<times> string) list \<Rightarrow> captures \<Rightarrow>
    route_error + captures" where
  "collect_fields rx [] captures = Inr captures"
| "collect_fields rx ((key, pattern, v) # fs) captures =
     (case collect_field_capture rx captures key pattern v of
        Inl e \<Rightarrow> Inl e
      | Inr captures' \<Rightarrow> collect_fields rx fs captures')"

fun collect_headers :: "regex_api \<Rightarrow> sip_header list \<Rightarrow> (string \<times> string) list \<Rightarrow> captures \<Rightarrow>
    route_error + captures" where
  "collect_headers rx hs [] captures = Inr captures"
| "collect_headers rx hs ((key, pattern) # cs) captures =
     (case (case strip_prefix ''header.'' key of
              None \<Rightarrow> None
            | Some name \<Rightarrow> get_header_value hs name) of
        None \<Rightarrow> collect_headers rx hs cs captures
      | Some v \<Rightarrow>
          (case collect_field_capture rx captures key (Some pattern) v of
             Inl e \<Rightarrow> Inl e
           | Inr captures' \<Rightarrow> collect_headers rx hs cs captures'))"

definition collect_match_captures :: "regex_api \<Rightarrow> route_rule \<Rightarrow> match_context \<Rightarrow>
    route_error + captures" where
  "collect_match_captures rx rule cx =
     (case collect_fields rx (field_conditions (rl_match_conditions rule) cx) [] of
        Inl e \<Rightarrow> Inl e
      | Inr captures \<Rightarrow>
          collect_headers rx (cx_headers cx) (mc_headers (rl_match_conditions rule)) captures)"

section \<open>Rewriting\<close>

text \<open>\<^verbatim>\<open>extract_capture_group\<close>: the first pattern, \<open>^(\d+)$\<close>, yields the whole text for group one;
  the second, \<open>^[^\d]*(\d+)[^\d]*$\<close>, the only run of digits. Both have one group.\<close>

definition extract_capture_group :: "regex_api \<Rightarrow> string \<Rightarrow> nat \<Rightarrow> string option" where
  "extract_capture_group rx original group_num =
     (if group_num = 0 then Some original
      else
        let group = (\<lambda>pattern. case rx_captures rx pattern original of
                       Some (Some groups) \<Rightarrow>
                         if group_num \<le> length groups \<and> group_num < length groups
                         then Some (groups ! group_num) else None
                     | _ \<Rightarrow> None);
            digits = [CHR 0x5C, CHR ''d''];
            all_digits = ''^('' @ digits @ ''+)$'';
            one_run = ''^[^'' @ digits @ '']*('' @ digits @ ''+)[^'' @ digits @ '']*$'';
            leading = takeWhile is_ascii_digit original
        in case group all_digits of
             Some g \<Rightarrow> Some g
           | None \<Rightarrow>
               if (case rx_captures rx all_digits original of Some (Some _) \<Rightarrow> True | _ \<Rightarrow> False) \<and>
                  group_num = 1 \<and> leading \<noteq> []
               then Some leading
               else group one_run)"

text \<open>The scan of a rewrite template. \<open>placeholder\<close> reads up to the closing brace.\<close>

definition placeholder :: "string \<Rightarrow> (string \<times> string) option" where
  "placeholder s = split_once CHR ''}'' s"

definition capture_value :: "regex_api \<Rightarrow> string \<Rightarrow> string list option \<Rightarrow> nat \<Rightarrow> string" where
  "capture_value rx original groups i =
     (case (case groups of Some gs \<Rightarrow> if i < length gs then Some (gs ! i) else None | None \<Rightarrow> None) of
        Some g \<Rightarrow> g
      | None \<Rightarrow>
          (case (if i = 0 then Some original else extract_capture_group rx original i) of
             Some g \<Rightarrow> g
           | None \<Rightarrow> original))"

function render_template :: "regex_api \<Rightarrow> string \<Rightarrow> string \<Rightarrow> string list option \<Rightarrow> string \<Rightarrow>
    route_error + string" where
  "render_template rx pattern original groups [] = Inr []"
| "render_template rx pattern original groups (ch # rest) =
     (if ch = CHR ''{''
      then case placeholder rest of
             None \<Rightarrow> Inl (UnclosedPlaceholder pattern)
           | Some (buffer, rest') \<Rightarrow>
               if buffer = [] then Inl (EmptyPlaceholder pattern)
               else case parse_uint (2 ^ 64) buffer of
                      None \<Rightarrow> Inl (InvalidIndex buffer pattern)
                    | Some i \<Rightarrow>
                        (case render_template rx pattern original groups rest' of
                           Inl e \<Rightarrow> Inl e
                         | Inr out \<Rightarrow> Inr (capture_value rx original groups i @ out))
      else case render_template rx pattern original groups rest of
             Inl e \<Rightarrow> Inl e
           | Inr out \<Rightarrow> Inr (ch # out))"
  by pat_completeness auto
termination
  by (relation "measure (\<lambda>(rx, p, original, gs, s). length s)")
    (auto simp: placeholder_def dest!: split_once_Some)

definition apply_rewrite_pattern_with_match :: "regex_api \<Rightarrow> string \<Rightarrow> string \<Rightarrow> string list option \<Rightarrow>
    route_error + string" where
  "apply_rewrite_pattern_with_match rx pattern original groups =
     (if \<not> str_contains CHR ''{'' pattern then Inr pattern
      else render_template rx pattern original groups pattern)"

text \<open>\<^verbatim>\<open>apply_rewrite_pattern\<close>: the slice between the first braces panics when the closing one
  comes first.\<close>

definition find_char :: "char \<Rightarrow> string \<Rightarrow> nat" where
  "find_char c s = length (takeWhile (\<lambda>x. x \<noteq> c) s)"

definition apply_rewrite_pattern :: "string \<Rightarrow> string \<Rightarrow> route_error + string" where
  "apply_rewrite_pattern pattern original =
     (if str_contains CHR ''{'' pattern \<and> str_contains CHR ''}'' pattern
      then let start = find_char CHR ''{'' pattern;
               end' = find_char CHR ''}'' pattern
           in if end' < start + 1 then Inl SlicePanic
              else Inr (take start pattern @ original @ drop (end' + 1) pattern)
      else Inr pattern)"

definition update_uri_user :: "sip_uri \<Rightarrow> string \<Rightarrow> sip_uri" where
  "update_uri_user uri new_user =
     uri\<lparr>uri_auth := Some \<lparr>au_user = new_user,
           au_password = Option.bind (uri_auth uri) au_password\<rparr>\<rparr>"

definition update_uri_host :: "sip_api \<Rightarrow> sip_uri \<Rightarrow> string \<Rightarrow> route_error + sip_uri" where
  "update_uri_host api uri new_host =
     (case sa_parse_hostport api new_host of
        None \<Rightarrow> Inl (InvalidHost new_host)
      | Some hp \<Rightarrow> Inr (uri\<lparr>uri_host_with_port := hp\<rparr>))"

definition rewrite_user :: "regex_api \<Rightarrow> string option \<Rightarrow> captures \<Rightarrow> string \<Rightarrow> sip_uri \<Rightarrow>
    route_error + sip_uri" where
  "rewrite_user rx pattern captures key uri =
     (case pattern of
        None \<Rightarrow> Inr uri
      | Some p \<Rightarrow>
          (case apply_rewrite_pattern_with_match rx p (uri_user uri) (hm_get captures key) of
             Inl e \<Rightarrow> Inl e
           | Inr new_user \<Rightarrow> Inr (update_uri_user uri new_user)))"

definition rewrite_host :: "regex_api \<Rightarrow> sip_api \<Rightarrow> string option \<Rightarrow> captures \<Rightarrow> string \<Rightarrow> sip_uri \<Rightarrow>
    route_error + sip_uri" where
  "rewrite_host rx api pattern captures key uri =
     (case pattern of
        None \<Rightarrow> Inr uri
      | Some p \<Rightarrow>
          (case apply_rewrite_pattern_with_match rx p (uri_host uri) (hm_get captures key) of
             Inl e \<Rightarrow> Inl e
           | Inr new_host \<Rightarrow> update_uri_host api uri new_host))"

definition rewrite_uri :: "regex_api \<Rightarrow> sip_api \<Rightarrow> string option \<Rightarrow> string option \<Rightarrow> captures \<Rightarrow>
    string \<Rightarrow> string \<Rightarrow> sip_uri \<Rightarrow> route_error + sip_uri" where
  "rewrite_uri rx api user_pattern host_pattern captures user_key host_key uri =
     (case rewrite_user rx user_pattern captures user_key uri of
        Inl e \<Rightarrow> Inl e
      | Inr uri' \<Rightarrow> rewrite_host rx api host_pattern captures host_key uri')"

fun rewrite_headers :: "(string \<times> string) list \<Rightarrow> sip_header list option \<Rightarrow>
    route_error + sip_header list option" where
  "rewrite_headers [] headers = Inr headers"
| "rewrite_headers ((key, pattern) # rs) headers =
     (case strip_prefix ''header.'' key of
        None \<Rightarrow> rewrite_headers rs headers
      | Some name \<Rightarrow>
          (case apply_rewrite_pattern pattern [] of
             Inl e \<Rightarrow> Inl e
           | Inr v \<Rightarrow>
               rewrite_headers rs (Some ((case headers of None \<Rightarrow> [] | Some hs \<Rightarrow> hs) @ [HOther name v]))))"

definition apply_rewrite_rules :: "regex_api \<Rightarrow> sip_api \<Rightarrow> rewrite_rules \<Rightarrow> captures \<Rightarrow>
    invite_option \<Rightarrow> route_error + invite_option" where
  "apply_rewrite_rules rx api rw captures option =
     (case rewrite_uri rx api (rr_from_user rw) (rr_from_host rw) captures ''from.user'' ''from.host''
             (io_caller option) of
        Inl e \<Rightarrow> Inl e
      | Inr caller \<Rightarrow>
          (case rewrite_uri rx api (rr_to_user rw) (rr_to_host rw) captures ''to.user'' ''to.host''
                  (io_callee option) of
             Inl e \<Rightarrow> Inl e
           | Inr callee \<Rightarrow>
               (case rewrite_headers (rr_headers rw) (io_headers option) of
                  Inl e \<Rightarrow> Inl e
                | Inr headers \<Rightarrow>
                    Inr (option\<lparr>io_caller := caller, io_callee := callee, io_headers := headers\<rparr>))))"

definition describe_rewrite_ops :: "rewrite_rules \<Rightarrow> string list" where
  "describe_rewrite_ops rw =
     (let push = (\<lambda>label v. case v of Some x \<Rightarrow> if x \<noteq> [] then [label] else [] | None \<Rightarrow> [])
      in push ''from.user'' (rr_from_user rw) @ push ''from.host'' (rr_from_host rw) @
         push ''to.user'' (rr_to_user rw) @ push ''to.host'' (rr_to_host rw) @
         push ''to.port'' (rr_to_port rw) @ push ''request_uri.user'' (rr_request_uri_user rw) @
         push ''request_uri.host'' (rr_request_uri_host rw) @
         push ''request_uri.port'' (rr_request_uri_port rw) @
         sort (map fst (rr_headers rw)))"

section \<open>Rewrite templates\<close>

datatype template_piece = Literal string | Group nat

fun piece_text :: "template_piece \<Rightarrow> string" where
  "piece_text (Literal s) = s"
| "piece_text (Group i) = ''{'' @ nat_to_string i @ ''}''"

fun piece_ok :: "template_piece \<Rightarrow> bool" where
  "piece_ok (Literal s) \<longleftrightarrow> CHR ''{'' \<notin> set s"
| "piece_ok (Group i) \<longleftrightarrow> i < 2 ^ 64"

fun piece_value :: "regex_api \<Rightarrow> string \<Rightarrow> string list option \<Rightarrow> template_piece \<Rightarrow> string" where
  "piece_value rx original groups (Literal s) = s"
| "piece_value rx original groups (Group i) = capture_value rx original groups i"

lemma render_literal:
  "CHR ''{'' \<notin> set s \<Longrightarrow> render_template rx p original groups (s @ rest) =
     (case render_template rx p original groups rest of Inl e \<Rightarrow> Inl e | Inr out \<Rightarrow> Inr (s @ out))"
  by (induction s) (auto split: sum.split)

lemma placeholder_nat: "placeholder (nat_to_string i @ CHR ''}'' # rest) = Some (nat_to_string i, rest)"
proof -
  have "CHR ''}'' \<notin> set (nat_to_string i)"
    using nat_to_string_digits [of i] by (auto simp: is_ascii_digit_def code_def)
  then show ?thesis by (simp add: placeholder_def split_once_append)
qed

lemma render_pieces:
  "\<forall>x \<in> set ps. piece_ok x \<Longrightarrow>
     render_template rx p original groups (concat (map piece_text ps))
       = Inr (concat (map (piece_value rx original groups) ps))"
proof (induction ps)
  case (Cons x ps)
  then show ?case
    by (cases x) (simp_all add: render_literal placeholder_nat nat_to_string_nonempty
        parse_uint_nat_to_string)
qed simp


definition demo_regex_api :: regex_api where
  "demo_regex_api = \<lparr>rx_is_match = (\<lambda>p v. Some (p = v)), rx_captures = (\<lambda>p v. Some None)\<rparr>"


text \<open>The header template is cut between the first opening and the first closing brace without
  comparing their positions: a closing brace before the first opening one is a slice with its end
  before its start, and the match panics.\<close>

theorem header_template_panics:
  assumes "CHR ''{'' \<notin> set a" "CHR ''}'' \<notin> set a" "CHR ''{'' \<in> set b"
  shows "apply_rewrite_pattern (a @ CHR ''}'' # b) original = Inl SlicePanic"
proof -
  have "find_char CHR ''}'' (a @ CHR ''}'' # b) = length a"
    using assms(2) by (simp add: find_char_def takeWhile_append)
  moreover have "length a < find_char CHR ''{'' (a @ CHR ''}'' # b)"
    using assms(1) by (auto simp: find_char_def takeWhile_append)
  ultimately show ?thesis using assms(3) by (simp add: apply_rewrite_pattern_def str_contains_def Let_def)
qed

end
