(* ===== verification/Trunk_Select.thy ===== *)
theory Trunk_Select
  imports Route_Rewrite
begin

text \<open>
  Choosing the outbound trunk of a call: \<^verbatim>\<open>select_trunk\<close> and \<^verbatim>\<open>select_trunk_weighted\<close> of
  \<^verbatim>\<open>src/src/proxy/routing/matcher.rs\<close> with the round-robin counters of \<^verbatim>\<open>RoutingState\<close>
  (\<^verbatim>\<open>src/src/call/mod.rs\<close>). The random generator, the hash function and the debug printer of a
  destination are parameters.
\<close>

record select_env =
  se_random :: "nat \<Rightarrow> nat"
  se_hash :: "string \<Rightarrow> u64"
  se_debug :: "dest_config \<Rightarrow> string"

text \<open>\<^verbatim>\<open>random_range(0..n)\<close> is below \<open>n\<close>.\<close>

definition select_env_ok :: "select_env \<Rightarrow> bool" where
  "select_env_ok env \<longleftrightarrow> (\<forall>n. 0 < n \<longrightarrow> se_random env n < n)"

type_synonym rr_counters = "(string, u64) hmap"

definition next_round_robin_index :: "string \<Rightarrow> nat \<Rightarrow> rr_counters \<Rightarrow> nat \<times> rr_counters" where
  "next_round_robin_index key trunk_count counters =
     (if trunk_count = 0 then (0, counters)
      else let entry = (case hm_get counters key of None \<Rightarrow> 0 | Some n \<Rightarrow> n)
           in (unat entry mod trunk_count, hm_insert key (entry + 1) counters))"

definition trunk_weight :: "(string, trunk_config) hmap option \<Rightarrow> string \<Rightarrow> u32" where
  "trunk_weight configs name =
     (case Option.bind (Option.bind configs (\<lambda>m. hm_get m name)) tc_weight of
        None \<Rightarrow> 100
      | Some w \<Rightarrow> w)"

definition total_weight :: "u32 list \<Rightarrow> u32" where
  "total_weight ws = foldl sat_add 0 ws"

fun pick_weighted :: "nat \<Rightarrow> u32 \<Rightarrow> string \<Rightarrow> (string \<times> u32) list \<Rightarrow> string" where
  "pick_weighted random_val cumulative fallback [] = fallback"
| "pick_weighted random_val cumulative fallback ((name, w) # rest) =
     (let cumulative' = sat_add cumulative w
      in if random_val < unat cumulative' then name
         else pick_weighted random_val cumulative' fallback rest)"

definition select_trunk_weighted :: "select_env \<Rightarrow> string list \<Rightarrow> (string, trunk_config) hmap option \<Rightarrow>
    route_error + string" where
  "select_trunk_weighted env trunks configs =
     (if trunks = [] then Inl NoTrunks
      else if length trunks = 1 then Inr (trunks ! 0)
      else
        let weights = map (trunk_weight configs) trunks;
            total = total_weight weights
        in if total = 0 then Inr (trunks ! se_random env (length trunks))
           else Inr (pick_weighted (se_random env (unat total)) 0 (trunks ! (length trunks - 1))
                       (zip trunks weights)))"

definition dest_trunks :: "dest_config \<Rightarrow> string list" where
  "dest_trunks dest = (case dest of DestSingle t \<Rightarrow> [t] | DestMultiple ts \<Rightarrow> ts)"

definition hash_input :: "sip_api \<Rightarrow> string option \<Rightarrow> invite_option \<Rightarrow> string" where
  "hash_input api hash_key option =
     (case hash_key of
        Some key \<Rightarrow>
          if key = ''from.user'' then uri_user (io_caller option)
          else if key = ''to.user'' then uri_user (io_callee option)
          else if key = ''call-id'' then ''default''
          else key
      | None \<Rightarrow> sa_uri_str api (io_caller option))"

definition select_trunk :: "select_env \<Rightarrow> sip_api \<Rightarrow> dest_config \<Rightarrow> string \<Rightarrow> string option \<Rightarrow>
    invite_option \<Rightarrow> (string, trunk_config) hmap option \<Rightarrow> rr_counters \<Rightarrow>
    (route_error + string) \<times> rr_counters" where
  "select_trunk env api dest select_method hash_key option configs counters =
     (let trunks = dest_trunks dest
      in if trunks = [] then (Inl NoTrunks, counters)
         else if length trunks = 1 then (Inr (trunks ! 0), counters)
         else if select_method = ''random''
         then (Inr (trunks ! se_random env (length trunks)), counters)
         else if select_method = ''hash''
         then (Inr (trunks ! (unat (se_hash env (hash_input api hash_key option)) mod length trunks)),
               counters)
         else if select_method = ''weighted''
         then (select_trunk_weighted env trunks configs, counters)
         else case next_round_robin_index (se_debug env dest) (length trunks) counters of
                (index, counters') \<Rightarrow> (Inr (trunks ! index), counters'))"

section \<open>Round robin\<close>

fun rr_run :: "string \<Rightarrow> nat \<Rightarrow> nat \<Rightarrow> rr_counters \<Rightarrow> nat list" where
  "rr_run key n 0 counters = []"
| "rr_run key n (Suc m) counters =
     (case next_round_robin_index key n counters of (i, counters') \<Rightarrow> i # rr_run key n m counters')"

definition rr_counter :: "rr_counters \<Rightarrow> string \<Rightarrow> u64" where
  "rr_counter counters key = (case hm_get counters key of None \<Rightarrow> 0 | Some c \<Rightarrow> c)"

lemma rr_run_eq:
  assumes "0 < n" "unat (rr_counter counters key) + m < 2 ^ 64"
  shows "rr_run key n m counters
    = map (\<lambda>j. j mod n) [unat (rr_counter counters key)..<unat (rr_counter counters key) + m]"
  using assms(2)
proof (induction m arbitrary: counters)
  case (Suc m)
  let ?c = "rr_counter counters key"
  have inc: "unat (?c + 1) = Suc (unat ?c)" using Suc.prems by (subst unat_word_ariths) simp
  obtain counters' where next_: "next_round_robin_index key n counters = (unat ?c mod n, counters')"
    and c': "rr_counter counters' key = ?c + 1"
    using assms(1) by (simp add: next_round_robin_index_def rr_counter_def Let_def)
  have "rr_run key n m counters' = map (\<lambda>j. j mod n) [Suc (unat ?c)..<Suc (unat ?c) + m]"
    using Suc.IH [of counters'] Suc.prems c' inc by simp
  moreover have "[unat ?c..<unat ?c + Suc m] = unat ?c # [Suc (unat ?c)..<Suc (unat ?c) + m]"
    by (simp add: upt_conv_Cons)
  ultimately show ?case using next_ by simp
qed simp

lemma count_block:
  assumes "i < n"
  shows "count_list (map (\<lambda>j. j mod n) [s..<s + n]) i = 1"
proof (induction s)
  case 0
  have "map (\<lambda>j. j mod n) [0..<n] = [0..<n]" by (intro map_idI) simp
  moreover have "count_list [0..<n] i = 1" using assms by (induction n) (auto simp: less_Suc_eq)
  ultimately show ?case by simp
next
  case (Suc s)
  let ?f = "map (\<lambda>j. j mod n)"
  have "[s..<s + n] = s # [Suc s..<s + n]" "[Suc s..<Suc s + n] = [Suc s..<s + n] @ [s + n]"
    using assms by (simp_all add: upt_conv_Cons)
  then have "count_list (?f [Suc s..<Suc s + n]) i = count_list (?f [s..<s + n]) i" by simp
  with Suc.IH show ?case by simp
qed

lemma count_blocks:
  "i < n \<Longrightarrow> count_list (map (\<lambda>j. j mod n) [s..<s + n * k]) i = k"
proof (induction k)
  case (Suc k)
  have "[s..<s + n * Suc k] = [s..<s + n * k] @ [s + n * k..<s + n * k + n]"
    using upt_add_eq_append [of s "s + n * k" n] by (simp add: algebra_simps)
  with Suc count_block [of i n "s + n * k"] show ?case by simp
qed simp

text \<open>C33. Round robin is fair: over \<open>k\<close> times as many consecutive calls as there are trunks,
  wherever the counter stands, every trunk is chosen exactly \<open>k\<close> times.\<close>

theorem round_robin_fair:
  assumes "i < n" "unat (rr_counter counters key) + n * k < 2 ^ 64"
  shows "count_list (rr_run key n (n * k) counters) i = k"
  using rr_run_eq [of n counters key "n * k"] count_blocks [OF assms(1)] assms by simp

theorem round_robin_fair_witness:
  "count_list (rr_run ''d'' 3 (3 * 2) [(''d'', 5)]) 1 = 2"
  by (rule round_robin_fair) (simp_all add: rr_counter_def hm_get_def)

definition demo_select_env :: select_env where
  "demo_select_env = \<lparr>se_random = (\<lambda>n. n - 1), se_hash = (\<lambda>s. word_of_nat (length s)),
     se_debug = (\<lambda>d. concat (dest_trunks d))\<rparr>"

definition demo_uri :: "string \<Rightarrow> sip_uri" where
  "demo_uri user = \<lparr>uri_scheme = Some Sip, uri_auth = Some \<lparr>au_user = user, au_password = None\<rparr>,
     uri_host_with_port = \<lparr>hp_host = ''pbx'', hp_port = None\<rparr>, uri_params = []\<rparr>"

definition demo_option :: invite_option where
  "demo_option = \<lparr>io_caller = demo_uri ''100'', io_callee = demo_uri ''2000'', io_destination = None,
     io_credential = None, io_headers = None\<rparr>"

section \<open>Weights\<close>

lemma unat_foldl_sat_add:
  "unat c + sum_list (map unat ws) < 2 ^ 32 \<Longrightarrow>
     unat (foldl sat_add c ws) = unat c + sum_list (map unat (ws :: u32 list))"
proof (induction ws arbitrary: c)
  case (Cons w ws)
  then have "unat (sat_add c w) = unat c + unat w" by (simp add: unat_sat_add)
  with Cons.IH [of "sat_add c w"] Cons.prems show ?case by simp
qed simp

definition weight_of :: "string \<Rightarrow> (string \<times> u32) list \<Rightarrow> nat" where
  "weight_of t xs = sum_list (map (\<lambda>(n, w). if n = t then unat w else 0) xs)"

lemma pick_weighted_card:
  fixes c :: u32
  assumes "unat c + sum_list (map (unat \<circ> snd) xs) < 2 ^ 32"
  shows "card {v. unat c \<le> v \<and> v < unat c + sum_list (map (unat \<circ> snd) xs) \<and>
      pick_weighted v c fallback xs = t} = weight_of t xs"
  using assms
proof (induction xs arbitrary: c)
  case (Cons x xs)
  obtain n w where x: "x = (n, w)" by (cases x)
  let ?s = "sum_list (map (unat \<circ> snd) xs)"
  have c': "unat (sat_add c w) = unat c + unat w"
    using Cons.prems x by (simp add: unat_sat_add)
  let ?hi = "{v. unat c + unat w \<le> v \<and> v < unat c + unat w + ?s \<and>
    pick_weighted v (sat_add c w) fallback xs = t}"
  let ?lo = "{v. unat c \<le> v \<and> v < unat c + unat w \<and> n = t}"
  have split: "{v. unat c \<le> v \<and> v < unat c + sum_list (map (unat \<circ> snd) (x # xs)) \<and>
      pick_weighted v c fallback (x # xs) = t} = ?lo \<union> ?hi"
  proof (intro set_eqI iffI)
    fix v
    assume v: "v \<in> {v. unat c \<le> v \<and> v < unat c + sum_list (map (unat \<circ> snd) (x # xs)) \<and>
      pick_weighted v c fallback (x # xs) = t}"
    then show "v \<in> ?lo \<union> ?hi"
      using x c' by (cases "v < unat c + unat w") (simp_all add: Let_def)
  next
    fix v assume "v \<in> ?lo \<union> ?hi"
    then show "v \<in> {v. unat c \<le> v \<and> v < unat c + sum_list (map (unat \<circ> snd) (x # xs)) \<and>
      pick_weighted v c fallback (x # xs) = t}"
      using x c' by (elim UnE) (simp_all add: Let_def)
  qed
  have "card ?hi = weight_of t xs" using Cons.IH [of "sat_add c w"] Cons.prems x c' by (simp add: add_ac comp_def)
  moreover have "card ?lo = (if n = t then unat w else 0)"
  proof (cases "n = t")
    case True
    then have "?lo = {unat c..<unat c + unat w}" by auto
    with True show ?thesis by simp
  qed simp
  moreover have "finite ?lo" "finite ?hi"
    by (rule finite_subset [of _ "{..<unat c + unat w + ?s}"], auto)+
  moreover have "?lo \<inter> ?hi = {}" by fastforce
  ultimately have "card (?lo \<union> ?hi) = (if n = t then unat w else 0) + weight_of t xs"
    by (simp only: card_Un_disjoint)
  also have "\<dots> = weight_of t (x # xs)" using x by (simp add: weight_of_def)
  finally show ?case unfolding split .
qed (simp add: weight_of_def)

text \<open>C34. Weighted selection is exact: of the values the generator can draw, those that select a
  trunk number exactly the weight configured for it (one hundred by default), as long as the
  weights of the group do not saturate 32 bits. A trunk of weight zero is never selected.\<close>

theorem weighted_selection_exact:
  assumes "2 \<le> length trunks" "0 < sum_list (map (unat \<circ> trunk_weight configs) trunks)"
    and "sum_list (map (unat \<circ> trunk_weight configs) trunks) < 2 ^ 32"
  shows "card {v. v < unat (total_weight (map (trunk_weight configs) trunks)) \<and>
      select_trunk_weighted (env\<lparr>se_random := \<lambda>_. v\<rparr>) trunks configs = Inr t}
    = sum_list (map (\<lambda>n. if n = t then unat (trunk_weight configs n) else 0) trunks)"
proof -
  let ?ws = "map (trunk_weight configs) trunks" and ?xs = "zip trunks (map (trunk_weight configs) trunks)"
  have snd_: "map (unat \<circ> snd) ?xs = map (unat \<circ> trunk_weight configs) trunks"
    by (simp add: zip_map2 comp_def zip_same_conv_map)
  have total: "unat (total_weight ?ws) = sum_list (map (unat \<circ> trunk_weight configs) trunks)"
    using unat_foldl_sat_add [of 0 ?ws] assms(3) by (simp add: total_weight_def comp_def)
  then have nz: "total_weight ?ws \<noteq> 0" using assms(2) by (metis unat_0 less_irrefl)
  have sel: "select_trunk_weighted (env\<lparr>se_random := \<lambda>_. v\<rparr>) trunks configs = Inr t \<longleftrightarrow>
      pick_weighted v 0 (trunks ! (length trunks - 1)) ?xs = t" for v
    using assms(1) nz by (auto simp: select_trunk_weighted_def Let_def)
  have "weight_of t ?xs = sum_list (map (\<lambda>n. if n = t then unat (trunk_weight configs n) else 0) trunks)"
    by (simp add: weight_of_def zip_map2 zip_same_conv_map comp_def)
  then show ?thesis
    using pick_weighted_card [of 0 ?xs "trunks ! (length trunks - 1)" t] assms(3)
    by (simp add: sel total snd_)
qed

theorem weighted_selection_exact_witness:
  "card {v. v < unat (total_weight (map (trunk_weight None) [''a'', ''b''])) \<and>
      select_trunk_weighted (demo_select_env\<lparr>se_random := \<lambda>_. v\<rparr>) [''a'', ''b''] None = Inr ''a''}
    = sum_list (map (\<lambda>n. if n = ''a'' then unat (trunk_weight None n) else 0) [''a'', ''b''])"
  by (rule weighted_selection_exact) (simp_all add: trunk_weight_def)

lemma pick_weighted_member: "pick_weighted v c fb xs \<in> insert fb (set (map fst xs))"
proof (induction xs arbitrary: c)
  case (Cons x xs)
  from Cons.IH [of "sat_add c (snd x)"] show ?case by (cases x) (auto simp: Let_def)
qed simp

text \<open>Whatever the method, a trunk that is selected is one of the destination's, and selection fails
  only for a destination without trunks.\<close>

lemma select_trunk_result:
  assumes "select_env_ok env"
  shows "case fst (select_trunk env api dest how hash_key option configs counters) of
      Inr t \<Rightarrow> t \<in> set (dest_trunks dest)
    | Inl e \<Rightarrow> e = NoTrunks \<and> dest_trunks dest = []"
proof (cases "dest_trunks dest = []")
  case True
  then show ?thesis by (simp add: select_trunk_def)
next
  case False
  let ?ts = "dest_trunks dest"
  have len: "0 < length ?ts" using False by simp
  have r: "se_random env (length ?ts) < length ?ts"
    using assms len by (simp add: select_env_ok_def)
  have "pick_weighted v 0 (?ts ! (length ?ts - 1)) (zip ?ts ws) \<in> set ?ts" for v ws
    using pick_weighted_member [of v 0 "?ts ! (length ?ts - 1)" "zip ?ts ws"] len
    by (auto dest: set_zip_leftD)
  with r len show ?thesis
    by (auto simp: select_trunk_def select_trunk_weighted_def next_round_robin_index_def Let_def)
qed

lemma select_trunk_listed:
  assumes "select_env_ok env"
    and "select_trunk env api dest how hash_key option configs counters = (Inr t, c)"
  shows "t \<in> set (dest_trunks dest)"
  using select_trunk_result [OF assms(1), of dest api how hash_key option configs counters] assms(2)
  by simp

end
