(* ===== verification/Trunk_Stamp.thy ===== *)
theory Trunk_Stamp
  imports Route_Rewrite
begin

text \<open>
  Dialling through a trunk: \<^verbatim>\<open>apply_trunk_config\<close>, \<^verbatim>\<open>merge_trunk_media_hints\<close> and
  \<^verbatim>\<open>stamp_trunk\<close> of \<^verbatim>\<open>src/src/proxy/routing/matcher.rs\<close>.
\<close>

section \<open>The INVITE\<close>

definition next_hop_of :: "sip_api \<Rightarrow> trunk_config \<Rightarrow> sip_uri \<Rightarrow> route_error + sip_uri" where
  "next_hop_of api trunk dest_uri =
     (case map_option trim (tc_outbound_proxy trunk) of
        Some proxy \<Rightarrow>
          if proxy = [] then Inr dest_uri
          else (case parse_server_uri api proxy of
                  None \<Rightarrow> Inl (InvalidOutboundProxy proxy)
                | Some uri \<Rightarrow> Inr uri)
      | None \<Rightarrow> Inr dest_uri)"

definition apply_trunk_config :: "sip_api \<Rightarrow> trunk_config \<Rightarrow> invite_option \<Rightarrow>
    route_error + invite_option" where
  "apply_trunk_config api trunk option =
     (case sa_parse_uri api (tc_dest trunk) of
        None \<Rightarrow> Inl (InvalidTrunkDest (tc_dest trunk))
      | Some dest_uri \<Rightarrow>
          (case next_hop_of api trunk dest_uri of
             Inl e \<Rightarrow> Inl e
           | Inr next_hop \<Rightarrow>
               let transport = Option.bind (tc_transport trunk) resolve_transport_from_str;
                   option1 = option\<lparr>io_destination := Some \<lparr>sad_type = transport,
                               sad_addr = uri_host_with_port next_hop\<rparr>\<rparr>;
                   original_caller = io_caller option1;
                   hp = uri_host_with_port dest_uri;
                   option2 = (if tc_rewrite_hostport trunk
                              then option1\<lparr>io_callee := (io_callee option1)\<lparr>uri_host_with_port := hp\<rparr>,
                                          io_caller := (io_caller option1)\<lparr>uri_host_with_port := hp\<rparr>\<rparr>
                              else option1);
                   option3 = (case (tc_username trunk, tc_password trunk) of
                                (Some username, Some password) \<Rightarrow>
                                  option2\<lparr>io_credential := Some \<lparr>cr_username = username,
                                    cr_auth_username = None, cr_password = password,
                                    cr_realm = Some (uri_host dest_uri)\<rparr>\<rparr>
                              | _ \<Rightarrow> option2);
                   headers = (case io_headers option3 of None \<Rightarrow> [] | Some hs \<Rightarrow> hs)
               in Inr (option3\<lparr>io_headers := Some (headers @
                    (if tc_username trunk \<noteq> None
                     then [HOther ''P-Asserted-Identity'' (''<'' @ sa_uri_str api original_caller @ ''>'')]
                     else []))\<rparr>)))"

section \<open>The hints\<close>

fun trunk_media_mode_to_proxy_mode :: "media_mode \<Rightarrow> media_proxy_mode" where
  "trunk_media_mode_to_proxy_mode MmNone = MpNone"
| "trunk_media_mode_to_proxy_mode MmBypass = MpBypass"
| "trunk_media_mode_to_proxy_mode MmAuto = MpAuto"
| "trunk_media_mode_to_proxy_mode MmForceTranscode = MpAll"

definition trunk_has_media_hints :: "trunk_config \<Rightarrow> bool" where
  "trunk_has_media_hints t \<longleftrightarrow> \<not> (tc_codec t = [] \<and> tc_media_mode t = None \<and> tc_video_policy t = None \<and>
     tc_recording t = None \<and> tc_ringback t = None \<and> tc_max_ring_time t = None \<and>
     tc_max_call_duration t = None \<and> tc_external_ip t = None \<and> tc_bind_ip t = None \<and>
     tc_ice_lite t = None \<and> tc_passthrough_custom_sdp_attrs t = None \<and> tc_profile t = None \<and>
     tc_diversion_headers t = None \<and> tc_history_info t = None \<and> tc_amd t = None)"

text \<open>\<^verbatim>\<open>if let Some(v) = field { target = Some(v) }\<close>: a set field replaces the target.\<close>

abbreviation set_if_some :: "'a option \<Rightarrow> 'a option \<Rightarrow> 'a option" where
  "set_if_some new old \<equiv> or_else new old"

definition ring_time :: "u32 \<Rightarrow> u64 option" where
  "ring_time secs = (if 0 < secs then Some (ucast secs) else None)"

definition merge_diversion :: "trunk_config \<Rightarrow> diversion_policy option \<Rightarrow> diversion_policy option" where
  "merge_diversion t policy =
     (if tc_diversion_headers t \<noteq> None \<or> tc_history_info t \<noteq> None
      then let p = (case policy of Some p \<Rightarrow> p
                    | None \<Rightarrow> \<lparr>dp_diversion_headers = False, dp_history_info = False\<rparr>);
               p1 = (case tc_diversion_headers t of Some v \<Rightarrow> p\<lparr>dp_diversion_headers := v\<rparr> | None \<Rightarrow> p);
               p2 = (case tc_history_info t of Some v \<Rightarrow> p1\<lparr>dp_history_info := v\<rparr> | None \<Rightarrow> p1)
           in Some p2
      else policy)"

definition merge_max_duration :: "u32 option \<Rightarrow> u64 option \<Rightarrow> u64 option" where
  "merge_max_duration limit current =
     (case limit of
        Some secs \<Rightarrow>
          if 0 < secs
          then Some (case current of None \<Rightarrow> ucast secs | Some cur \<Rightarrow> min cur (ucast secs))
          else current
      | None \<Rightarrow> current)"

definition merge_passthrough :: "bool option \<Rightarrow> bool option \<Rightarrow> bool option" where
  "merge_passthrough new current =
     (case new of
        Some p \<Rightarrow> Some ((case current of None \<Rightarrow> True | Some c \<Rightarrow> c) \<and> p)
      | None \<Rightarrow> current)"

definition merge_amd :: "amd_config option \<Rightarrow> amd_config option \<Rightarrow> amd_config option" where
  "merge_amd trunk_amd current =
     (case trunk_amd of
        None \<Rightarrow> current
      | Some t \<Rightarrow> (case current of Some existing \<Rightarrow> Some (amd_overlay existing t) | None \<Rightarrow> Some t))"

definition merge_trunk_media_hints :: "trunk_config \<Rightarrow> dialplan_hints option \<Rightarrow> dialplan_hints option" where
  "merge_trunk_media_hints t hints =
     (if \<not> trunk_has_media_hints t then hints
      else let h = the_hints hints
           in Some (h\<lparr>
                dh_network_profile_id := set_if_some (tc_profile t) (dh_network_profile_id h),
                dh_diversion_policy := merge_diversion t (dh_diversion_policy h),
                dh_allow_codecs := (if tc_codec t \<noteq> [] then Some (tc_codec t) else dh_allow_codecs h),
                dh_media_mode := set_if_some
                  (map_option trunk_media_mode_to_proxy_mode (tc_media_mode t)) (dh_media_mode h),
                dh_video_policy := set_if_some (tc_video_policy t) (dh_video_policy h),
                dh_recording := set_if_some (tc_recording t) (dh_recording h),
                dh_ringback := set_if_some (tc_ringback t) (dh_ringback h),
                dh_max_duration := merge_max_duration (tc_max_call_duration t) (dh_max_duration h),
                dh_max_ring_time := (case tc_max_ring_time t of
                                       Some secs \<Rightarrow> ring_time secs | None \<Rightarrow> dh_max_ring_time h),
                dh_external_ip := set_if_some (tc_external_ip t) (dh_external_ip h),
                dh_bind_ip := set_if_some (tc_bind_ip t) (dh_bind_ip h),
                dh_ice_lite := set_if_some (tc_ice_lite t) (dh_ice_lite h),
                dh_passthrough_custom_sdp_attrs :=
                  merge_passthrough (tc_passthrough_custom_sdp_attrs t) (dh_passthrough_custom_sdp_attrs h),
                dh_amd := merge_amd (tc_amd t) (dh_amd h)\<rparr>))"

definition attach_outbound_trunk_metadata :: "string \<Rightarrow> trunk_config \<Rightarrow> dialplan_hints option \<Rightarrow>
    dialplan_hints option" where
  "attach_outbound_trunk_metadata name trunk hints =
     Some ((the_hints hints)\<lparr>dh_outbound_trunk :=
       Some \<lparr>oc_id = tc_id trunk, oc_name = name, oc_dest = Some (tc_dest trunk)\<rparr>\<rparr>)"

definition stamp_trunk :: "sip_api \<Rightarrow> string \<Rightarrow> trunk_config \<Rightarrow> invite_option \<Rightarrow>
    dialplan_hints option \<Rightarrow> route_error + invite_option \<times> dialplan_hints option" where
  "stamp_trunk api name trunk option hints =
     (case apply_trunk_config api trunk option of
        Inl e \<Rightarrow> Inl e
      | Inr option' \<Rightarrow>
          Inr (option', attach_outbound_trunk_metadata name trunk (merge_trunk_media_hints trunk hints)))"

section \<open>Properties\<close>

lemma merge_keeps_resources:
  "dh_concurrency_holds (the_hints (merge_trunk_media_hints t h)) = dh_concurrency_holds (the_hints h)"
  "dh_concurrent_call_lease (the_hints (merge_trunk_media_hints t h))
     = dh_concurrent_call_lease (the_hints h)"
  by (auto simp: merge_trunk_media_hints_def Let_def the_hints_def split: option.split)

lemma merge_max_duration_commute:
  "merge_max_duration a (merge_max_duration b c) = merge_max_duration b (merge_max_duration a c)"
  by (auto simp: merge_max_duration_def min.left_commute min.commute split: option.splits)

lemma merge_passthrough_commute:
  "merge_passthrough a (merge_passthrough b c) = merge_passthrough b (merge_passthrough a c)"
  by (cases a; cases b; cases c) (auto simp: merge_passthrough_def)

lemma merge_limits:
  "dh_max_duration (the_hints (merge_trunk_media_hints t h))
     = merge_max_duration (tc_max_call_duration t) (dh_max_duration (the_hints h))"
  "dh_passthrough_custom_sdp_attrs (the_hints (merge_trunk_media_hints t h))
     = merge_passthrough (tc_passthrough_custom_sdp_attrs t) (dh_passthrough_custom_sdp_attrs (the_hints h))"
  "dh_amd (the_hints (merge_trunk_media_hints t h)) = merge_amd (tc_amd t) (dh_amd (the_hints h))"
  by (auto simp: merge_trunk_media_hints_def trunk_has_media_hints_def Let_def the_hints_def
      merge_max_duration_def merge_passthrough_def merge_amd_def split: option.splits)

text \<open>The limits that the source and the destination trunk set together do not depend on which
  one is merged first: the call duration is the shorter of the two, and custom SDP attributes pass
  only if neither trunk disables them.\<close>

theorem merge_trunk_limits_commute:
  "let merged = (\<lambda>a b. the_hints (merge_trunk_media_hints a (merge_trunk_media_hints b h)))
   in dh_max_duration (merged s d) = dh_max_duration (merged d s) \<and>
      dh_passthrough_custom_sdp_attrs (merged s d) = dh_passthrough_custom_sdp_attrs (merged d s) \<and>
      (\<forall>x y. tc_max_call_duration s = Some x \<and> tc_max_call_duration d = Some y \<and> 0 < x \<and> 0 < y \<and>
         dh_max_duration (the_hints h) = None \<longrightarrow>
           dh_max_duration (merged s d) = Some (min (ucast x) (ucast y)))"
  unfolding Let_def merge_limits
  by (intro conjI merge_max_duration_commute merge_passthrough_commute)
    (auto simp: merge_max_duration_def min.commute)

definition demo_limit_trunk :: "u32 \<Rightarrow> trunk_config" where
  "demo_limit_trunk secs = trunk_config_default\<lparr>tc_max_call_duration := Some secs\<rparr>"

text \<open>In the AMD settings the trunk overrides what the hints already carry, field by field; the
  comment above the merge states the opposite order.\<close>

theorem amd_trunk_overrides_hints:
  assumes "dh_amd (the_hints h) = Some existing" "tc_amd t = Some trunk_amd"
    and "amd_enabled existing = Some a" "amd_enabled trunk_amd = Some b"
  shows "map_option amd_enabled (dh_amd (the_hints (merge_trunk_media_hints t h))) = Some (Some b)"
  using assms by (simp add: merge_limits merge_amd_def amd_overlay_def)

definition demo_amd :: "bool \<Rightarrow> amd_config" where
  "demo_amd b = \<lparr>amd_enabled = Some b, amd_engine = None, amd_timeout_secs = None,
     amd_max_greeting_ms = None, amd_detect_beep = None, amd_params = []\<rparr>"

end
