(* ===== verification/Route_Match.thy ===== *)
theory Route_Match
  imports Trunk_Select Trunk_Stamp Cps_Limiter
begin

text \<open>
  The routing decision, \<^verbatim>\<open>match_invite_impl\<close> of \<^verbatim>\<open>src/src/proxy/routing/matcher.rs\<close>: admission on the
  source trunk, the search for the first matching rule, its policy, its action, and admission on the
  destination trunk. The state holds what outlives the call (limiters, semaphores, counters, the
  policy backend) and the locals that own resources (holds, lease) with the optional trace. A
  computation either continues with a value or leaves the function, with an error (\<^verbatim>\<open>?\<close>) or with a
  result (\<^verbatim>\<open>return Ok(..)\<close>).
\<close>

section \<open>Results, state and environment\<close>

record route_target =
  rt_option :: invite_option
  rt_hints :: "dialplan_hints option"
  rt_retry_policy :: "retry_policy option"

datatype route_result =
    RForward "route_target list"
  | RQueue invite_option "dialplan_hints queue_plan" "dialplan_hints option"
  | RApplication invite_option string "string option" bool "dialplan_hints option"
  | RNotHandled invite_option "dialplan_hints option"
  | RAbort u16 "string option"

record route_trace =
  tr_matched_rule :: "string option"
  tr_selected_trunk :: "string option"
  tr_used_default_route :: bool
  tr_rewrite_operations :: "string list"
  tr_abort :: "(u16 \<times> string option) option"

datatype match_mode = MExecute | MInspect

record ('s, 'sem) match_state =
  ms_cps :: "nat \<Rightarrow> cps_limiter"
  ms_sems :: "'sem sem_store"
  ms_counters :: rr_counters
  ms_limiter :: 's
  ms_holds :: "concurrency_hold list"
  ms_lease :: concurrent_call_lease
  ms_trace :: "route_trace option"

record ('s, 'sem, 'n) route_env =
  re_sip :: sip_api
  re_regex :: regex_api
  re_select :: select_env
  re_sem :: "'sem semaphore_api"
  re_policy :: "('s limiter_ops \<times> 'n policy_env) option"
  re_elapsed_source :: "nat \<Rightarrow> nat"
  re_elapsed_dest :: "nat \<Rightarrow> nat"
  re_lookup :: "(string \<Rightarrow> string + route_queue_config option) option"
  re_trunks :: "(string, trunk_config) hmap option"

section \<open>Computations that may leave the function\<close>

datatype route_exit = ExitErr route_error | ExitOk route_result

type_synonym ('st, 'a) route_m = "'st \<Rightarrow> (route_exit + 'a) \<times> 'st"

definition mret :: "'a \<Rightarrow> ('st, 'a) route_m" where
  "mret a s = (Inr a, s)"

definition mleave :: "route_result \<Rightarrow> ('st, 'a) route_m" where
  "mleave r s = (Inl (ExitOk r), s)"

definition mbind :: "('st, 'a) route_m \<Rightarrow> ('a \<Rightarrow> ('st, 'b) route_m) \<Rightarrow> ('st, 'b) route_m" where
  "mbind m f s = (case m s of (Inl x, s') \<Rightarrow> (Inl x, s') | (Inr a, s') \<Rightarrow> f a s')"

definition mthen :: "('st, unit) route_m \<Rightarrow> ('st, 'b) route_m \<Rightarrow> ('st, 'b) route_m" where
  "mthen m n = mbind m (\<lambda>_. n)"

definition mmodify :: "('st \<Rightarrow> 'st) \<Rightarrow> ('st, unit) route_m" where
  "mmodify f s = (Inr (), f s)"

definition mtry :: "route_error + 'a \<Rightarrow> ('st, 'a) route_m" where
  "mtry r s = (case r of Inl e \<Rightarrow> (Inl (ExitErr e), s) | Inr a \<Rightarrow> (Inr a, s))"

section \<open>Resources\<close>

definition tracing :: "(route_trace \<Rightarrow> route_trace) \<Rightarrow> ('s, 'sem) match_state \<Rightarrow> ('s, 'sem) match_state" where
  "tracing f s = s\<lparr>ms_trace := map_option f (ms_trace s)\<rparr>"

definition release_holds :: "('s, 'sem, 'n) route_env \<Rightarrow> ('s, 'sem) match_state \<Rightarrow> ('s, 'sem) match_state" where
  "release_holds env s =
     (if ms_holds s = [] then s
      else case re_policy env of
             Some (ops, _) \<Rightarrow>
               s\<lparr>ms_limiter := release_concurrency_holds ops (ms_holds s) (ms_limiter s), ms_holds := []\<rparr>
           | None \<Rightarrow> s\<lparr>ms_holds := []\<rparr>)"

definition release_lease :: "('s, 'sem, 'n) route_env \<Rightarrow> ('s, 'sem) match_state \<Rightarrow> ('s, 'sem) match_state" where
  "release_lease env s =
     (case lease_release_all (re_sem env) (ms_lease s) (ms_sems s) of
        (lease, sems) \<Rightarrow> s\<lparr>ms_lease := lease, ms_sems := sems\<rparr>)"

definition attach_holds :: "concurrency_hold list \<Rightarrow> dialplan_hints option \<Rightarrow> dialplan_hints option" where
  "attach_holds holds hints =
     (if holds = [] then hints else Some ((the_hints hints)\<lparr>dh_concurrency_holds := holds\<rparr>))"

definition attach_concurrent_call_lease :: "concurrent_call_lease \<Rightarrow> dialplan_hints option \<Rightarrow>
    dialplan_hints option" where
  "attach_concurrent_call_lease lease hints =
     (if lease = [] then hints else Some ((the_hints hints)\<lparr>dh_concurrent_call_lease := lease\<rparr>))"

text \<open>Both resources move from the locals to the hints of the result (\<^verbatim>\<open>std::mem::take\<close>).\<close>

definition attach_resources :: "dialplan_hints option \<Rightarrow>
    (('s, 'sem) match_state, dialplan_hints option) route_m" where
  "attach_resources hints s =
     (let (lease, rest) = lease_take (ms_lease s)
      in (Inr (attach_concurrent_call_lease lease (attach_holds (ms_holds s) hints)),
          s\<lparr>ms_holds := [], ms_lease := rest\<rparr>))"

definition trace_abort :: "u16 \<Rightarrow> string option \<Rightarrow> route_trace \<Rightarrow> route_trace" where
  "trace_abort status reason tr = tr\<lparr>tr_abort := Some (status, reason)\<rparr>"

definition cps_phrase :: "cps_limit_exceeded \<Rightarrow> string" where
  "cps_phrase e = (case e of CpsLimitExceeded limit \<Rightarrow>
     ''CPS limit exceeded (limit: '' @ nat_to_string (unat limit) @ '')'')"

definition ccl_phrase :: "concurrent_call_limit_exceeded \<Rightarrow> string" where
  "ccl_phrase e = (case e of ConcurrentCallLimitExceeded limit \<Rightarrow>
     ''Concurrent call limit exceeded (limit: '' @ nat_to_string (unat limit) @ '')'')"

text \<open>Admission on a trunk, for the source (nothing acquired yet) and for the destination (where
  \<open>cleanup\<close> gives back what was acquired).\<close>

definition admit_cps :: "(nat \<Rightarrow> nat) \<Rightarrow> (('s, 'sem) match_state \<Rightarrow> ('s, 'sem) match_state) \<Rightarrow>
    trunk_config \<Rightarrow> (('s, 'sem) match_state, unit) route_m" where
  "admit_cps elapsed cleanup trunk s =
     (case tc_cps_limiter trunk of
        None \<Rightarrow> (Inr (), s)
      | Some a \<Rightarrow>
          (case cps_try_acquire (elapsed a) (ms_cps s a) of
             (Inr _, l) \<Rightarrow> (Inr (), s\<lparr>ms_cps := (ms_cps s)(a := l)\<rparr>)
           | (Inl e, l) \<Rightarrow>
               (Inl (ExitOk (RAbort 503 (Some (cps_phrase e)))),
                cleanup (tracing (trace_abort 503 (Some (cps_phrase e)))
                  (s\<lparr>ms_cps := (ms_cps s)(a := l)\<rparr>)))))"

definition admit_concurrent :: "('s, 'sem, 'n) route_env \<Rightarrow>
    (('s, 'sem) match_state \<Rightarrow> ('s, 'sem) match_state) \<Rightarrow> trunk_config \<Rightarrow>
    (('s, 'sem) match_state, unit) route_m" where
  "admit_concurrent env cleanup trunk s =
     (case tc_concurrent_call_limiter trunk of
        None \<Rightarrow> (Inr (), s)
      | Some l \<Rightarrow>
          (case ccl_try_acquire (re_sem env) l (ms_sems s) of
             (Inr permit, sems) \<Rightarrow>
               (Inr (), s\<lparr>ms_sems := sems, ms_lease := lease_push permit (ms_lease s)\<rparr>)
           | (Inl e, sems) \<Rightarrow>
               (Inl (ExitOk (RAbort 503 (Some (ccl_phrase e)))),
                cleanup (tracing (trace_abort 503 (Some (ccl_phrase e))) (s\<lparr>ms_sems := sems\<rparr>)))))"

definition release_everything :: "('s, 'sem, 'n) route_env \<Rightarrow> ('s, 'sem) match_state \<Rightarrow>
    ('s, 'sem) match_state" where
  "release_everything env s = release_lease env (release_holds env s)"

section \<open>Policies\<close>

definition enforce_policy :: "('s, 'sem, 'n) route_env \<Rightarrow> string \<Rightarrow> policy_spec option \<Rightarrow>
    invite_option \<Rightarrow> string option \<Rightarrow> (('s, 'sem) match_state, unit) route_m" where
  "enforce_policy env policy_id policy option origin_country s =
     (case (policy, re_policy env) of
        (Some spec, Some (ops, penv)) \<Rightarrow>
          (case check_policy ops penv policy_id spec (uri_user (io_caller option))
                  (uri_user (io_callee option)) origin_country (ms_limiter s) of
             (Inl e, l) \<Rightarrow> (Inl (ExitErr (PolicyFailed e)), s\<lparr>ms_limiter := l\<rparr>)
           | (Inr outcome, l) \<Rightarrow>
               let s' = s\<lparr>ms_limiter := l, ms_holds := ms_holds s @ pco_holds outcome\<rparr>
               in case pco_status outcome of
                    PolicyAllowed \<Rightarrow> (Inr (), s')
                  | PolicyRejected rejection \<Rightarrow>
                      let reason = Some (rejection_message rejection)
                      in (Inl (ExitOk (RAbort 403 reason)),
                          release_everything env (tracing (trace_abort 403 reason) s')))
      | _ \<Rightarrow> (Inr (), s))"

section \<open>Source trunk\<close>

definition source_config :: "('s, 'sem, 'n) route_env \<Rightarrow> source_trunk option \<Rightarrow> trunk_config option" where
  "source_config env source =
     Option.bind source (\<lambda>st. Option.bind (re_trunks env) (\<lambda>m. hm_get m (st_name st)))"

definition admit_source :: "('s, 'sem, 'n) route_env \<Rightarrow> source_trunk option \<Rightarrow>
    (('s, 'sem) match_state, unit) route_m" where
  "admit_source env source =
     (case source_config env source of
        None \<Rightarrow> mret ()
      | Some trunk \<Rightarrow>
          mthen (admit_cps (re_elapsed_source env) (\<lambda>s. s) trunk)
            (admit_concurrent env (\<lambda>s. s) trunk))"

section \<open>Destination trunk\<close>

definition dial_trunk :: "('s, 'sem, 'n) route_env \<Rightarrow> dest_config \<Rightarrow> route_action \<Rightarrow> string option \<Rightarrow>
    invite_option \<Rightarrow> dialplan_hints option \<Rightarrow>
    (('s, 'sem) match_state, invite_option \<times> dialplan_hints option) route_m" where
  "dial_trunk env dest action origin_country option hints =
     mbind (\<lambda>s. case select_trunk (re_select env) (re_sip env) dest (ra_select action)
                       (ra_hash_key action) option (re_trunks env) (ms_counters s) of
                  (Inl e, c) \<Rightarrow> (Inl (ExitErr e), s\<lparr>ms_counters := c\<rparr>)
                | (Inr t, c) \<Rightarrow> (Inr t, s\<lparr>ms_counters := c\<rparr>))
       (\<lambda>selected.
          mthen (mmodify (tracing (\<lambda>tr. tr\<lparr>tr_selected_trunk := Some selected\<rparr>)))
            (case Option.bind (re_trunks env) (\<lambda>m. hm_get m selected) of
               None \<Rightarrow> mret (option, hints)
             | Some trunk \<Rightarrow>
                 mthen (admit_cps (re_elapsed_dest env) (release_everything env) trunk)
                   (mthen (admit_concurrent env (release_everything env) trunk)
                     (mthen (enforce_policy env (''trunk:'' @ selected) (tc_policy trunk) option
                               origin_country)
                       (mtry (stamp_trunk (re_sip env) selected trunk option hints))))))"

section \<open>The action of the matched rule\<close>

definition with_codecs :: "route_rule \<Rightarrow> dialplan_hints option \<Rightarrow> dialplan_hints option" where
  "with_codecs rule hints =
     (if rl_codecs rule \<noteq> [] then Some ((the_hints hints)\<lparr>dh_allow_codecs := Some (rl_codecs rule)\<rparr>)
      else hints)"

definition abort_releasing_lease :: "('s, 'sem, 'n) route_env \<Rightarrow> u16 \<Rightarrow> string option \<Rightarrow>
    (('s, 'sem) match_state, route_result) route_m" where
  "abort_releasing_lease env status reason s =
     (Inl (ExitOk (RAbort status reason)),
      release_lease env (tracing (trace_abort status reason) s))"

definition act_reject :: "('s, 'sem, 'n) route_env \<Rightarrow> route_rule \<Rightarrow>
    (('s, 'sem) match_state, route_result) route_m" where
  "act_reject env rule =
     (case ra_reject_config (rl_action rule) of
        Some cfg \<Rightarrow> abort_releasing_lease env (rj_code cfg) (rj_reason cfg)
      | None \<Rightarrow> abort_releasing_lease env 403 None)"

definition act_forward :: "('s, 'sem, 'n) route_env \<Rightarrow> match_mode \<Rightarrow> route_rule \<Rightarrow> string option \<Rightarrow>
    invite_option \<Rightarrow> dialplan_hints option \<Rightarrow> (('s, 'sem) match_state, route_result) route_m" where
  "act_forward env mode rule origin_country option hints =
     mbind (case ra_dest (rl_action rule) of
              Some dest \<Rightarrow>
                if mode = MExecute
                then dial_trunk env dest (rl_action rule) origin_country option hints
                else mret (option, hints)
            | None \<Rightarrow> mret (option, hints))
       (\<lambda>(option', hints').
          mbind (attach_resources (with_codecs rule hints'))
            (\<lambda>hints''. mret (RForward [\<lparr>rt_option = option', rt_hints = hints'',
                                       rt_retry_policy = None\<rparr>])))"

definition queue_ref :: "route_action \<Rightarrow> string option" where
  "queue_ref action =
     (case map_option trim (ra_queue action) of
        Some r \<Rightarrow> if r = [] then None else Some r
      | None \<Rightarrow> None)"

definition load_queue_plan :: "('s, 'sem, 'n) route_env \<Rightarrow> route_action \<Rightarrow>
    route_error + dialplan_hints queue_plan" where
  "load_queue_plan env action =
     (case queue_ref action of
        None \<Rightarrow> Inl QueueRefMissing
      | Some r \<Rightarrow>
          (case re_lookup env of
             None \<Rightarrow> Inl (NoResourceLookup r)
           | Some lookup \<Rightarrow>
               (case lookup (if \<forall>c \<in> set r. is_ascii_digit c then ''db-'' @ r else r) of
                  Inl e \<Rightarrow> Inl (QueueLoadFailed e)
                | Inr None \<Rightarrow> Inl (QueueNotFound r)
                | Inr (Some cfg) \<Rightarrow>
                    (case to_queue_plan (re_sip env) cfg of
                       Inl e \<Rightarrow> Inl (QueuePlanInvalid e)
                     | Inr plan \<Rightarrow>
                         let plan1 = (if qp_label plan = None then plan\<lparr>qp_label := Some r\<rparr> else plan)
                         in Inr (if qp_queue_name plan1 = [] then plan1\<lparr>qp_queue_name := r\<rparr>
                                 else plan1)))))"

definition act_queue :: "('s, 'sem, 'n) route_env \<Rightarrow> match_mode \<Rightarrow> route_rule \<Rightarrow> string option \<Rightarrow>
    invite_option \<Rightarrow> dialplan_hints option \<Rightarrow> (('s, 'sem) match_state, route_result) route_m" where
  "act_queue env mode rule origin_country option hints =
     mbind (mtry (load_queue_plan env (rl_action rule)))
       (\<lambda>plan.
          mbind (if qp_dial_strategy plan = None
                 then case ra_dest (rl_action rule) of
                        None \<Rightarrow> mtry (Inl QueueNeedsDest)
                      | Some dest \<Rightarrow>
                          if mode = MExecute
                          then dial_trunk env dest (rl_action rule) origin_country option hints
                          else mret (option, hints)
                 else mret (option, hints))
            (\<lambda>(option', hints').
               mbind (attach_resources (with_codecs rule hints'))
                 (\<lambda>hints''. mret (RQueue option' plan hints''))))"

definition act_application :: "route_rule \<Rightarrow> invite_option \<Rightarrow> dialplan_hints option \<Rightarrow>
    (('s, 'sem) match_state, route_result) route_m" where
  "act_application rule option hints =
     mbind (mtry (case ra_app (rl_action rule) of None \<Rightarrow> Inl AppMissing | Some app \<Rightarrow> Inr app))
       (\<lambda>app. mbind (attach_resources hints)
          (\<lambda>hints'. mret (RApplication option app (ra_app_params (rl_action rule))
                            (ra_auto_answer (rl_action rule)) hints')))"

definition seed_hints :: "route_rule \<Rightarrow> dialplan_hints option \<Rightarrow> dialplan_hints option" where
  "seed_hints rule source_hints =
     (let h0 = the_hints source_hints;
          h1 = (if rl_disable_ice_servers rule \<noteq> None
                then h0\<lparr>dh_disable_ice_servers := rl_disable_ice_servers rule\<rparr> else h0);
          h2 = (case rl_max_ring_time rule of
                  Some secs \<Rightarrow> h1\<lparr>dh_max_ring_time := ring_time secs\<rparr>
                | None \<Rightarrow> h1);
          h3 = (case ra_busy_wait (rl_action rule) of
                  Some bw \<Rightarrow> if bw_enabled bw then h2\<lparr>dh_busy_wait := Some bw\<rparr> else h2
                | None \<Rightarrow> h2)
      in Some (h3\<lparr>dh_matched_route := Some \<lparr>mr_id = rl_id rule, mr_name = rl_name rule\<rparr>\<rparr>))"

definition run_action :: "('s, 'sem, 'n) route_env \<Rightarrow> match_mode \<Rightarrow> route_rule \<Rightarrow> string option \<Rightarrow>
    invite_option \<Rightarrow> dialplan_hints option \<Rightarrow> (('s, 'sem) match_state, route_result) route_m" where
  "run_action env mode rule origin_country option hints =
     (case get_action_type (rl_action rule) of
        ActReject \<Rightarrow> act_reject env rule
      | ActBusy \<Rightarrow> abort_releasing_lease env 486 None
      | ActForward \<Rightarrow> act_forward env mode rule origin_country option hints
      | ActQueue \<Rightarrow> act_queue env mode rule origin_country option hints
      | ActApplication \<Rightarrow> act_application rule option hints)"

definition rewrite_option :: "('s, 'sem, 'n) route_env \<Rightarrow> route_rule \<Rightarrow> captures \<Rightarrow> invite_option \<Rightarrow>
    (('s, 'sem) match_state, invite_option) route_m" where
  "rewrite_option env rule captures option =
     (case rl_rewrite rule of
        None \<Rightarrow> mret option
      | Some rw \<Rightarrow>
          mthen (mmodify (tracing (\<lambda>tr. tr\<lparr>tr_rewrite_operations :=
                   tr_rewrite_operations tr @ describe_rewrite_ops rw\<rparr>)))
            (mtry (apply_rewrite_rules (re_regex env) (re_sip env) rw captures option)))"

definition handle_rule :: "('s, 'sem, 'n) route_env \<Rightarrow> match_mode \<Rightarrow> source_trunk option \<Rightarrow>
    match_context \<Rightarrow> route_rule \<Rightarrow> invite_option \<Rightarrow> dialplan_hints option \<Rightarrow>
    (('s, 'sem) match_state, route_result) route_m" where
  "handle_rule env mode source cx rule option source_hints =
     (let origin_country = Option.bind (source_config env source) tc_country
      in mbind (mtry (collect_match_captures (re_regex env) rule cx))
           (\<lambda>captures.
              mthen (mmodify (tracing (\<lambda>tr. tr\<lparr>tr_matched_rule := Some (rl_name rule)\<rparr>)))
                (mbind (rewrite_option env rule captures option)
                  (\<lambda>option'.
                     mthen (enforce_policy env (rl_name rule) (rl_policy rule) option' origin_country)
                       (run_action env mode rule origin_country option'
                         (seed_hints rule source_hints))))))"

section \<open>The search for a rule\<close>

definition rule_applies :: "('s, 'sem, 'n) route_env \<Rightarrow> source_trunk option \<Rightarrow> match_context \<Rightarrow>
    route_rule \<Rightarrow> route_error + bool" where
  "rule_applies env source cx rule =
     (if rl_disabled rule = Some True then Inr False
      else if rl_source_trunks rule \<noteq> [] \<and>
              (case source of
                 Some st \<Rightarrow> \<not> (\<exists>name \<in> set (rl_source_trunks rule). eq_ignore_ascii_case name (st_name st))
               | None \<Rightarrow> True)
      then Inr False
      else if rl_source_trunk_ids rule \<noteq> [] \<and>
              (case Option.bind source st_id of
                 Some i \<Rightarrow> i \<notin> set (rl_source_trunk_ids rule)
               | None \<Rightarrow> True)
      then Inr False
      else matches_rule (re_regex env) rule cx)"

fun match_rules :: "('s, 'sem, 'n) route_env \<Rightarrow> match_mode \<Rightarrow> source_trunk option \<Rightarrow> match_context \<Rightarrow>
    route_rule list \<Rightarrow> invite_option \<Rightarrow> dialplan_hints option \<Rightarrow>
    (('s, 'sem) match_state, route_result) route_m" where
  "match_rules env mode source cx [] option source_hints =
     mbind (attach_resources source_hints) (\<lambda>hints. mret (RNotHandled option hints))"
| "match_rules env mode source cx (rule # rules) option source_hints =
     mbind (mtry (rule_applies env source cx rule))
       (\<lambda>applies. if applies then handle_rule env mode source cx rule option source_hints
                  else match_rules env mode source cx rules option source_hints)"

definition make_context :: "invite_option \<Rightarrow> sip_request \<Rightarrow> match_context" where
  "make_context option origin =
     \<lparr>cx_headers = rq_headers origin,
      cx_caller_user = uri_user (io_caller option), cx_caller_host = uri_host (io_caller option),
      cx_callee_user = uri_user (io_callee option), cx_callee_host = uri_host (io_callee option),
      cx_request_user = uri_user (rq_uri origin), cx_request_host = uri_host (rq_uri origin)\<rparr>"

definition route_body :: "('s, 'sem, 'n) route_env \<Rightarrow> match_mode \<Rightarrow> route_rule list option \<Rightarrow>
    invite_option \<Rightarrow> sip_request \<Rightarrow> source_trunk option \<Rightarrow>
    (('s, 'sem) match_state, route_result) route_m" where
  "route_body env mode routes option origin source =
     mthen (admit_source env source)
       (let source_hints = (case source_config env source of
                              Some trunk \<Rightarrow> merge_trunk_media_hints trunk None
                            | None \<Rightarrow> None)
        in case routes of
             None \<Rightarrow> mbind (attach_resources source_hints) (\<lambda>hints. mret (RNotHandled option hints))
           | Some rules \<Rightarrow> match_rules env mode source (make_context option origin) rules option source_hints)"

text \<open>Leaving the function drops the local lease, which returns its permits; the local vector of
  holds is only forgotten.\<close>

definition match_invite_impl :: "('s, 'sem, 'n) route_env \<Rightarrow> match_mode \<Rightarrow> route_rule list option \<Rightarrow>
    invite_option \<Rightarrow> sip_request \<Rightarrow> source_trunk option \<Rightarrow> ('s, 'sem) match_state \<Rightarrow>
    (route_error + route_result) \<times> ('s, 'sem) match_state" where
  "match_invite_impl env mode routes option origin source s =
     (case route_body env mode routes option origin source (s\<lparr>ms_holds := [], ms_lease := []\<rparr>) of
        (r, s') \<Rightarrow>
          (case r of Inl (ExitErr e) \<Rightarrow> Inl e | Inl (ExitOk x) \<Rightarrow> Inr x | Inr x \<Rightarrow> Inr x,
           (release_lease env s')\<lparr>ms_holds := []\<rparr>))"

definition match_invite :: "('s, 'sem, 'n) route_env \<Rightarrow> route_rule list option \<Rightarrow> invite_option \<Rightarrow>
    sip_request \<Rightarrow> source_trunk option \<Rightarrow> ('s, 'sem) match_state \<Rightarrow>
    (route_error + route_result) \<times> ('s, 'sem) match_state" where
  "match_invite env routes option origin source s =
     match_invite_impl env MExecute routes option origin source (s\<lparr>ms_trace := None\<rparr>)"

definition inspect_invite :: "('s, 'sem, 'n) route_env \<Rightarrow> route_rule list option \<Rightarrow> invite_option \<Rightarrow>
    sip_request \<Rightarrow> source_trunk option \<Rightarrow> ('s, 'sem) match_state \<Rightarrow>
    (route_error + route_result) \<times> ('s, 'sem) match_state" where
  "inspect_invite env routes option origin source s =
     match_invite_impl env MInspect routes option origin source (s\<lparr>ms_trace := None\<rparr>)"

end
