(* ===== verification/Route_Triples.thy ===== *)
theory Route_Triples
  imports Route_Match
begin

text \<open>
  Reasoning about the routing decision: triples over its computations (a value is returned, or the
  function is left), the case rules of admission and policy enforcement, and a locale that carries an
  invariant of the resources from the single steps through every action to the whole decision.
\<close>

section \<open>Triples\<close>

text \<open>From a state satisfying \<open>P\<close>, a value is returned with \<open>Q\<close> or the function is left with \<open>E\<close>.\<close>

definition triple :: "('st \<Rightarrow> bool) \<Rightarrow> ('st, 'a) route_m \<Rightarrow> ('a \<Rightarrow> 'st \<Rightarrow> bool) \<Rightarrow>
    (route_exit \<Rightarrow> 'st \<Rightarrow> bool) \<Rightarrow> bool" where
  "triple P m Q E \<longleftrightarrow>
     (\<forall>s. P s \<longrightarrow> (case m s of (Inl x, s') \<Rightarrow> E x s' | (Inr a, s') \<Rightarrow> Q a s'))"


lemma triple_bind:
  "triple P m R E \<Longrightarrow> (\<And>a. triple (R a) (f a) Q E) \<Longrightarrow> triple P (mbind m f) Q E"
  by (fastforce simp: triple_def mbind_def split: prod.splits sum.splits)

lemma triple_then:
  "triple P m (\<lambda>_. R) E \<Longrightarrow> triple R n Q E \<Longrightarrow> triple P (mthen m n) Q E"
  unfolding mthen_def by (rule triple_bind)

lemma triple_ret: "(\<And>s. P s \<Longrightarrow> Q a s) \<Longrightarrow> triple P (mret a) Q E"
  by (simp add: triple_def mret_def)

lemma triple_modify: "(\<And>s. P s \<Longrightarrow> Q () (f s)) \<Longrightarrow> triple P (mmodify f) Q E"
  by (simp add: triple_def mmodify_def)

lemma triple_try:
  "(\<And>s a. r = Inr a \<Longrightarrow> P s \<Longrightarrow> Q a s) \<Longrightarrow> (\<And>s e. r = Inl e \<Longrightarrow> P s \<Longrightarrow> E (ExitErr e) s) \<Longrightarrow>
     triple P (mtry r) Q E"
  by (auto simp: triple_def mtry_def split: sum.split)

lemma triple_pre: "triple R m Q E \<Longrightarrow> (\<And>s. P s \<Longrightarrow> R s) \<Longrightarrow> triple P m Q E"
  by (simp add: triple_def)

lemma triple_prop: "(A \<Longrightarrow> triple P m Q E) \<Longrightarrow> triple (\<lambda>s. A \<and> P s) m Q E"
  by (auto simp: triple_def)

section \<open>What a result owns\<close>

fun result_hints :: "route_result \<Rightarrow> dialplan_hints option" where
  "result_hints (RForward targets) = (case targets of [] \<Rightarrow> None | t # _ \<Rightarrow> rt_hints t)"
| "result_hints (RQueue _ _ h) = h"
| "result_hints (RApplication _ _ _ _ h) = h"
| "result_hints (RNotHandled _ h) = h"
| "result_hints (RAbort _ _) = None"

definition result_lease :: "route_error + route_result \<Rightarrow> concurrent_call_lease" where
  "result_lease r = (case r of Inl _ \<Rightarrow> [] | Inr x \<Rightarrow> dh_concurrent_call_lease (the_hints (result_hints x)))"

definition result_holds :: "route_error + route_result \<Rightarrow> concurrency_hold list" where
  "result_holds r = (case r of Inl _ \<Rightarrow> [] | Inr x \<Rightarrow> dh_concurrency_holds (the_hints (result_hints x)))"

definition is_abort :: "route_result \<Rightarrow> bool" where
  "is_abort r \<longleftrightarrow> (case r of RAbort _ _ \<Rightarrow> True | _ \<Rightarrow> False)"

definition bare :: "dialplan_hints option \<Rightarrow> bool" where
  "bare h \<longleftrightarrow> dh_concurrent_call_lease (the_hints h) = [] \<and> dh_concurrency_holds (the_hints h) = []"

lemma the_hints_simps [simp]: "the_hints (Some h) = h" "the_hints None = hints_default"
  by (simp_all add: the_hints_def)

lemma bare_default [simp]: "bare None"
  by (simp add: bare_def hints_default_def)

lemma bare_merge [simp]: "bare (merge_trunk_media_hints t h) = bare h"
  by (simp add: bare_def merge_keeps_resources)

lemma bare_codecs [simp]: "bare (with_codecs rule h) = bare h"
  by (simp add: bare_def with_codecs_def)

lemma bare_seed [simp]: "bare h \<Longrightarrow> bare (seed_hints rule h)"
  by (simp add: bare_def seed_hints_def Let_def split: option.split)

lemma bare_stamp:
  "stamp_trunk api n t opt h = Inr (opt', h') \<Longrightarrow> bare h' = bare h"
  by (auto simp: stamp_trunk_def attach_outbound_trunk_metadata_def split: sum.splits)
    (simp_all add: bare_def merge_keeps_resources)

section \<open>Permits\<close>

definition permits_ok :: "('s, 'sem, 'n) route_env \<Rightarrow> (nat \<Rightarrow> nat) \<Rightarrow> ('s, 'sem) match_state \<Rightarrow> bool" where
  "permits_ok env cap s \<longleftrightarrow>
     (\<forall>a. sem_available (re_sem env) (ms_sems s a) + permits_at a (ms_lease s) = cap a)"

definition permits_exit :: "('s, 'sem, 'n) route_env \<Rightarrow> (nat \<Rightarrow> nat) \<Rightarrow> route_exit \<Rightarrow>
    ('s, 'sem) match_state \<Rightarrow> bool" where
  "permits_exit env cap x s \<longleftrightarrow> permits_ok env cap s \<and> (\<forall>r. x = ExitOk r \<longrightarrow> is_abort r)"

lemma permits_ok_frame [simp]:
  "permits_ok env cap (tracing f s) = permits_ok env cap s"
  "permits_ok env cap (release_holds env s) = permits_ok env cap s"
  "permits_ok env cap (s\<lparr>ms_cps := c\<rparr>) = permits_ok env cap s"
  "permits_ok env cap (s\<lparr>ms_counters := n\<rparr>) = permits_ok env cap s"
  "permits_ok env cap (s\<lparr>ms_limiter := l\<rparr>) = permits_ok env cap s"
  "permits_ok env cap (s\<lparr>ms_holds := h\<rparr>) = permits_ok env cap s"
  by (simp_all add: permits_ok_def tracing_def release_holds_def split: option.split prod.split)

lemma permits_ok_release [simp]:
  "semaphore_laws (re_sem env) \<Longrightarrow> permits_ok env cap (release_lease env s) = permits_ok env cap s"
  by (simp add: permits_ok_def release_lease_def lease_release_all_def available_drop_permits)

lemma permits_ok_everything [simp]:
  "semaphore_laws (re_sem env) \<Longrightarrow> permits_ok env cap (release_everything env s) = permits_ok env cap s"
  by (simp add: release_everything_def)

lemma tripleI:
  "(\<And>s a s'. P s \<Longrightarrow> m s = (Inr a, s') \<Longrightarrow> Q a s') \<Longrightarrow>
   (\<And>s x s'. P s \<Longrightarrow> m s = (Inl x, s') \<Longrightarrow> E x s') \<Longrightarrow> triple P m Q E"
  by (auto simp: triple_def split: prod.split sum.split)

lemma admit_cps_cases:
  assumes "admit_cps elapsed cleanup t s = (r, s')"
  obtains (admitted) c where "r = Inr ()" "s' = s\<lparr>ms_cps := c\<rparr>"
  | (refused) c phrase where "r = Inl (ExitOk (RAbort 503 (Some phrase)))"
      "s' = cleanup (tracing (trace_abort 503 (Some phrase)) (s\<lparr>ms_cps := c\<rparr>))"
proof (cases "tc_cps_limiter t")
  case None
  with assms admitted [of "ms_cps s"] show thesis by (simp add: admit_cps_def)
next
  case (Some a)
  obtain q l where q: "cps_try_acquire (elapsed a) (ms_cps s a) = (q, l)" by fastforce
  show thesis
  proof (cases q)
    case (Inl e)
    with q Some assms show thesis
      by (intro refused [of "cps_phrase e" "(ms_cps s)(a := l)"]) (simp_all add: admit_cps_def)
  next
    case (Inr u)
    with q Some assms show thesis
      by (intro admitted [of "(ms_cps s)(a := l)"]) (simp_all add: admit_cps_def)
  qed
qed

lemma admit_concurrent_cases:
  assumes "admit_concurrent env cleanup t s = (r, s')"
  obtains (unlimited) "tc_concurrent_call_limiter t = None" "r = Inr ()" "s' = s"
  | (admitted) l p h where "tc_concurrent_call_limiter t = Some l"
      "ccl_try_acquire (re_sem env) l (ms_sems s) = (Inr p, h)" "r = Inr ()"
      "s' = s\<lparr>ms_sems := h, ms_lease := lease_push p (ms_lease s)\<rparr>"
  | (refused) l e h phrase where "tc_concurrent_call_limiter t = Some l"
      "ccl_try_acquire (re_sem env) l (ms_sems s) = (Inl e, h)"
      "r = Inl (ExitOk (RAbort 503 (Some phrase)))"
      "s' = cleanup (tracing (trace_abort 503 (Some phrase)) (s\<lparr>ms_sems := h\<rparr>))"
proof (cases "tc_concurrent_call_limiter t")
  case None
  with assms unlimited show thesis by (simp add: admit_concurrent_def)
next
  case (Some l)
  obtain q h where q: "ccl_try_acquire (re_sem env) l (ms_sems s) = (q, h)" by fastforce
  show thesis
  proof (cases q)
    case (Inl e)
    with q Some assms show thesis
      by (intro refused [of l e h "ccl_phrase e"]) (simp_all add: admit_concurrent_def)
  next
    case (Inr p)
    with q Some assms admitted show thesis by (simp add: admit_concurrent_def)
  qed
qed

lemma admit_cps_permits:
  assumes "\<And>s. permits_ok env cap (cleanup s) = permits_ok env cap s"
  shows "triple (permits_ok env cap) (admit_cps elapsed cleanup t) (\<lambda>_. permits_ok env cap) (permits_exit env cap)"
  by (rule tripleI) (auto elim!: admit_cps_cases simp: permits_exit_def is_abort_def assms)

lemma permits_ok_refused:
  assumes "semaphore_laws (re_sem env)" "ccl_try_acquire (re_sem env) l (ms_sems s) = (Inl e, h)"
    and "permits_ok env cap s"
  shows "permits_ok env cap (s\<lparr>ms_sems := h\<rparr>)"
  using available_try_acquire [OF assms(1,2)] assms(3) by (simp add: permits_ok_def)

lemma permits_ok_granted:
  assumes "semaphore_laws (re_sem env)" "ccl_try_acquire (re_sem env) l (ms_sems s) = (Inr p, h)"
    and "permits_ok env cap s"
  shows "permits_ok env cap (s\<lparr>ms_sems := h, ms_lease := lease_push p (ms_lease s)\<rparr>)"
  unfolding permits_ok_def
proof
  fix a
  have "sem_available (re_sem env) (ms_sems s a)
      = sem_available (re_sem env) (h a) + (if a = ccl_semaphore l then 1 else 0)"
    and "permit_addr p = ccl_semaphore l"
    using available_try_acquire [OF assms(1,2)] by simp_all
  moreover have "sem_available (re_sem env) (ms_sems s a) + permits_at a (ms_lease s) = cap a"
    using assms(3) by (simp add: permits_ok_def)
  ultimately show "sem_available (re_sem env)
      (ms_sems (s\<lparr>ms_sems := h, ms_lease := lease_push p (ms_lease s)\<rparr>) a)
      + permits_at a (ms_lease (s\<lparr>ms_sems := h, ms_lease := lease_push p (ms_lease s)\<rparr>)) = cap a"
    by (auto simp: lease_push_def split: if_splits)
qed

lemma admit_concurrent_permits:
  assumes "semaphore_laws (re_sem env)" "\<And>s. permits_ok env cap (cleanup s) = permits_ok env cap s"
  shows "triple (permits_ok env cap) (admit_concurrent env cleanup t) (\<lambda>_. permits_ok env cap) (permits_exit env cap)"
  by (rule tripleI)
    (auto elim!: admit_concurrent_cases
      simp: permits_exit_def is_abort_def assms(2) permits_ok_refused [OF assms(1)]
        permits_ok_granted [OF assms(1)])

lemma enforce_policy_cases:
  assumes "enforce_policy env pid pol opt oc s = (r, s')"
  obtains (skipped) "pol = None \<or> re_policy env = None" "r = Inr ()" "s' = s"
  | (checked) spec ops penv q l where "pol = Some spec" "re_policy env = Some (ops, penv)"
      "check_policy ops penv pid spec (uri_user (io_caller opt)) (uri_user (io_callee opt)) oc
         (ms_limiter s) = (q, l)"
      "case q of
         Inl e \<Rightarrow> r = Inl (ExitErr (PolicyFailed e)) \<and> s' = s\<lparr>ms_limiter := l\<rparr>
       | Inr out \<Rightarrow>
           (if pco_status out = PolicyAllowed
            then r = Inr () \<and> s' = s\<lparr>ms_limiter := l, ms_holds := ms_holds s @ pco_holds out\<rparr>
            else \<exists>msg. r = Inl (ExitOk (RAbort 403 msg)) \<and> s' = release_everything env
              (tracing (trace_abort 403 msg)
                (s\<lparr>ms_limiter := l, ms_holds := ms_holds s @ pco_holds out\<rparr>)))"
proof (cases "pol = None \<or> re_policy env = None")
  case True
  with assms skipped show thesis by (auto simp: enforce_policy_def split: option.splits)
next
  case False
  then obtain spec ops penv where p: "pol = Some spec" "re_policy env = Some (ops, penv)" by auto
  obtain q l where q: "check_policy ops penv pid spec (uri_user (io_caller opt))
      (uri_user (io_callee opt)) oc (ms_limiter s) = (q, l)" by fastforce
  show thesis
  proof (rule checked [OF p q])
    show "case q of
         Inl e \<Rightarrow> r = Inl (ExitErr (PolicyFailed e)) \<and> s' = s\<lparr>ms_limiter := l\<rparr>
       | Inr out \<Rightarrow>
           (if pco_status out = PolicyAllowed
            then r = Inr () \<and> s' = s\<lparr>ms_limiter := l, ms_holds := ms_holds s @ pco_holds out\<rparr>
            else \<exists>msg. r = Inl (ExitOk (RAbort 403 msg)) \<and> s' = release_everything env
              (tracing (trace_abort 403 msg)
                (s\<lparr>ms_limiter := l, ms_holds := ms_holds s @ pco_holds out\<rparr>)))"
      using assms p q
      by (cases q) (auto simp: enforce_policy_def Let_def split: policy_check_status.splits)
  qed
qed

lemma enforce_policy_permits:
  assumes "semaphore_laws (re_sem env)"
  shows "triple (permits_ok env cap) (enforce_policy env pid pol opt oc) (\<lambda>_. permits_ok env cap)
    (permits_exit env cap)"
  by (rule tripleI)
    (auto elim!: enforce_policy_cases split: sum.splits if_splits
      simp: permits_exit_def is_abort_def assms)

text \<open>The rule that decides: the first that applies, unless the test of one before it fails.\<close>

fun deciding_rule :: "('s, 'sem, 'n) route_env \<Rightarrow> source_trunk option \<Rightarrow> match_context \<Rightarrow> route_rule list \<Rightarrow>
    route_rule option" where
  "deciding_rule env source cx [] = None"
| "deciding_rule env source cx (rule # rules) =
     (case rule_applies env source cx rule of
        Inl _ \<Rightarrow> None
      | Inr applies \<Rightarrow> if applies then Some rule else deciding_rule env source cx rules)"

text \<open>Composition, once for any invariant that the acquisitions keep: \<open>I\<close> holds while the function
  runs, \<open>E\<close> when it is left, and \<open>R\<close> of a result. A claim on rules is needed of the rule that
  decides.\<close>

locale route_invariant =
  fixes env :: "('s, 'sem, 'n) route_env"
    and I :: "('s, 'sem) match_state \<Rightarrow> bool"
    and E :: "route_exit \<Rightarrow> ('s, 'sem) match_state \<Rightarrow> bool"
    and R :: "route_result \<Rightarrow> ('s, 'sem) match_state \<Rightarrow> bool"
    and ok_hints :: "dialplan_hints option \<Rightarrow> bool"
    and ok_rule :: "route_rule \<Rightarrow> bool"
  assumes cps_dest: "triple I (admit_cps (re_elapsed_dest env) (release_everything env) t) (\<lambda>_. I) E"
    and concurrent_dest: "triple I (admit_concurrent env (release_everything env) t) (\<lambda>_. I) E"
    and policy_step: "triple I (enforce_policy env pid pol opt oc) (\<lambda>_. I) E"
    and counters_frame: "I s \<Longrightarrow> I (s\<lparr>ms_counters := c\<rparr>)"
    and trace_frame: "I s \<Longrightarrow> I (tracing f s)"
    and error_exit: "I s \<Longrightarrow> E (ExitErr e) s"
    and abort_exit: "I s \<Longrightarrow> ok_rule rule \<Longrightarrow> get_action_type (rl_action rule) \<in> {ActReject, ActBusy} \<Longrightarrow>
      E (ExitOk (RAbort status reason)) (release_lease env (tracing (trace_abort status reason) s))"
    and hints_stamp: "stamp_trunk api n t opt h = Inr (opt', h') \<Longrightarrow> ok_hints h \<Longrightarrow> ok_hints h'"
    and hints_codecs: "ok_hints h \<Longrightarrow> ok_hints (with_codecs rule h)"
    and hints_seed: "ok_hints h \<Longrightarrow> ok_hints (seed_hints rule h)"
    and attach: "I s \<Longrightarrow> ok_hints h \<Longrightarrow> attach_resources h s = (Inr h', s') \<Longrightarrow> result_hints r = h' \<Longrightarrow>
      \<not> is_abort r \<Longrightarrow> R r s'"
begin

lemma dial_trunk_inv:
  assumes "ok_hints hints"
  shows "triple I (dial_trunk env dest action oc opt hints) (\<lambda>(_, h) s. I s \<and> ok_hints h) E"
  unfolding dial_trunk_def
proof (rule triple_bind [where R = "\<lambda>_. I"], goal_cases)
  case 1
  show ?case
    by (rule tripleI) (auto simp: counters_frame error_exit split: prod.splits sum.splits)
next
  case (2 selected)
  show ?case
  proof (rule triple_then [where R = I])
    show "triple I (mmodify (tracing (\<lambda>tr. tr\<lparr>tr_selected_trunk := Some selected\<rparr>))) (\<lambda>_. I) E"
      by (rule triple_modify) (rule trace_frame)
    show "triple I (case Option.bind (re_trunks env) (\<lambda>m. hm_get m selected) of
        None \<Rightarrow> mret (opt, hints)
      | Some trunk \<Rightarrow>
          mthen (admit_cps (re_elapsed_dest env) (release_everything env) trunk)
            (mthen (admit_concurrent env (release_everything env) trunk)
              (mthen (enforce_policy env (''trunk:'' @ selected) (tc_policy trunk) opt oc)
                (mtry (stamp_trunk (re_sip env) selected trunk opt hints)))))
      (\<lambda>(_, h) s. I s \<and> ok_hints h) E"
    proof (cases "Option.bind (re_trunks env) (\<lambda>m. hm_get m selected)")
      case None
      with assms show ?thesis by (auto intro: triple_ret)
    next
      case (Some trunk)
      have "triple I (mtry (stamp_trunk (re_sip env) selected trunk opt hints))
          (\<lambda>(_, h) s. I s \<and> ok_hints h) E"
        by (rule triple_try) (auto intro: error_exit hints_stamp [OF _ assms])
      with Some show ?thesis
        by (auto intro!: triple_then [OF cps_dest] triple_then [OF concurrent_dest]
            triple_then [OF policy_step])
    qed
  qed
qed

lemma attach_inv:
  assumes "ok_hints h" "\<And>h'. result_hints (f h') = h'" "\<And>h'. \<not> is_abort (f h')"
  shows "triple I (mbind (attach_resources h) (\<lambda>h'. mret (f h'))) R E"
  by (rule tripleI)
    (auto simp: mbind_def mret_def attach_resources_def lease_take_def assms(2,3)
      intro!: attach [OF _ assms(1)])

lemma finish_inv:
  assumes "triple I m (\<lambda>(_, h) s. I s \<and> ok_hints h) E"
    and "\<And>o' h'. result_hints (f o' h') = h'" "\<And>o' h'. \<not> is_abort (f o' h')"
  shows "triple I (mbind m (\<lambda>(option', hints').
      mbind (attach_resources (with_codecs rule hints')) (\<lambda>hints''. mret (f option' hints'')))) R E"
proof (rule triple_bind [OF assms(1)], goal_cases)
  case (1 x)
  obtain o' h' where x: "x = (o', h')" by (cases x)
  show ?case
  proof (cases "ok_hints h'")
    case True
    from attach_inv [OF hints_codecs [OF True], of "f o'"] assms(2,3) x show ?thesis
      by (simp add: triple_def)
  qed (simp add: x triple_def)
qed

lemma act_forward_inv: "ok_hints h \<Longrightarrow> triple I (act_forward env mode rule oc opt h) R E"
  unfolding act_forward_def
  by (rule finish_inv) (auto simp: is_abort_def intro: dial_trunk_inv triple_ret split: option.split)

lemma act_queue_inv: "ok_hints h \<Longrightarrow> triple I (act_queue env mode rule oc opt h) R E"
  unfolding act_queue_def
  by (rule triple_bind [where R = "\<lambda>_. I"], rule triple_try, simp, simp add: error_exit, rule finish_inv)
    (auto simp: is_abort_def intro!: dial_trunk_inv triple_ret triple_try error_exit split: option.split)

lemma act_application_inv: "ok_hints h \<Longrightarrow> triple I (act_application rule opt h) R E"
  unfolding act_application_def
  by (rule triple_bind [where R = "\<lambda>_. I"], rule triple_try, simp, simp add: error_exit, rule attach_inv)
    (auto simp: is_abort_def)

lemma run_action_inv:
  assumes "ok_hints h" "ok_rule rule"
  shows "triple I (run_action env mode rule oc opt h) R E"
proof -
  have "triple I (abort_releasing_lease env status reason) R E"
    if "get_action_type (rl_action rule) \<in> {ActReject, ActBusy}" for status reason
    using abort_exit [OF _ assms(2) that] by (auto simp: triple_def abort_releasing_lease_def)
  then show ?thesis
    using act_forward_inv act_queue_inv act_application_inv assms(1)
    by (auto simp: run_action_def act_reject_def split: action_type.split option.split)
qed

lemma rewrite_option_inv: "triple I (rewrite_option env rule captures opt) (\<lambda>_. I) E"
proof (cases "rl_rewrite rule")
  case None
  then show ?thesis by (auto simp: rewrite_option_def intro: triple_ret)
next
  case (Some rw)
  show ?thesis
    unfolding rewrite_option_def Some option.case
    by (rule triple_then [where R = I], rule triple_modify, rule trace_frame, assumption,
        rule triple_try, simp, simp add: error_exit)
qed

lemma handle_rule_inv:
  assumes "ok_hints h" "ok_rule rule"
  shows "triple I (handle_rule env mode source cx rule opt h) R E"
  unfolding handle_rule_def Let_def
proof (rule triple_bind [where R = "\<lambda>_. I"], goal_cases)
  case 1
  show ?case by (rule triple_try) (simp_all add: error_exit)
next
  case (2 captures)
  show ?case
  proof (rule triple_then [where R = I])
    show "triple I (mmodify (tracing (\<lambda>tr. tr\<lparr>tr_matched_rule := Some (rl_name rule)\<rparr>))) (\<lambda>_. I) E"
      by (rule triple_modify) (rule trace_frame)
    show "triple I (mbind (rewrite_option env rule captures opt) (\<lambda>option'.
        mthen (enforce_policy env (rl_name rule) (rl_policy rule) option'
            (Option.bind (source_config env source) tc_country))
          (run_action env mode rule (Option.bind (source_config env source) tc_country) option'
            (seed_hints rule h)))) R E"
      by (rule triple_bind [OF rewrite_option_inv], rule triple_then [OF policy_step],
          rule run_action_inv [OF hints_seed [OF assms(1)] assms(2)])
  qed
qed

lemma match_rules_inv:
  assumes "ok_hints h" "\<And>rule. deciding_rule env source cx rules = Some rule \<Longrightarrow> ok_rule rule"
  shows "triple I (match_rules env mode source cx rules opt h) R E"
  using assms(2)
proof (induction rules)
  case Nil
  show ?case unfolding match_rules.simps by (rule attach_inv [OF assms(1)]) (simp_all add: is_abort_def)
next
  case (Cons rule rules)
  show ?case
    unfolding match_rules.simps
  proof (rule triple_bind [where R = "\<lambda>a s. I s \<and> rule_applies env source cx rule = Inr a"], goal_cases)
    case 1
    show ?case by (rule triple_try) (simp_all add: error_exit)
  next
    case (2 applies)
    show ?case
    proof (cases "rule_applies env source cx rule = Inr applies")
      case True
      with Cons handle_rule_inv [OF assms(1)] show ?thesis by (cases applies) simp_all
    qed (simp add: triple_def)
  qed
qed

lemma route_body_inv:
  assumes "triple P (admit_source env source) (\<lambda>_. I) E"
    and "ok_hints None" "\<And>t. ok_hints (merge_trunk_media_hints t None)"
    and "\<And>rule. deciding_rule env source (make_context opt origin)
        (case routes of None \<Rightarrow> [] | Some rules \<Rightarrow> rules) = Some rule \<Longrightarrow> ok_rule rule"
  shows "triple P (route_body env mode routes opt origin source) R E"
proof -
  let ?h = "case source_config env source of Some t \<Rightarrow> merge_trunk_media_hints t None | None \<Rightarrow> None"
  have h: "ok_hints ?h" using assms(2,3) by (simp split: option.split)
  have "triple I (case routes of
      None \<Rightarrow> mbind (attach_resources ?h) (\<lambda>hints. mret (RNotHandled opt hints))
    | Some rules \<Rightarrow> match_rules env mode source (make_context opt origin) rules opt ?h) R E"
    using attach_inv [OF h, of "RNotHandled opt"] match_rules_inv [OF h] assms(4)
    by (auto simp: is_abort_def split: option.split)
  then show ?thesis
    unfolding route_body_def Let_def by (rule triple_then [OF assms(1)])
qed

end

end
