(* ===== verification/Route_Resources.thy ===== *)
theory Route_Resources
  imports Route_Triples Policy_Runs
begin

text \<open>
  Accounting for the resources of a routing decision: concurrent-call permits on every path, and the
  concurrency slots of the policies, both as interpretations of the invariant locale.
\<close>

section \<open>Concurrent-call permits\<close>

lemma triple_trivial: "triple P m (\<lambda>_ _. True) (\<lambda>_ _. True)"
  by (simp add: triple_def split: prod.split sum.split)

definition permits_inv :: "('s, 'sem, 'n) route_env \<Rightarrow> (nat \<Rightarrow> nat) \<Rightarrow> ('s, 'sem) match_state \<Rightarrow> bool" where
  "permits_inv env cap s \<longleftrightarrow> (semaphore_laws (re_sem env) \<longrightarrow> permits_ok env cap s)"

definition permits_left :: "('s, 'sem, 'n) route_env \<Rightarrow> (nat \<Rightarrow> nat) \<Rightarrow> route_exit \<Rightarrow>
    ('s, 'sem) match_state \<Rightarrow> bool" where
  "permits_left env cap x s \<longleftrightarrow> (semaphore_laws (re_sem env) \<longrightarrow> permits_exit env cap x s)"

definition permits_result :: "('s, 'sem, 'n) route_env \<Rightarrow> (nat \<Rightarrow> nat) \<Rightarrow> route_result \<Rightarrow>
    ('s, 'sem) match_state \<Rightarrow> bool" where
  "permits_result env cap r s \<longleftrightarrow> (semaphore_laws (re_sem env) \<longrightarrow>
     (\<forall>a. sem_available (re_sem env) (ms_sems s a) + permits_at a (ms_lease s)
        + permits_at a (dh_concurrent_call_lease (the_hints (result_hints r))) = cap a))"

lemma permits_inv_triple:
  assumes "semaphore_laws (re_sem env) \<Longrightarrow>
    triple (permits_ok env cap) m (\<lambda>_. permits_ok env cap) (permits_exit env cap)"
  shows "triple (permits_inv env cap) m (\<lambda>_. permits_inv env cap) (permits_left env cap)"
  using assms triple_trivial
  by (cases "semaphore_laws (re_sem env)") (simp_all add: permits_inv_def [abs_def] permits_left_def [abs_def])

lemma attach_resources_hints:
  assumes "attach_resources h s = (Inr h', s')" "bare h"
  shows "dh_concurrent_call_lease (the_hints h') = ms_lease s \<and>
    dh_concurrency_holds (the_hints h') = ms_holds s \<and> s' = s\<lparr>ms_holds := [], ms_lease := []\<rparr>"
  using assms
  by (auto simp: attach_resources_def lease_take_def attach_concurrent_call_lease_def
      attach_holds_def bare_def)

interpretation route_permits: route_invariant env "permits_inv env cap" "permits_left env cap"
  "permits_result env cap" bare "\<lambda>_. True" for env cap
proof (unfold_locales, goal_cases)
  case (1 t)
  show ?case by (rule permits_inv_triple, rule admit_cps_permits) simp
next
  case (2 t)
  show ?case by (rule permits_inv_triple, rule admit_concurrent_permits) simp_all
next
  case (3 pid pol opt oc)
  show ?case by (rule permits_inv_triple, rule enforce_policy_permits)
next
  case (7 s rule status reason)
  then show ?case by (simp add: permits_inv_def permits_left_def permits_exit_def is_abort_def)
next
  case (11 s h h' s' r)
  then show ?case
    using attach_resources_hints [OF 11(3,2)]
    by (simp add: permits_inv_def permits_result_def permits_ok_def)
qed (simp_all add: permits_inv_def permits_left_def permits_exit_def bare_stamp)

lemma admit_source_permits:
  "triple (permits_inv env cap) (admit_source env source) (\<lambda>_. permits_inv env cap) (permits_left env cap)"
proof (cases "source_config env source")
  case None
  then show ?thesis by (auto simp: admit_source_def intro: triple_ret)
next
  case (Some t)
  show ?thesis
    unfolding admit_source_def Some option.case
    by (rule triple_then [where R = "permits_inv env cap"];
        rule permits_inv_triple, rule admit_cps_permits admit_concurrent_permits) simp_all
qed

lemma tripleD:
  assumes "triple P m Q E" "P s" "m s = (x, s')"
  shows "case x of Inl e \<Rightarrow> E e s' | Inr a \<Rightarrow> Q a s'"
  using assms by (auto simp: triple_def split: sum.splits)

text \<open>C1. No concurrent-call permit is lost or duplicated by a routing decision, on any path: the
  permits taken from a trunk's limiter are exactly those the result carries to the session, and a
  rejected call or an error leaves every limiter as it was.\<close>

theorem match_permits_accounted:
  assumes "semaphore_laws (re_sem env)"
    and "match_invite_impl env mode routes option origin source s = (r, s')"
  shows "sem_available (re_sem env) (ms_sems s a)
    = sem_available (re_sem env) (ms_sems s' a) + permits_at a (result_lease r)"
proof -
  define cap where "cap = (\<lambda>a. sem_available (re_sem env) (ms_sems s a))"
  define s0 where "s0 = s\<lparr>ms_holds := [], ms_lease := []\<rparr>"
  obtain x s1 where run: "route_body env mode routes option origin source s0 = (x, s1)" by fastforce
  have init: "permits_inv env cap s0" by (simp add: permits_inv_def permits_ok_def cap_def s0_def)
  have body: "triple (permits_inv env cap) (route_body env mode routes option origin source)
      (permits_result env cap) (permits_left env cap)"
    by (rule route_permits.route_body_inv [OF admit_source_permits]) simp_all
  have fin: "s' = (release_lease env s1)\<lparr>ms_holds := []\<rparr>"
    and r: "r = (case x of Inl (ExitErr e) \<Rightarrow> Inl e | Inl (ExitOk y) \<Rightarrow> Inr y | Inr y \<Rightarrow> Inr y)"
    using assms(2) run by (auto simp: match_invite_impl_def s0_def)
  have given_back: "sem_available (re_sem env) (ms_sems s' a)
      = sem_available (re_sem env) (ms_sems s1 a) + permits_at a (ms_lease s1)"
    using assms(1) by (simp add: fin release_lease_def lease_release_all_def available_drop_permits)
  show ?thesis
    using tripleD [OF body init run] assms(1) given_back r
    by (auto simp: permits_left_def permits_result_def permits_exit_def permits_ok_def cap_def
        result_lease_def is_abort_def hints_default_def
        split: sum.splits route_exit.splits route_result.splits)
qed

section \<open>Policy slots\<close>

definition slots_ok :: "(string \<Rightarrow> string \<Rightarrow> string \<Rightarrow> 'k) \<Rightarrow> ('s \<Rightarrow> 'k \<Rightarrow> nat) \<Rightarrow> ('k \<Rightarrow> nat) \<Rightarrow>
    ('s, 'sem) match_state \<Rightarrow> bool" where
  "slots_ok slot_of slots base s \<longleftrightarrow>
     (\<forall>k. slots (ms_limiter s) k = base k + holds_on slot_of (ms_holds s) k)"

text \<open>At an early exit the slots are still counted with the local holds; at an abort no hold is left, unless the
  deciding rule rejects by its action.\<close>

definition slots_exit :: "(string \<Rightarrow> string \<Rightarrow> string \<Rightarrow> 'k) \<Rightarrow> ('s \<Rightarrow> 'k \<Rightarrow> nat) \<Rightarrow> ('k \<Rightarrow> nat) \<Rightarrow> bool \<Rightarrow>
    route_exit \<Rightarrow> ('s, 'sem) match_state \<Rightarrow> bool" where
  "slots_exit slot_of slots base rejects x s \<longleftrightarrow> slots_ok slot_of slots base s \<and>
     (\<forall>r. x = ExitOk r \<longrightarrow> is_abort r \<and> (ms_holds s \<noteq> [] \<longrightarrow> rejects))"

definition slots_result :: "(string \<Rightarrow> string \<Rightarrow> string \<Rightarrow> 'k) \<Rightarrow> ('s \<Rightarrow> 'k \<Rightarrow> nat) \<Rightarrow> ('k \<Rightarrow> nat) \<Rightarrow>
    route_result \<Rightarrow> ('s, 'sem) match_state \<Rightarrow> bool" where
  "slots_result slot_of slots base r s \<longleftrightarrow>
     (\<forall>k. slots (ms_limiter s) k = base k + holds_on slot_of (dh_concurrency_holds (the_hints (result_hints r))) k)"

lemma slots_ok_frame [simp]:
  "slots_ok f g base (tracing h s) = slots_ok f g base s"
  "slots_ok f g base (release_lease env s) = slots_ok f g base s"
  "slots_ok f g base (s\<lparr>ms_cps := c\<rparr>) = slots_ok f g base s"
  "slots_ok f g base (s\<lparr>ms_counters := n\<rparr>) = slots_ok f g base s"
  "slots_ok f g base (s\<lparr>ms_sems := u\<rparr>) = slots_ok f g base s"
  "slots_ok f g base (s\<lparr>ms_sems := u, ms_lease := l\<rparr>) = slots_ok f g base s"
  "ms_holds (tracing h s) = ms_holds s"
  "ms_holds (release_lease env s) = ms_holds s"
  by (simp_all add: slots_ok_def tracing_def release_lease_def lease_release_all_def)

lemma release_everything_holds [simp]: "ms_holds (release_everything env s) = []"
  by (simp add: release_everything_def release_holds_def split: option.split prod.split)

context frequency_limiter
begin

lemma release_everything_slots:
  assumes "re_policy env = Some (ops, penv)" "slots_ok slot_of slots base s"
  shows "slots_ok slot_of slots base (release_everything env s)"
  using assms
  by (auto simp: slots_ok_def release_everything_def release_holds_def release_lease_def
      lease_release_all_def release_holds_slots)

lemma admit_cps_slots:
  assumes "re_policy env = Some (ops, penv)"
  shows "triple (slots_ok slot_of slots base) (admit_cps elapsed (release_everything env) t)
    (\<lambda>_. slots_ok slot_of slots base) (slots_exit slot_of slots base rejects)"
  by (rule tripleI)
    (auto elim!: admit_cps_cases simp: slots_exit_def is_abort_def release_everything_slots [OF assms])

lemma admit_concurrent_slots:
  assumes "re_policy env = Some (ops, penv)"
  shows "triple (slots_ok slot_of slots base) (admit_concurrent env (release_everything env) t)
    (\<lambda>_. slots_ok slot_of slots base) (slots_exit slot_of slots base rejects)"
  by (rule tripleI)
    (auto elim!: admit_concurrent_cases simp: slots_exit_def is_abort_def release_everything_slots [OF assms])

lemma check_policy_slots_ok:
  assumes "check_policy ops penv pid spec a b oc (ms_limiter s) = (q, l)" "slots_ok slot_of slots base s"
  shows "slots_ok slot_of slots base (s\<lparr>ms_limiter := l, ms_holds := ms_holds s @ outcome_holds q\<rparr>)"
  using check_policy_accounts [OF assms(1)] assms(2) by (simp add: slots_ok_def)

lemma enforce_policy_slots:
  assumes p: "re_policy env = Some (ops, penv)"
  shows "triple (slots_ok slot_of slots base) (enforce_policy env pid pol opt oc)
    (\<lambda>_. slots_ok slot_of slots base) (slots_exit slot_of slots base rejects)"
proof (rule tripleI)
  fix s u s'
  assume s: "slots_ok slot_of slots base s" and e: "enforce_policy env pid pol opt oc s = (Inr u, s')"
  from e show "slots_ok slot_of slots base s'"
  proof (cases rule: enforce_policy_cases)
    case (checked spec ops' penv' q l)
    with p check_policy_slots_ok [OF _ s, of penv] show ?thesis
      by (cases q) (fastforce split: if_splits)+
  qed (use s in simp)
next
  fix s x s'
  assume s: "slots_ok slot_of slots base s" and e: "enforce_policy env pid pol opt oc s = (Inl x, s')"
  from e show "slots_exit slot_of slots base rejects x s'"
  proof (cases rule: enforce_policy_cases)
    case (checked spec ops' penv' q l)
    show ?thesis
    proof (cases q)
      case (Inl err)
      with checked p check_policy_slots_ok [OF _ s, of penv] show ?thesis
        by (fastforce simp: slots_exit_def slots_ok_def)
    next
      case (Inr out)
      with checked p check_policy_slots_ok [OF _ s, of penv]
      have "slots_ok slot_of slots base
          (s\<lparr>ms_limiter := l, ms_holds := ms_holds s @ pco_holds out\<rparr>)" by fastforce
      with checked Inr show ?thesis
        by (auto simp: slots_exit_def is_abort_def release_everything_slots [OF p] split: if_splits)
    qed
  qed simp
qed

end

text \<open>The same for the in-memory limiter, as an interpretation for every environment.\<close>

definition mem_policy :: "(mem_limiter, 'sem, 'n) route_env \<Rightarrow> bool" where
  "mem_policy env \<longleftrightarrow> (\<exists>now today_end penv. re_policy env = Some (mem_limiter_ops now today_end, penv))"

definition slots_inv :: "(mem_limiter, 'sem, 'n) route_env \<Rightarrow> (string \<Rightarrow> nat) \<Rightarrow>
    (mem_limiter, 'sem) match_state \<Rightarrow> bool" where
  "slots_inv env base s \<longleftrightarrow> (mem_policy env \<longrightarrow> slots_ok mem_slot_of mem_slots base s)"

definition slots_left :: "(mem_limiter, 'sem, 'n) route_env \<Rightarrow> (string \<Rightarrow> nat) \<Rightarrow> bool \<Rightarrow> route_exit \<Rightarrow>
    (mem_limiter, 'sem) match_state \<Rightarrow> bool" where
  "slots_left env base rejects x s \<longleftrightarrow> (mem_policy env \<longrightarrow> slots_exit mem_slot_of mem_slots base rejects x s)"

definition slots_given :: "(mem_limiter, 'sem, 'n) route_env \<Rightarrow> (string \<Rightarrow> nat) \<Rightarrow> route_result \<Rightarrow>
    (mem_limiter, 'sem) match_state \<Rightarrow> bool" where
  "slots_given env base r s \<longleftrightarrow> (mem_policy env \<longrightarrow> slots_result mem_slot_of mem_slots base r s)"

lemma slots_inv_triple:
  assumes "\<And>now today_end penv. re_policy env = Some (mem_limiter_ops now today_end, penv) \<Longrightarrow>
    triple (slots_ok mem_slot_of mem_slots base) m (\<lambda>_. slots_ok mem_slot_of mem_slots base)
      (slots_exit mem_slot_of mem_slots base rejects)"
  shows "triple (slots_inv env base) m (\<lambda>_. slots_inv env base) (slots_left env base rejects)"
proof (cases "mem_policy env")
  case True
  then show ?thesis
    using assms by (auto simp: mem_policy_def slots_inv_def [abs_def] slots_left_def [abs_def])
next
  case False
  with triple_trivial show ?thesis by (simp add: slots_inv_def [abs_def] slots_left_def [abs_def])
qed

definition rejecting :: "route_rule \<Rightarrow> bool" where
  "rejecting rule \<longleftrightarrow> get_action_type (rl_action rule) \<in> {ActReject, ActBusy}"

interpretation route_slots: route_invariant env "slots_inv env base" "slots_left env base rejects"
  "slots_given env base" bare "\<lambda>rule. rejecting rule \<longrightarrow> rejects" for env base rejects
proof (unfold_locales, goal_cases)
  case (1 t)
  show ?case by (rule slots_inv_triple, rule mem_limiter.admit_cps_slots)
next
  case (2 t)
  show ?case by (rule slots_inv_triple, rule mem_limiter.admit_concurrent_slots)
next
  case (3 pid pol opt oc)
  show ?case by (rule slots_inv_triple, rule mem_limiter.enforce_policy_slots)
next
  case (7 s rule status reason)
  then have "rejects" by (auto simp: rejecting_def)
  with 7(1) show ?case by (simp add: slots_inv_def slots_left_def slots_exit_def is_abort_def)
next
  case (11 s h h' s' r)
  then show ?case
    using attach_resources_hints [OF 11(3,2)]
    by (simp add: slots_inv_def slots_given_def slots_ok_def slots_result_def)
qed (simp_all add: slots_inv_def slots_left_def slots_exit_def bare_stamp)

lemma admit_source_frame:
  assumes "admit_source env source s = (x, s')"
  shows "ms_limiter s' = ms_limiter s \<and> ms_holds s' = ms_holds s \<and> ms_counters s' = ms_counters s \<and>
    (\<forall>e. x = Inl e \<longrightarrow> (\<exists>status reason. e = ExitOk (RAbort status reason)))"
proof (cases "source_config env source")
  case None
  with assms show ?thesis by (auto simp: admit_source_def mret_def)
next
  case (Some t)
  obtain y s1 where y: "admit_cps (re_elapsed_source env) (\<lambda>s. s) t s = (y, s1)" by fastforce
  have 1: "ms_limiter s1 = ms_limiter s \<and> ms_holds s1 = ms_holds s \<and> ms_counters s1 = ms_counters s \<and>
      (\<forall>e. y = Inl e \<longrightarrow> (\<exists>status reason. e = ExitOk (RAbort status reason)))"
    using y by (cases rule: admit_cps_cases) (auto simp: tracing_def)
  obtain z s2 where z: "admit_concurrent env (\<lambda>s. s) t s1 = (z, s2)" by fastforce
  have 2: "ms_limiter s2 = ms_limiter s1 \<and> ms_holds s2 = ms_holds s1 \<and> ms_counters s2 = ms_counters s1 \<and>
      (\<forall>e. z = Inl e \<longrightarrow> (\<exists>status reason. e = ExitOk (RAbort status reason)))"
    using z by (cases rule: admit_concurrent_cases) (auto simp: tracing_def)
  show ?thesis
    using assms Some y z 1 2
    by (cases y) (auto simp: admit_source_def mthen_def mbind_def)
qed

lemma admit_source_slots:
  "triple (\<lambda>s. slots_inv env base s \<and> ms_holds s = []) (admit_source env source)
     (\<lambda>_. slots_inv env base) (slots_left env base rejects)"
  by (rule tripleI; drule admit_source_frame)
    (auto simp: slots_inv_def slots_left_def slots_exit_def slots_ok_def is_abort_def)

text \<open>C2. Policy slots are accounted for on every path: the slots taken by the route and trunk policies are
  those the result carries as holds to be released at teardown, and no others remain taken, except when
  the decision fails with an error or the rule that decides rejects by its action; then the holds the call
  still had are forgotten and their slots stay taken.\<close>

theorem match_slots_accounted:
  assumes "re_policy env = Some (mem_limiter_ops now today_end, penv)"
    and "match_invite_impl env mode routes option origin source s = (r, s')"
  shows "\<exists>forgotten.
    (\<forall>k. mem_slots (ms_limiter s') k = mem_slots (ms_limiter s) k + holds_on mem_slot_of (result_holds r) k
       + holds_on mem_slot_of forgotten k) \<and>
    (forgotten \<noteq> [] \<longrightarrow> isl r \<or> (\<exists>status reason rule. r = Inr (RAbort status reason) \<and>
       deciding_rule env source (make_context option origin) (case routes of None \<Rightarrow> [] | Some rules \<Rightarrow> rules)
         = Some rule \<and> get_action_type (rl_action rule) \<in> {ActReject, ActBusy}))"
proof -
  let ?rules = "case routes of None \<Rightarrow> [] | Some rules \<Rightarrow> rules"
  define base where "base = mem_slots (ms_limiter s)"
  define s0 where "s0 = s\<lparr>ms_holds := [], ms_lease := []\<rparr>"
  define rejects where "rejects \<longleftrightarrow>
    (\<exists>rule. deciding_rule env source (make_context option origin) ?rules = Some rule \<and> rejecting rule)"
  obtain x s1 where run: "route_body env mode routes option origin source s0 = (x, s1)" by fastforce
  have mem: "mem_policy env" using assms(1) by (auto simp: mem_policy_def)
  have init: "slots_inv env base s0 \<and> ms_holds s0 = []"
    by (simp add: slots_inv_def slots_ok_def base_def s0_def)
  have body: "triple (\<lambda>s. slots_inv env base s \<and> ms_holds s = [])
      (route_body env mode routes option origin source) (slots_given env base) (slots_left env base rejects)"
    by (rule route_slots.route_body_inv [OF admit_source_slots]) (auto simp: rejects_def)
  have s': "ms_limiter s' = ms_limiter s1"
    and r: "r = (case x of Inl (ExitErr e) \<Rightarrow> Inl e | Inl (ExitOk y) \<Rightarrow> Inr y | Inr y \<Rightarrow> Inr y)"
    using assms(2) run
    by (auto simp: match_invite_impl_def s0_def release_lease_def lease_release_all_def)
  note post = tripleD [OF body init run]
  define forgotten where "forgotten = (case x of Inl _ \<Rightarrow> ms_holds s1 | Inr _ \<Rightarrow> [])"
  have "\<forall>k. mem_slots (ms_limiter s') k = mem_slots (ms_limiter s) k + holds_on mem_slot_of (result_holds r) k
      + holds_on mem_slot_of forgotten k"
    using post mem r
    by (auto simp: slots_left_def slots_given_def slots_exit_def slots_ok_def slots_result_def s'
        base_def result_holds_def is_abort_def hints_default_def forgotten_def
        split: sum.splits route_exit.splits route_result.splits)
  moreover have "isl r \<or> (\<exists>status reason. r = Inr (RAbort status reason) \<and> rejects)" if "forgotten \<noteq> []"
    using post mem r that
    by (auto simp: slots_left_def slots_exit_def is_abort_def forgotten_def
        split: sum.splits route_exit.splits route_result.splits)
  ultimately show ?thesis unfolding rejects_def rejecting_def by blast
qed

end
