(* ===== verification/Route_Outcomes.thy ===== *)
theory Route_Outcomes
  imports Route_Resources
begin

text \<open>
  What the routing decision decides: rules are tried in order, inspection does not touch the
  destination, and a call leaves only through a trunk its rule lists and that admitted it.
\<close>

section \<open>Order of the rules\<close>

text \<open>C6. Rules are tried in their order and the first that applies decides alone: the rules before
  it leave no trace in the state, and the rules after it do not matter; a call no rule applies to is
  handed back unhandled, with its permits.\<close>

theorem first_rule_decides:
  "(\<forall>rule \<in> set before. rule_applies env source cx rule = Inr False) \<longrightarrow>
   (rule_applies env source cx rule = Inr True \<longrightarrow>
      match_rules env mode source cx (before @ rule # after) option h s
        = handle_rule env mode source cx rule option h s) \<and>
   (\<exists>hints. match_rules env mode source cx before option h s
      = (Inr (RNotHandled option hints), s\<lparr>ms_holds := [], ms_lease := []\<rparr>))"
proof (induction before)
  case Nil
  show ?case
    by (auto simp: mbind_def mtry_def mret_def attach_resources_def lease_take_def)
next
  case (Cons b before)
  then show ?case by (auto simp: mbind_def mtry_def)
qed

section \<open>Inspection\<close>

definition untouched :: "('s, 'sem) match_state \<Rightarrow> ('s, 'sem) match_state \<Rightarrow> bool" where
  "untouched s t \<longleftrightarrow> ms_counters t = ms_counters s \<and> ms_cps t = ms_cps s"

lemma untouched_frame [simp]:
  "untouched s0 (tracing f s) = untouched s0 s"
  "untouched s0 (release_everything env s) = untouched s0 s"
  "untouched s0 (release_lease env s) = untouched s0 s"
  "untouched s0 (s\<lparr>ms_limiter := l, ms_holds := hs\<rparr>) = untouched s0 s"
  "untouched s0 (s\<lparr>ms_limiter := l\<rparr>) = untouched s0 s"
  by (auto simp: untouched_def tracing_def release_everything_def release_lease_def release_holds_def
      lease_release_all_def split: option.split)

lemma enforce_policy_untouched:
  "triple (untouched s0) (enforce_policy env pid pol opt oc) (\<lambda>_. untouched s0) (\<lambda>_. untouched s0)"
  by (rule tripleI) (auto elim!: enforce_policy_cases split: sum.splits if_splits)

lemma attach_untouched:
  "triple (untouched s0) (attach_resources h) (\<lambda>_. untouched s0) (\<lambda>_. untouched s0)"
  by (simp add: triple_def attach_resources_def lease_take_def untouched_def)

lemma try_untouched: "triple (untouched s0) (mtry r) (\<lambda>_. untouched s0) (\<lambda>_. untouched s0)"
  by (rule triple_try) simp_all

lemma trace_untouched:
  "triple (untouched s0) (mmodify (tracing f)) (\<lambda>_. untouched s0) (\<lambda>_. untouched s0)"
  by (rule triple_modify) simp

lemma ret_untouched: "triple (untouched s0) (mret a) (\<lambda>_. untouched s0) E"
  by (rule triple_ret)

lemmas untouched_rules = enforce_policy_untouched attach_untouched try_untouched trace_untouched ret_untouched

lemma run_action_inspect:
  "triple (untouched s0) (run_action env MInspect rule oc opt h) (\<lambda>_. untouched s0) (\<lambda>_. untouched s0)"
proof -
  have "triple (untouched s0) (abort_releasing_lease env c m) (\<lambda>_. untouched s0) (\<lambda>_. untouched s0)" for c m
    by (simp add: triple_def abort_releasing_lease_def)
  then show ?thesis
    by (auto simp: run_action_def act_reject_def act_forward_def act_queue_def act_application_def split_def
        intro!: triple_bind untouched_rules split: action_type.split option.split)
qed

lemma handle_rule_inspect:
  "triple (untouched s0) (handle_rule env MInspect source cx rule opt h) (\<lambda>_. untouched s0) (\<lambda>_. untouched s0)"
  unfolding handle_rule_def Let_def rewrite_option_def
  by (auto intro!: triple_bind triple_then run_action_inspect untouched_rules split: option.split)

lemma match_rules_inspect:
  "triple (untouched s0) (match_rules env MInspect source cx rules opt h) (\<lambda>_. untouched s0) (\<lambda>_. untouched s0)"
  by (induction rules) (auto intro!: triple_bind handle_rule_inspect untouched_rules)

lemma admit_source_cps:
  assumes "admit_source env source s = (x, s')"
    and "\<forall>t. source_config env source = Some t \<longrightarrow> tc_cps_limiter t \<noteq> Some a"
  shows "ms_cps s' a = ms_cps s a"
proof (cases "source_config env source")
  case None
  with assms show ?thesis by (simp add: admit_source_def mret_def)
next
  case (Some t)
  obtain y s1 where y: "admit_cps (re_elapsed_source env) (\<lambda>s. s) t s = (y, s1)" by fastforce
  obtain z s2 where z: "admit_concurrent env (\<lambda>s. s) t s1 = (z, s2)" by fastforce
  have "ms_cps s1 a = ms_cps s a"
    using y assms(2) Some
    by (auto simp: admit_cps_def tracing_def split: option.splits prod.splits sum.splits)
  moreover have "ms_cps s2 = ms_cps s1"
    using z by (cases rule: admit_concurrent_cases) (auto simp: tracing_def)
  ultimately show ?thesis
    using assms(1) Some y z by (cases y) (auto simp: admit_source_def mthen_def mbind_def)
qed

text \<open>Inspecting a route is free of charge for the destination: no round-robin counter moves
  and no CPS limiter other than the source trunk's is consulted, whatever the rules.\<close>

theorem inspect_leaves_destinations:
  assumes "inspect_invite env routes option origin source s = (r, s')"
    and "\<forall>t. source_config env source = Some t \<longrightarrow> tc_cps_limiter t \<noteq> Some a"
  shows "ms_counters s' = ms_counters s \<and> ms_cps s' a = ms_cps s a"
proof -
  define s0 where "s0 = s\<lparr>ms_trace := None, ms_holds := [], ms_lease := []\<rparr>"
  obtain y s1 where y: "admit_source env source s0 = (y, s1)" by fastforce
  obtain x s2 where run: "route_body env MInspect routes option origin source s0 = (x, s2)" by fastforce
  have s': "ms_counters s' = ms_counters s2" "ms_cps s' = ms_cps s2"
    using assms(1) run
    by (auto simp: inspect_invite_def match_invite_impl_def s0_def release_lease_def lease_release_all_def)
  have "untouched s1 s2"
  proof (cases y)
    case (Inl e)
    with y run show ?thesis by (simp add: route_body_def mthen_def mbind_def untouched_def)
  next
    case (Inr u)
    let ?h = "case source_config env source of Some t \<Rightarrow> merge_trunk_media_hints t None | None \<Rightarrow> None"
    let ?m = "case routes of
        None \<Rightarrow> mbind (attach_resources ?h) (\<lambda>hints. mret (RNotHandled option hints))
      | Some rules \<Rightarrow> match_rules env MInspect source (make_context option origin) rules option ?h"
    have trip: "triple (untouched s1) ?m (\<lambda>_. untouched s1) (\<lambda>_. untouched s1)"
      by (auto intro!: triple_bind untouched_rules match_rules_inspect split: option.split)
    have m: "?m s1 = (x, s2)"
      using Inr y run by (simp add: route_body_def mthen_def mbind_def Let_def)
    have "untouched s1 s1" by (simp add: untouched_def)
    from tripleD [OF trip this m] show ?thesis by (simp split: sum.splits)
  qed
  then show ?thesis
    using admit_source_frame [OF y] admit_source_cps [OF y assms(2)] s'
    by (simp add: untouched_def s0_def)
qed

section \<open>Where a call leaves\<close>

lemma mbind_Inr:
  "mbind m f s = (Inr b, s') \<longleftrightarrow> (\<exists>a t. m s = (Inr a, t) \<and> f a t = (Inr b, s'))"
  by (auto simp: mbind_def split: prod.splits sum.splits)

lemma mthen_Inr:
  "mthen m n s = (Inr b, s') \<longleftrightarrow> (\<exists>t. m s = (Inr (), t) \<and> n t = (Inr b, s'))"
  by (auto simp: mthen_def mbind_Inr)

lemma mtry_Inr: "mtry r s = (Inr a, s') \<longleftrightarrow> r = Inr a \<and> s' = s"
  by (auto simp: mtry_def split: sum.splits)

text \<open>The trunk a result dials, if any.\<close>

definition dialled :: "dialplan_hints option \<Rightarrow> string option" where
  "dialled h = map_option oc_name (dh_outbound_trunk (the_hints h))"

text \<open>A call may go through trunk \<open>n\<close> of the destination: listed there, and if the trunk limits
  concurrent calls, with a permit of that limiter in the lease.\<close>

definition admitted_through :: "('s, 'sem, 'n) route_env \<Rightarrow> dest_config option \<Rightarrow> string \<Rightarrow>
    concurrent_call_lease \<Rightarrow> bool" where
  "admitted_through env dest n lease \<longleftrightarrow>
     (\<exists>d. dest = Some d \<and> n \<in> set (dest_trunks d)) \<and>
     (\<forall>t l. Option.bind (re_trunks env) (\<lambda>m. hm_get m n) = Some t \<and>
        tc_concurrent_call_limiter t = Some l \<longrightarrow> 0 < permits_at (ccl_semaphore l) lease)"

lemma dialled_merge [simp]:
  "dh_outbound_trunk (the_hints (merge_trunk_media_hints t h)) = dh_outbound_trunk (the_hints h)"
  by (auto simp: merge_trunk_media_hints_def Let_def)

lemma admit_concurrent_permit:
  assumes "admit_concurrent env cleanup t s = (Inr u, s')" "tc_concurrent_call_limiter t = Some l"
    and "semaphore_laws (re_sem env)"
  shows "0 < permits_at (ccl_semaphore l) (ms_lease s')"
  using assms(1)
proof (cases rule: admit_concurrent_cases)
  case (admitted l' p h)
  with available_try_acquire [OF assms(3) admitted(2)] assms(2) show ?thesis
    by (auto simp: lease_push_def)
qed (use assms(2) in simp_all)

lemma enforce_policy_lease:
  "enforce_policy env pid pol opt oc s = (Inr u, s') \<Longrightarrow> ms_lease s' = ms_lease s"
  by (erule enforce_policy_cases) (auto split: sum.splits if_splits)

lemma dial_trunk_admitted:
  assumes "dial_trunk env d action oc opt h s = (Inr (opt', h'), s')"
    and "select_env_ok (re_select env)" "semaphore_laws (re_sem env)" "dialled h = None"
  shows "\<forall>n. dialled h' = Some n \<longrightarrow> admitted_through env (Some d) n (ms_lease s')"
proof -
  obtain sel c where sel: "select_trunk (re_select env) (re_sip env) d (ra_select action)
      (ra_hash_key action) opt (re_trunks env) (ms_counters s) = (Inr sel, c)"
    using assms(1) by (auto simp: dial_trunk_def mbind_Inr split: prod.splits sum.splits)
  then have listed: "sel \<in> set (dest_trunks d)"
    using select_trunk_listed [OF assms(2) sel] by simp
  show ?thesis
  proof (cases "Option.bind (re_trunks env) (\<lambda>m. hm_get m sel)")
    case None
    with assms(1,4) sel show ?thesis by (auto simp: dial_trunk_def mbind_Inr mthen_Inr mret_def)
  next
    case (Some t)
    obtain s1 s2 s3 where steps: "admit_concurrent env (release_everything env) t s1 = (Inr (), s2)"
      "enforce_policy env (''trunk:'' @ sel) (tc_policy t) opt oc s2 = (Inr (), s3)" "s' = s3"
      "stamp_trunk (re_sip env) sel t opt h = Inr (opt', h')"
      using assms(1) sel Some
      by (auto simp: dial_trunk_def mbind_Inr mthen_Inr mtry_Inr mmodify_def)
    have "dialled h' = Some sel"
      using steps(4) by (auto simp: stamp_trunk_def attach_outbound_trunk_metadata_def dialled_def split: sum.splits)
    moreover have "0 < permits_at (ccl_semaphore l) (ms_lease s')"
      if "tc_concurrent_call_limiter t = Some l" for l
      using admit_concurrent_permit [OF steps(1) that assms(3)] enforce_policy_lease [OF steps(2)] steps(3)
      by simp
    ultimately show ?thesis using listed Some by (simp add: admitted_through_def)
  qed
qed

lemma attach_resources_lease:
  "attach_resources h s = (Inr h', s') \<Longrightarrow> dialled h' = dialled h \<and>
     (bare h \<longrightarrow> dh_concurrent_call_lease (the_hints h') = ms_lease s)"
  by (auto simp: attach_resources_def attach_concurrent_call_lease_def attach_holds_def lease_take_def
      dialled_def bare_def hints_default_def split: if_splits)

lemma dialled_simps [simp]:
  "dialled (with_codecs rule h) = dialled h"
  "dialled (seed_hints rule h) = dialled h"
  "dialled (merge_trunk_media_hints t h) = dialled h"
  by (auto simp: dialled_def with_codecs_def seed_hints_def Let_def split: option.split)

lemma dialled_None [simp]: "dialled None = None"
  by (simp add: dialled_def hints_default_def)

text \<open>What a result that leaves through a trunk must show.\<close>

definition leaves_admitted :: "('s, 'sem, 'n) route_env \<Rightarrow> dest_config option \<Rightarrow> route_result \<Rightarrow> bool" where
  "leaves_admitted env dest r \<longleftrightarrow> (\<forall>n. dialled (result_hints r) = Some n \<longrightarrow>
     admitted_through env dest n (dh_concurrent_call_lease (the_hints (result_hints r))))"

lemma dial_trunk_bare:
  assumes "dial_trunk env d action oc opt h s = (Inr (opt', h'), s')" "bare h"
  shows "bare h'"
  using assms by (auto simp: dial_trunk_def mbind_Inr mthen_Inr mtry_Inr mret_def
      dest: bare_stamp split: option.splits)

lemma leaves_admitted_attach:
  assumes "attach_resources (with_codecs rule h) s = (Inr h', s')" "result_hints r = h'" "bare h"
    and "\<forall>n. dialled h = Some n \<longrightarrow> admitted_through env dest n (ms_lease s)"
  shows "leaves_admitted env dest r"
  using attach_resources_lease [OF assms(1)] assms(2-4) by (simp add: leaves_admitted_def)

lemma act_forward_admitted:
  assumes "act_forward env mode rule oc opt h s = (Inr r, s')" "bare h" "dialled h = None"
    and "select_env_ok (re_select env)" "semaphore_laws (re_sem env)"
  shows "leaves_admitted env (ra_dest (rl_action rule)) r"
  using assms(1)
  by (auto simp: act_forward_def mbind_Inr mret_def split: option.splits if_splits
      intro: leaves_admitted_attach [OF _ _ dial_trunk_bare [OF _ assms(2)] dial_trunk_admitted [OF _ assms(4,5,3)]]
        leaves_admitted_attach [OF _ _ assms(2)] simp: assms(3))

lemma act_queue_admitted:
  assumes "act_queue env mode rule oc opt h s = (Inr r, s')" "bare h" "dialled h = None"
    and "select_env_ok (re_select env)" "semaphore_laws (re_sem env)"
  shows "leaves_admitted env (ra_dest (rl_action rule)) r"
  using assms(1)
  by (auto simp: act_queue_def mbind_Inr mtry_Inr mret_def split: option.splits if_splits
      intro: leaves_admitted_attach [OF _ _ dial_trunk_bare [OF _ assms(2)] dial_trunk_admitted [OF _ assms(4,5,3)]]
        leaves_admitted_attach [OF _ _ assms(2)] simp: assms(3))

lemma run_action_admitted:
  assumes "run_action env mode rule oc opt h s = (Inr r, s')" "bare h" "dialled h = None"
    and "select_env_ok (re_select env)" "semaphore_laws (re_sem env)"
  shows "leaves_admitted env (ra_dest (rl_action rule)) r"
proof (cases "get_action_type (rl_action rule)")
  case ActApplication
  with assms(1,3) show ?thesis
    by (auto simp: run_action_def act_application_def mbind_Inr mtry_Inr mret_def leaves_admitted_def
        dest!: attach_resources_lease)
qed (use assms act_forward_admitted [OF _ assms(2-5)] act_queue_admitted [OF _ assms(2-5)] in
    \<open>auto simp: run_action_def act_reject_def abort_releasing_lease_def split: option.splits\<close>)

lemma handle_rule_admitted:
  assumes "handle_rule env mode source cx rule opt h s = (Inr r, s')" "bare h" "dialled h = None"
    and "select_env_ok (re_select env)" "semaphore_laws (re_sem env)"
  shows "leaves_admitted env (ra_dest (rl_action rule)) r"
  using assms(1) run_action_admitted [OF _ _ _ assms(4,5), of mode rule] assms(2,3)
  by (fastforce simp: handle_rule_def Let_def mbind_Inr mthen_Inr)

lemma match_rules_admitted:
  assumes "match_rules env mode source cx rules opt h s = (Inr r, s')" "bare h" "dialled h = None"
    and "select_env_ok (re_select env)" "semaphore_laws (re_sem env)" "dialled (result_hints r) = Some n"
  shows "\<exists>rule \<in> set rules. rule_applies env source cx rule = Inr True \<and>
    leaves_admitted env (ra_dest (rl_action rule)) r"
  using assms(1)
proof (induction rules)
  case Nil
  then show ?case using assms(3,6)
    by (auto simp: mbind_Inr mret_def dest!: attach_resources_lease)
next
  case (Cons rule rules)
  then show ?case
    using handle_rule_admitted [OF _ assms(2-5)]
    by (auto simp: mbind_Inr mtry_Inr split: if_splits)
qed

text \<open>Leaving early is never a success: what leaves the function before its end is an abort.\<close>

lemma early_exit_aborts:
  assumes "route_body env mode routes option origin source s = (Inl (ExitOk r), s')"
    and "semaphore_laws (re_sem env)" "ms_lease s = []"
  shows "is_abort r"
proof -
  let ?cap = "\<lambda>a. sem_available (re_sem env) (ms_sems s a)"
  have body: "triple (permits_inv env ?cap) (route_body env mode routes option origin source)
      (permits_result env ?cap) (permits_left env ?cap)"
    by (rule route_permits.route_body_inv [OF admit_source_permits]) simp_all
  have "permits_inv env ?cap s" using assms(3) by (simp add: permits_inv_def permits_ok_def)
  from tripleD [OF body this assms(1)] assms(2) show ?thesis
    by (simp add: permits_left_def permits_exit_def)
qed

text \<open>C3. A call leaves only through a trunk listed by a rule that applies to it, and when that
  trunk limits concurrent calls the call carries one of its permits.\<close>

theorem call_leaves_admitted:
  assumes "match_invite_impl env mode (Some rules) option origin source s = (Inr r, s')"
    and "select_env_ok (re_select env)" "semaphore_laws (re_sem env)"
    and "dialled (result_hints r) = Some n"
  shows "\<exists>rule \<in> set rules. rule_applies env source (make_context option origin) rule = Inr True \<and>
    (\<exists>d. ra_dest (rl_action rule) = Some d \<and> n \<in> set (dest_trunks d)) \<and>
    (\<forall>t l. Option.bind (re_trunks env) (\<lambda>m. hm_get m n) = Some t \<and> tc_concurrent_call_limiter t = Some l \<longrightarrow>
       0 < permits_at (ccl_semaphore l) (dh_concurrent_call_lease (the_hints (result_hints r))))"
proof -
  define s0 where "s0 = s\<lparr>ms_holds := [], ms_lease := []\<rparr>"
  obtain x s1 where run: "route_body env mode (Some rules) option origin source s0 = (x, s1)" by fastforce
  have "\<not> is_abort r" using assms(4) by (auto simp: is_abort_def split: route_result.splits)
  moreover have "ms_lease s0 = []" by (simp add: s0_def)
  ultimately have "x = Inr r"
    using assms(1) run early_exit_aborts [OF _ assms(3), of mode "Some rules" option origin source s0]
    by (auto simp: match_invite_impl_def s0_def split: sum.splits route_exit.splits)
  let ?h = "case source_config env source of Some t \<Rightarrow> merge_trunk_media_hints t None | None \<Rightarrow> None"
  obtain s2 where "match_rules env mode source (make_context option origin) rules option ?h s2 = (Inr r, s1)"
    using run \<open>x = Inr r\<close> by (auto simp: route_body_def mthen_Inr Let_def)
  moreover have "bare ?h" "dialled ?h = None" by (auto split: option.split)
  ultimately obtain rule where "rule \<in> set rules"
    "rule_applies env source (make_context option origin) rule = Inr True"
    "leaves_admitted env (ra_dest (rl_action rule)) r"
    using match_rules_admitted assms(2-4) by meson
  then show ?thesis using assms(4) by (auto simp: leaves_admitted_def admitted_through_def)
qed

end
