(* ===== verification/Route_Runs.thy ===== *)
theory Route_Runs
  imports Route_Outcomes
begin

text \<open>
  Concrete runs of the routing decision: a node with one trunk limited to one call, the runs that
  instantiate the general results, and the runs in which a rejecting rule and an error keep a policy slot.
\<close>

section \<open>A node\<close>

definition demo_trunk :: trunk_config where
  "demo_trunk = trunk_config_default\<lparr>tc_dest := ''carrier'',
     tc_concurrent_call_limiter := Some \<lparr>ccl_limit = 1, ccl_semaphore = 7\<rparr>\<rparr>"

definition demo_conditions :: match_conditions where
  "demo_conditions = \<lparr>mc_from_user = None, mc_from_host = None, mc_to_user = None, mc_to_host = None,
     mc_request_uri_user = None, mc_request_uri_host = None, mc_headers = [], mc_caller = None,
     mc_callee = None\<rparr>"

definition demo_action :: route_action where
  "demo_action = \<lparr>ra_action = None, ra_dest = Some (DestSingle ''t''), ra_select = ''rr'', ra_hash_key = None,
     ra_reject_config = None, ra_queue = None, ra_app = None, ra_app_params = None, ra_auto_answer = True,
     ra_busy_wait = None\<rparr>"

definition demo_rule :: route_rule where
  "demo_rule = \<lparr>rl_name = ''out'', rl_id = None, rl_source_trunks = [], rl_source_trunk_ids = [],
     rl_match_conditions = demo_conditions, rl_rewrite = None, rl_action = demo_action, rl_codecs = [],
     rl_disable_ice_servers = None, rl_disabled = None,
     rl_policy = Some (policy_default\<lparr>ps_concurrency := Some \<lparr>cl_max_total = 1, cl_max_per_account = []\<rparr>\<rparr>),
     rl_max_ring_time = None\<rparr>"

definition demo_off :: route_rule where
  "demo_off = demo_rule\<lparr>rl_disabled := Some True\<rparr>"

definition demo_reject :: route_rule where
  "demo_reject = demo_rule\<lparr>rl_action := demo_action\<lparr>ra_dest := None, ra_action := Some ''reject''\<rparr>\<rparr>"

definition demo_enqueue :: route_rule where
  "demo_enqueue = demo_rule\<lparr>rl_action := demo_action\<lparr>ra_dest := None, ra_action := Some ''queue'', ra_queue := Some ''q''\<rparr>\<rparr>"

definition demo_env :: "(mem_limiter, nat, nat) route_env" where
  "demo_env = \<lparr>re_sip = demo_sip_api, re_regex = demo_regex_api, re_select = demo_select_env,
     re_sem = counting_semaphore, re_policy = Some (mem_limiter_ops 5 9, demo_policy_env),
     re_elapsed_source = (\<lambda>_. 0), re_elapsed_dest = (\<lambda>_. 0), re_lookup = None,
     re_trunks = Some [(''t'', demo_trunk)]\<rparr>"

definition demo_state :: "(mem_limiter, nat) match_state" where
  "demo_state = \<lparr>ms_cps = (\<lambda>_. cps_new 1), ms_sems = (\<lambda>_. 1), ms_counters = [], ms_limiter = [],
     ms_holds = [], ms_lease = [], ms_trace = None\<rparr>"

definition demo_request :: sip_request where
  "demo_request = \<lparr>rq_uri = demo_uri ''2000'', rq_headers = []\<rparr>"

lemma demo_laws: "semaphore_laws (re_sem demo_env)" "select_env_ok (re_select demo_env)"
  by (simp_all add: demo_env_def counting_semaphore_laws select_env_ok_def demo_select_env_def)

lemma demo_run:
  obtains r s' where
    "match_invite_impl demo_env MExecute (Some [demo_off, demo_rule]) demo_option demo_request None demo_state
       = (Inr r, s')"
    "dialled (result_hints r) = Some ''t''"
proof -
  have "case match_invite_impl demo_env MExecute (Some [demo_off, demo_rule]) demo_option demo_request None
      demo_state of (Inr r, s') \<Rightarrow> dialled (result_hints r) = Some ''t'' | _ \<Rightarrow> False"
    by code_simp
  then show thesis by (auto split: prod.splits sum.splits intro: that)
qed

section \<open>Runs that instantiate the general results\<close>

theorem match_permits_accounted_witness:
  "\<exists>r s'. match_invite_impl demo_env MExecute (Some [demo_off, demo_rule]) demo_option demo_request None
      demo_state = (Inr r, s') \<and>
    sem_available (re_sem demo_env) (ms_sems demo_state 7)
      = sem_available (re_sem demo_env) (ms_sems s' 7) + permits_at 7 (result_lease (Inr r))"
  by (rule demo_run) (use match_permits_accounted [OF demo_laws(1)] in blast)

theorem match_slots_accounted_witness:
  "\<exists>r s' forgotten. match_invite_impl demo_env MExecute (Some [demo_off, demo_rule]) demo_option demo_request None
      demo_state = (Inr r, s') \<and>
    (\<forall>k. mem_slots (ms_limiter s') k = mem_slots (ms_limiter demo_state) k
       + holds_on mem_slot_of (result_holds (Inr r)) k + holds_on mem_slot_of forgotten k) \<and>
    (forgotten \<noteq> [] \<longrightarrow> (\<exists>status reason rule. r = RAbort status reason \<and>
       deciding_rule demo_env None (make_context demo_option demo_request) [demo_off, demo_rule] = Some rule \<and>
       get_action_type (rl_action rule) \<in> {ActReject, ActBusy}))"
proof (rule demo_run)
  fix r s'
  assume run: "match_invite_impl demo_env MExecute (Some [demo_off, demo_rule]) demo_option demo_request None
    demo_state = (Inr r, s')"
  have "re_policy demo_env = Some (mem_limiter_ops 5 9, demo_policy_env)" by (simp add: demo_env_def)
  from match_slots_accounted [OF this run] run show ?thesis by auto
qed

theorem first_rule_decides_witness:
  "match_rules demo_env MExecute None (make_context demo_option demo_request) ([demo_off] @ demo_rule # [])
      demo_option None demo_state
    = handle_rule demo_env MExecute None (make_context demo_option demo_request) demo_rule demo_option None
        demo_state"
proof -
  have "\<forall>rule \<in> set [demo_off]. rule_applies demo_env None (make_context demo_option demo_request) rule = Inr False"
    by (simp add: rule_applies_def demo_off_def)
  moreover have "rule_applies demo_env None (make_context demo_option demo_request) demo_rule = Inr True"
    by code_simp
  ultimately show ?thesis using first_rule_decides by blast
qed

theorem call_leaves_admitted_witness:
  "\<exists>r s'. match_invite_impl demo_env MExecute (Some [demo_off, demo_rule]) demo_option demo_request None
      demo_state = (Inr r, s') \<and>
    (\<exists>rule \<in> set [demo_off, demo_rule].
       rule_applies demo_env None (make_context demo_option demo_request) rule = Inr True \<and>
       (\<exists>d. ra_dest (rl_action rule) = Some d \<and> ''t'' \<in> set (dest_trunks d)) \<and>
       (\<forall>t l. Option.bind (re_trunks demo_env) (\<lambda>m. hm_get m ''t'') = Some t \<and>
          tc_concurrent_call_limiter t = Some l \<longrightarrow>
          0 < permits_at (ccl_semaphore l) (dh_concurrent_call_lease (the_hints (result_hints r)))))"
  by (rule demo_run) (use call_leaves_admitted [OF _ demo_laws(2,1)] in blast)

section \<open>A rejecting rule keeps its slots\<close>

text \<open>C7. A rule that rejects by its action after its policy admitted the call keeps the slots the
  policy took: the call is aborted, no result carries the holds, and the in-memory limiter counts
  them on.\<close>

theorem reject_leaks_slots:
  assumes "re_policy env = Some (mem_limiter_ops now today_end, penv)"
    and "rl_policy rule = Some spec" "rl_rewrite rule = None"
    and "get_action_type (rl_action rule) \<in> {ActReject, ActBusy}"
    and "collect_match_captures (re_regex env) rule cx = Inr captures"
    and "check_policy (mem_limiter_ops now today_end) penv (rl_name rule) spec (uri_user (io_caller option))
      (uri_user (io_callee option)) (Option.bind (source_config env source) tc_country) (ms_limiter s)
      = (Inr out, l)"
    and "pco_status out = PolicyAllowed"
  shows "\<exists>status reason s'.
    handle_rule env mode source cx rule option h s = (Inl (ExitOk (RAbort status reason)), s') \<and>
    ms_lease s' = [] \<and>
    (\<forall>k. mem_slots (ms_limiter s') k = mem_slots (ms_limiter s) k + holds_on mem_slot_of (pco_holds out) k)"
proof -
  have "\<forall>k. mem_slots l k = mem_slots (ms_limiter s) k + holds_on mem_slot_of (pco_holds out) k"
    using mem_limiter.check_policy_accounts [OF assms(6)] by simp
  then show ?thesis
    using assms
    by (auto simp: handle_rule_def Let_def mbind_def mthen_def mtry_def mmodify_def rewrite_option_def
        mret_def enforce_policy_def run_action_def act_reject_def abort_releasing_lease_def tracing_def
        release_lease_def lease_release_all_def split: option.split)
qed

text \<open>The concrete run: the slot of the rejected call stays taken, and the same caller's next call,
  which a fresh node forwards, is refused by the policy.\<close>

lemma rejected_call_blocks_caller:
  "case match_invite demo_env (Some [demo_reject]) demo_option demo_request None demo_state of
     (Inr (RAbort status _), s1) \<Rightarrow> status = 403 \<and>
       (case fst (match_invite demo_env (Some [demo_rule]) demo_option demo_request None s1) of
          Inr (RAbort status' reason) \<Rightarrow> status' = 403 \<and> reason \<noteq> None | _ \<Rightarrow> False)
   | _ \<Rightarrow> False"
  "case fst (match_invite demo_env (Some [demo_rule]) demo_option demo_request None demo_state) of
     Inr (RForward _) \<Rightarrow> True | _ \<Rightarrow> False"
  by code_simp+

text \<open>The same after an error: the queue of the rule cannot be loaded, and the caller's next call is refused.\<close>

lemma failed_call_blocks_caller:
  "case match_invite demo_env (Some [demo_enqueue]) demo_option demo_request None demo_state of
     (Inl e, s1) \<Rightarrow> e = NoResourceLookup ''q'' \<and>
       (case fst (match_invite demo_env (Some [demo_rule]) demo_option demo_request None s1) of
          Inr (RAbort status' reason) \<Rightarrow> status' = 403 \<and> reason \<noteq> None | _ \<Rightarrow> False)
   | _ \<Rightarrow> False"
  by code_simp

theorem reject_leaks_slots_witness:
  "\<exists>status reason s'.
    handle_rule demo_env MExecute None (make_context demo_option demo_request) demo_reject demo_option None
      demo_state = (Inl (ExitOk (RAbort status reason)), s') \<and>
    mem_slots (ms_limiter demo_state) (mem_slot_of ''out'' ''caller'' ''100'') = 0 \<and>
    mem_slots (ms_limiter s') (mem_slot_of ''out'' ''caller'' ''100'') = 1"
proof -
  let ?cx = "make_context demo_option demo_request"
  let ?pol = "policy_default\<lparr>ps_concurrency := Some \<lparr>cl_max_total = 1, cl_max_per_account = []\<rparr>\<rparr>"
  let ?check = "check_policy (mem_limiter_ops 5 9) demo_policy_env (rl_name demo_reject) ?pol
    (uri_user (io_caller demo_option)) (uri_user (io_callee demo_option))
    (Option.bind (source_config demo_env None) tc_country) (ms_limiter demo_state)"
  have "case ?check of (Inr out, l) \<Rightarrow> pco_status out = PolicyAllowed \<and>
      holds_on mem_slot_of (pco_holds out) (mem_slot_of ''out'' ''caller'' ''100'') = 1 | _ \<Rightarrow> False"
    by code_simp
  then obtain out l where c: "?check = (Inr out, l)" "pco_status out = PolicyAllowed"
    "holds_on mem_slot_of (pco_holds out) (mem_slot_of ''out'' ''caller'' ''100'') = 1"
    by (auto split: prod.splits sum.splits)
  have "case collect_match_captures (re_regex demo_env) demo_reject ?cx of Inr _ \<Rightarrow> True | Inl _ \<Rightarrow> False"
    by code_simp
  then obtain caps where caps: "collect_match_captures (re_regex demo_env) demo_reject ?cx = Inr caps"
    by (auto split: sum.splits)
  have act: "get_action_type (rl_action demo_reject) \<in> {ActReject, ActBusy}" by code_simp
  have start: "mem_slots (ms_limiter demo_state) (mem_slot_of ''out'' ''caller'' ''100'') = 0" by code_simp
  show ?thesis
    using reject_leaks_slots [OF _ _ _ act caps c(1,2), of MExecute None] c(3) start
    by (fastforce simp: demo_env_def demo_reject_def demo_rule_def)
qed

end
