(* ===== verification/Rust_Time.thy ===== *)
theory Rust_Time
  imports Prelude
begin

text \<open>
  The clock of the sources: \<^verbatim>\<open>Duration\<close> and \<^verbatim>\<open>Instant\<close> as nanoseconds, and the panics of clock
  arithmetic.
\<close>

type_synonym duration = nat
type_synonym instant = nat

datatype time_panic = InstantOverflow | TimeoutTooFar | UnknownKey

definition ns_per_sec :: nat where
  "ns_per_sec = 1000000000"

definition from_secs :: "nat \<Rightarrow> duration" where
  "from_secs s = s * ns_per_sec"

definition as_secs :: "duration \<Rightarrow> nat" where
  "as_secs d = d div ns_per_sec"

text \<open>\<^verbatim>\<open>Instant + Duration\<close> panics beyond the representable seconds (\<^verbatim>\<open>i64\<close>).\<close>

definition instant_end :: instant where
  "instant_end = 2 ^ 63 * ns_per_sec"

definition instant_add :: "instant \<Rightarrow> duration \<Rightarrow> time_panic + instant" where
  "instant_add t d = (if t + d < instant_end then Inr (t + d) else Inl InstantOverflow)"

end
