(* ===== verification/Session_Timer.thy ===== *)
theory Session_Timer
  imports Sip_Types Rust_Time
begin

text \<open>
  Session timers (RFC 4028): \<^verbatim>\<open>src/src/proxy/proxy_call/session_timer.rs\<close>, and the refresh exchange
  and the timer arm of the session loop of
  \<^verbatim>\<open>src/src/proxy/proxy_call/sip_session/session.rs\<close>. Durations and instants are nanoseconds; a
  handler reads the clock once, and a reply of the peer carries the time it took. The delay queue is
  tokio-util's and a parameter, with its documented behaviour (panics included) as
  \<open>delay_queue_laws\<close>; what the dialogs answer to a refresh is the list of replies of the exchange.
\<close>

section \<open>Headers\<close>

datatype session_refresher = RefreshLocal | RefreshRemote
datatype session_refresher_param = ParamUac | ParamUas
datatype session_timer_mode = TimerOff | TimerSupported | TimerAlways

record session_expires =
  se_interval :: duration
  se_refresher :: "session_refresher_param option"

definition parse_refresher :: "string \<Rightarrow> session_refresher_param option" where
  "parse_refresher value =
     (let v = to_ascii_lowercase (trim value)
      in if v = ''uac'' then Some ParamUac else if v = ''uas'' then Some ParamUas else None)"

fun refresher_loop :: "string list \<Rightarrow> session_refresher_param option \<Rightarrow> session_refresher_param option" where
  "refresher_loop [] r = r"
| "refresher_loop (part # parts) r =
     refresher_loop parts
       (case split_once CHR ''='' (trim part) of
          None \<Rightarrow> r
        | Some (name, value) \<Rightarrow>
            if eq_ignore_ascii_case (trim name) ''refresher'' then parse_refresher value else r)"

definition session_expires_parse :: "string \<Rightarrow> session_expires option" where
  "session_expires_parse value =
     (case split_on CHR '';'' value of
        [] \<Rightarrow> None
      | first # parts \<Rightarrow>
          (case parse_uint (2 ^ 64) (trim first) of
             None \<Rightarrow> None
           | Some secs \<Rightarrow> Some \<lparr>se_interval = from_secs secs, se_refresher = refresher_loop parts None\<rparr>))"

definition session_expires_value :: "session_expires \<Rightarrow> string" where
  "session_expires_value se =
     nat_to_string (as_secs (se_interval se)) @
     (case se_refresher se of
        Some ParamUac \<Rightarrow> '';refresher=uac''
      | Some ParamUas \<Rightarrow> '';refresher=uas''
      | None \<Rightarrow> '''')"

definition session_expires_header :: "session_expires \<Rightarrow> sip_header" where
  "session_expires_header se = HOther ''Session-Expires'' (session_expires_value se)"

fun header_value :: "sip_header \<Rightarrow> string" where
  "header_value (HOther name v) = v"
| "header_value (HUserAgent v) = v"
| "header_value (HContact v) = v"
| "header_value (HStandard name v) = v"

definition timer_header_value :: "sip_header list \<Rightarrow> string \<Rightarrow> string option" where
  "timer_header_value headers name =
     map_option header_value (find (\<lambda>h. eq_ignore_ascii_case (header_name h) name) headers)"

definition timer_tagged :: "string \<Rightarrow> bool" where
  "timer_tagged v \<longleftrightarrow> (\<exists>part \<in> set (split_on CHR '','' v). trim part = ''timer'')"

definition has_timer_support :: "sip_header list \<Rightarrow> bool" where
  "has_timer_support headers \<longleftrightarrow>
     (\<exists>h \<in> set headers. case h of
        HStandard n v \<Rightarrow> n = ''Supported'' \<and> timer_tagged v
      | HOther n v \<Rightarrow> eq_ignore_ascii_case n ''Supported'' \<and> timer_tagged v
      | _ \<Rightarrow> False)"

definition parse_min_se :: "string \<Rightarrow> duration option" where
  "parse_min_se value = map_option from_secs (parse_uint (2 ^ 64) (trim value))"

definition select_server_timer_refresher :: "bool \<Rightarrow> bool \<Rightarrow> session_refresher_param option \<Rightarrow>
    session_refresher" where
  "select_server_timer_refresher peer_supports_timer session_expires_present requested =
     (case requested of
        Some ParamUac \<Rightarrow> RefreshRemote
      | Some ParamUas \<Rightarrow> RefreshLocal
      | None \<Rightarrow> if peer_supports_timer \<and> session_expires_present then RefreshRemote else RefreshLocal)"

definition select_client_timer_refresher :: "session_refresher_param option \<Rightarrow> session_refresher" where
  "select_client_timer_refresher response =
     (case response of Some ParamUas \<Rightarrow> RefreshRemote | _ \<Rightarrow> RefreshLocal)"

section \<open>The timer of a dialog\<close>

record session_timer_state =
  tm_mode :: session_timer_mode
  tm_enabled :: bool
  tm_session_interval :: duration
  tm_min_se :: duration
  tm_refresher :: session_refresher
  tm_active :: bool
  tm_refreshing :: bool
  tm_last_refresh :: instant
  tm_refresh_count :: u32
  tm_failed_refreshes :: u32

definition timer_default :: "instant \<Rightarrow> session_timer_state" where
  "timer_default now =
     \<lparr>tm_mode = TimerOff, tm_enabled = False, tm_session_interval = from_secs 1800,
      tm_min_se = from_secs 90, tm_refresher = RefreshLocal, tm_active = False,
      tm_refreshing = False, tm_last_refresh = now, tm_refresh_count = 0,
      tm_failed_refreshes = 0\<rparr>"

definition timer_running :: "session_timer_state \<Rightarrow> bool" where
  "timer_running t \<longleftrightarrow> tm_active t \<and> tm_enabled t"

definition should_refresh :: "instant \<Rightarrow> session_timer_state \<Rightarrow> bool" where
  "should_refresh now t \<longleftrightarrow>
     timer_running t \<and> \<not> tm_refreshing t \<and> tm_session_interval t div 2 \<le> now - tm_last_refresh t"

definition is_expired :: "instant \<Rightarrow> session_timer_state \<Rightarrow> bool" where
  "is_expired now t \<longleftrightarrow> timer_running t \<and> tm_session_interval t \<le> now - tm_last_refresh t"

text \<open>A deadline is computed (and can overflow) only for a running timer.\<close>

definition next_refresh_time :: "session_timer_state \<Rightarrow> time_panic + instant option" where
  "next_refresh_time t =
     (if timer_running t
      then map_sum id Some (instant_add (tm_last_refresh t) (tm_session_interval t div 2))
      else Inr None)"

definition expiration_time :: "session_timer_state \<Rightarrow> time_panic + instant option" where
  "expiration_time t =
     (if timer_running t then map_sum id Some (instant_add (tm_last_refresh t) (tm_session_interval t))
      else Inr None)"

definition time_until :: "instant \<Rightarrow> time_panic + instant option \<Rightarrow> time_panic + duration option" where
  "time_until now r = map_sum id (map_option (\<lambda>t. t - now)) r"

definition time_until_expiration :: "instant \<Rightarrow> session_timer_state \<Rightarrow> time_panic + duration option" where
  "time_until_expiration now t = time_until now (expiration_time t)"

definition time_until_refresh :: "instant \<Rightarrow> session_timer_state \<Rightarrow> time_panic + duration option" where
  "time_until_refresh now t = time_until now (next_refresh_time t)"

definition should_we_refresh :: "session_timer_state \<Rightarrow> bool" where
  "should_we_refresh t \<longleftrightarrow> tm_refresher t = RefreshLocal"

definition next_timeout :: "instant \<Rightarrow> session_timer_state \<Rightarrow> time_panic + duration option" where
  "next_timeout now t =
     (if \<not> timer_running t then Inr None
      else if \<not> tm_refreshing t \<and> should_we_refresh t then time_until_refresh now t
      else time_until_expiration now t)"

definition start_refresh :: "session_timer_state \<Rightarrow> bool \<times> session_timer_state" where
  "start_refresh t = (if tm_refreshing t then (False, t) else (True, t\<lparr>tm_refreshing := True\<rparr>))"

definition complete_refresh :: "instant \<Rightarrow> session_timer_state \<Rightarrow> session_timer_state" where
  "complete_refresh now t =
     t\<lparr>tm_last_refresh := now, tm_refreshing := False, tm_refresh_count := tm_refresh_count t + 1\<rparr>"

definition fail_refresh :: "session_timer_state \<Rightarrow> session_timer_state" where
  "fail_refresh t = t\<lparr>tm_refreshing := False, tm_failed_refreshes := tm_failed_refreshes t + 1\<rparr>"

definition update_refresh :: "instant \<Rightarrow> session_timer_state \<Rightarrow> session_timer_state" where
  "update_refresh now t = t\<lparr>tm_last_refresh := now, tm_refresh_count := tm_refresh_count t + 1\<rparr>"

definition min_se_value :: "session_timer_state \<Rightarrow> string" where
  "min_se_value t = nat_to_string (as_secs (tm_min_se t))"

definition header_session_expires :: "sip_header list \<Rightarrow> session_expires option" where
  "header_session_expires headers =
     Option.bind (timer_header_value headers ''Session-Expires'') session_expires_parse"

datatype timer_error = IntervalTooSmall nat nat | NoSessionTimer

text \<open>A refresh request of the peer: \<open>uac\<close> names the sender of the request.\<close>

definition apply_session_timer_headers :: "session_timer_state \<Rightarrow> sip_header list \<Rightarrow>
    timer_error + session_timer_state" where
  "apply_session_timer_headers t headers =
     (case header_session_expires headers of
        None \<Rightarrow> Inr t
      | Some se \<Rightarrow>
          if se_interval se < tm_min_se t
          then Inl (IntervalTooSmall (as_secs (se_interval se)) (as_secs (tm_min_se t)))
          else let t1 = t\<lparr>tm_session_interval := se_interval se\<rparr>
               in Inr (case se_refresher se of
                         Some ParamUac \<Rightarrow> t1\<lparr>tm_refresher := RefreshRemote\<rparr>
                       | Some ParamUas \<Rightarrow> t1\<lparr>tm_refresher := RefreshLocal\<rparr>
                       | None \<Rightarrow> t1))"

definition apply_refresh_response :: "instant \<Rightarrow> session_timer_state \<Rightarrow> sip_header list \<Rightarrow>
    (timer_error + unit) \<times> session_timer_state" where
  "apply_refresh_response now t headers =
     (case timer_header_value headers ''Session-Expires'' of
        None \<Rightarrow>
          let t1 = complete_refresh now t
          in (Inr (), if tm_mode t1 = TimerAlways then t1\<lparr>tm_refresher := RefreshLocal\<rparr>
                      else t1\<lparr>tm_enabled := False, tm_active := False\<rparr>)
      | Some value \<Rightarrow>
          (case session_expires_parse value of
             None \<Rightarrow> (Inr (), complete_refresh now t)
           | Some se \<Rightarrow>
               if se_interval se < tm_min_se t
               then (Inl (IntervalTooSmall (as_secs (se_interval se)) (as_secs (tm_min_se t))),
                     fail_refresh t)
               else let t1 = t\<lparr>tm_session_interval := se_interval se\<rparr>;
                        t2 = (case se_refresher se of
                                Some r \<Rightarrow> t1\<lparr>tm_refresher := select_client_timer_refresher (Some r)\<rparr>
                              | None \<Rightarrow> t1)
                    in (Inr (), complete_refresh now t2)))"

definition build_timer_headers :: "session_expires \<Rightarrow> string \<Rightarrow> bool \<Rightarrow> sip_header list" where
  "build_timer_headers se min_se include_content_type =
     (if include_content_type then [HStandard ''Content-Type'' ''application/sdp''] else []) @
     [session_expires_header se, HOther ''Min-SE'' min_se, HStandard ''Supported'' ''timer'']"

definition build_default_session_timer_headers :: "nat \<Rightarrow> nat \<Rightarrow> sip_header list" where
  "build_default_session_timer_headers session_expires min_se =
     build_timer_headers \<lparr>se_interval = from_secs session_expires, se_refresher = None\<rparr>
       (nat_to_string min_se) False"

definition build_session_timer_headers :: "session_timer_state \<Rightarrow> bool \<Rightarrow> sip_header list" where
  "build_session_timer_headers t include_content_type =
     build_timer_headers
       \<lparr>se_interval = tm_session_interval t,
        se_refresher = Some (case tm_refresher t of RefreshLocal \<Rightarrow> ParamUac | RefreshRemote \<Rightarrow> ParamUas)\<rparr>
       (min_se_value t) include_content_type"

definition build_session_timer_response_headers :: "session_timer_state \<Rightarrow> sip_header list" where
  "build_session_timer_response_headers t =
     session_expires_header
       \<lparr>se_interval = tm_session_interval t,
        se_refresher = Some (case tm_refresher t of RefreshLocal \<Rightarrow> ParamUas | RefreshRemote \<Rightarrow> ParamUac)\<rparr>
     # (if tm_refresher t = RefreshRemote then [HStandard ''Require'' ''timer''] else [])"

section \<open>The timers of a session\<close>

text \<open>The delay queue. \<open>dq_view\<close> gives the dialog and the deadline behind a key; an entry is delivered
  at the latest one millisecond after its deadline.\<close>

record ('d, 'q, 'k) delay_queue_api =
  dq_insert :: "'d \<Rightarrow> instant \<Rightarrow> duration \<Rightarrow> 'q \<Rightarrow> time_panic + 'k \<times> 'q"
  dq_reset :: "'k \<Rightarrow> instant \<Rightarrow> duration \<Rightarrow> 'q \<Rightarrow> time_panic + 'q"
  dq_remove :: "'k \<Rightarrow> 'q \<Rightarrow> time_panic + 'q"
  dq_clear :: "'q \<Rightarrow> 'q"
  dq_next :: "instant \<Rightarrow> 'q \<Rightarrow> ('k \<times> 'd \<times> 'q) option"
  dq_view :: "'q \<Rightarrow> 'k \<Rightarrow> ('d \<times> instant) option"
  dq_max :: duration

definition timer_granularity :: duration where
  "timer_granularity = 1000000"

definition queue_insert_law :: "('d, 'q, 'k) delay_queue_api \<Rightarrow> bool" where
  "queue_insert_law api \<longleftrightarrow> (\<forall>d now timeout q.
     if dq_max api < timeout then dq_insert api d now timeout q = Inl TimeoutTooFar
     else \<exists>k q'. dq_insert api d now timeout q = Inr (k, q') \<and> dq_view api q k = None \<and>
            dq_view api q' = (dq_view api q)(k \<mapsto> (d, now + timeout)))"

definition queue_reset_law :: "('d, 'q, 'k) delay_queue_api \<Rightarrow> bool" where
  "queue_reset_law api \<longleftrightarrow> (\<forall>k d t now timeout q. dq_view api q k = Some (d, t) \<longrightarrow>
     (if dq_max api < timeout then dq_reset api k now timeout q = Inl TimeoutTooFar
      else \<exists>q'. dq_reset api k now timeout q = Inr q' \<and>
             dq_view api q' = (dq_view api q)(k \<mapsto> (d, now + timeout))))"

definition queue_remove_law :: "('d, 'q, 'k) delay_queue_api \<Rightarrow> bool" where
  "queue_remove_law api \<longleftrightarrow> (\<forall>k q. dq_view api q k \<noteq> None \<longrightarrow>
     (\<exists>q'. dq_remove api k q = Inr q' \<and> dq_view api q' = (dq_view api q)(k := None)))"

definition queue_next_law :: "('d, 'q, 'k) delay_queue_api \<Rightarrow> bool" where
  "queue_next_law api \<longleftrightarrow> (\<forall>now q. case dq_next api now q of
     Some (k, d, q') \<Rightarrow>
       (\<exists>t. dq_view api q k = Some (d, t) \<and> t \<le> now) \<and> dq_view api q' = (dq_view api q)(k := None)
   | None \<Rightarrow> (\<forall>k d t. dq_view api q k = Some (d, t) \<longrightarrow> now < t + timer_granularity))"

definition delay_queue_laws :: "('d, 'q, 'k) delay_queue_api \<Rightarrow> bool" where
  "delay_queue_laws api \<longleftrightarrow>
     queue_insert_law api \<and> queue_reset_law api \<and> queue_remove_law api \<and> queue_next_law api \<and>
     (\<forall>q. dq_view api (dq_clear api q) = Map.empty)"

record ('d, 'q, 'k) session_timers =
  sts_timers :: "('d, session_timer_state) hmap"
  sts_refresh_disabled :: "'d set"
  sts_queue :: 'q
  sts_queue_keys :: "('d, 'k) hmap"

definition timers_clear_all :: "('d, 'q, 'k) delay_queue_api \<Rightarrow> ('d, 'q, 'k) session_timers \<Rightarrow>
    ('d, 'q, 'k) session_timers" where
  "timers_clear_all api s =
     \<lparr>sts_timers = [], sts_refresh_disabled = {}, sts_queue = dq_clear api (sts_queue s),
      sts_queue_keys = []\<rparr>"

definition timers_remove_dialog :: "'d \<Rightarrow> ('d, 'q, 'k) session_timers \<Rightarrow> ('d, 'q, 'k) session_timers" where
  "timers_remove_dialog d s =
     s\<lparr>sts_timers := hm_remove d (sts_timers s), sts_refresh_disabled := sts_refresh_disabled s - {d}\<rparr>"

definition set_timer :: "'d \<Rightarrow> session_timer_state \<Rightarrow> ('d, 'q, 'k) session_timers \<Rightarrow>
    ('d, 'q, 'k) session_timers" where
  "set_timer d t s = s\<lparr>sts_timers := hm_insert d t (sts_timers s)\<rparr>"

definition unschedule_timer :: "('d, 'q, 'k) delay_queue_api \<Rightarrow> 'd \<Rightarrow> ('d, 'q, 'k) session_timers \<Rightarrow>
    time_panic + ('d, 'q, 'k) session_timers" where
  "unschedule_timer api d s =
     (case hm_get (sts_queue_keys s) d of
        None \<Rightarrow> Inr s
      | Some key \<Rightarrow>
          map_sum id (\<lambda>q. s\<lparr>sts_queue_keys := hm_remove d (sts_queue_keys s), sts_queue := q\<rparr>)
            (dq_remove api key (sts_queue s)))"

definition schedule_timer_with_timeout :: "('d, 'q, 'k) delay_queue_api \<Rightarrow> instant \<Rightarrow> 'd \<Rightarrow>
    duration option \<Rightarrow> ('d, 'q, 'k) session_timers \<Rightarrow> time_panic + ('d, 'q, 'k) session_timers" where
  "schedule_timer_with_timeout api now d timeout s =
     (case timeout of
        None \<Rightarrow> unschedule_timer api d s
      | Some timeout \<Rightarrow>
          (case hm_get (sts_queue_keys s) d of
             Some key \<Rightarrow>
               map_sum id (\<lambda>q. s\<lparr>sts_queue := q, sts_queue_keys := hm_insert d key (sts_queue_keys s)\<rparr>)
                 (dq_reset api key now timeout (sts_queue s))
           | None \<Rightarrow>
               map_sum id (\<lambda>(key, q). s\<lparr>sts_queue := q, sts_queue_keys := hm_insert d key (sts_queue_keys s)\<rparr>)
                 (dq_insert api d now timeout (sts_queue s))))"

definition schedule_by :: "(instant \<Rightarrow> session_timer_state \<Rightarrow> time_panic + duration option) \<Rightarrow>
    ('d, 'q, 'k) delay_queue_api \<Rightarrow> instant \<Rightarrow> 'd \<Rightarrow> ('d, 'q, 'k) session_timers \<Rightarrow>
    time_panic + ('d, 'q, 'k) session_timers" where
  "schedule_by timeout_of api now d s =
     (case hm_get (sts_timers s) d of
        None \<Rightarrow> schedule_timer_with_timeout api now d None s
      | Some t \<Rightarrow>
          (case timeout_of now t of
             Inl p \<Rightarrow> Inl p
           | Inr timeout \<Rightarrow> schedule_timer_with_timeout api now d timeout s))"

definition schedule_timer :: "('d, 'q, 'k) delay_queue_api \<Rightarrow> instant \<Rightarrow> 'd \<Rightarrow>
    ('d, 'q, 'k) session_timers \<Rightarrow> time_panic + ('d, 'q, 'k) session_timers" where
  "schedule_timer = schedule_by next_timeout"

definition schedule_expiration_timer :: "('d, 'q, 'k) delay_queue_api \<Rightarrow> instant \<Rightarrow> 'd \<Rightarrow>
    ('d, 'q, 'k) session_timers \<Rightarrow> time_panic + ('d, 'q, 'k) session_timers" where
  "schedule_expiration_timer = schedule_by time_until_expiration"

datatype timer_action = ActionRefresh | ActionExpired

definition next_timer_action :: "instant \<Rightarrow> 'd \<Rightarrow> ('d, 'q, 'k) session_timers \<Rightarrow>
    timer_action option \<times> ('d, 'q, 'k) session_timers" where
  "next_timer_action now d s =
     (let s1 = s\<lparr>sts_queue_keys := hm_remove d (sts_queue_keys s)\<rparr>
      in case hm_get (sts_timers s) d of
           None \<Rightarrow> (None, s1)
         | Some t \<Rightarrow>
             if is_expired now t then (Some ActionExpired, s1)
             else if should_we_refresh t \<and> should_refresh now t
             then (case start_refresh t of
                     (True, t') \<Rightarrow> (Some ActionRefresh, set_timer d t' s1)
                   | (False, _) \<Rightarrow> (None, s1))
             else (None, s1))"

text \<open>Negotiation with the caller: the \<^verbatim>\<open>Err\<close> is the \<open>422\<close> answer with the smallest acceptable
  interval. Without a caller dialog nothing is negotiated.\<close>

definition server_timer :: "session_timer_mode \<Rightarrow> nat \<Rightarrow> instant \<Rightarrow> sip_header list \<Rightarrow>
    nat + session_timer_state" where
  "server_timer mode default_expires now headers =
     (let t0 = (timer_default now)\<lparr>tm_mode := mode\<rparr>;
          t1 = (case Option.bind (timer_header_value headers ''Min-SE'') parse_min_se of
                  Some m \<Rightarrow> if tm_min_se t0 < m then t0\<lparr>tm_min_se := m\<rparr> else t0
                | None \<Rightarrow> t0)
      in case timer_header_value headers ''Session-Expires'' of
           Some value \<Rightarrow>
             (case session_expires_parse value of
                Some se \<Rightarrow>
                  if se_interval se < tm_min_se t1 then Inl (as_secs (tm_min_se t1))
                  else Inr (t1\<lparr>tm_enabled := True, tm_session_interval := se_interval se, tm_active := True,
                              tm_refresher := select_server_timer_refresher (has_timer_support headers) True
                                (se_refresher se)\<rparr>)
              | None \<Rightarrow> Inr t1)
         | None \<Rightarrow>
             if mode = TimerAlways
             then Inr (t1\<lparr>tm_enabled := True,
                         tm_session_interval := max (from_secs default_expires) (tm_min_se t1),
                         tm_active := True,
                         tm_refresher := select_server_timer_refresher (has_timer_support headers) False None\<rparr>)
             else Inr t1)"

definition init_server_timer :: "('d, 'q, 'k) delay_queue_api \<Rightarrow> session_timer_mode \<Rightarrow> nat \<Rightarrow> instant \<Rightarrow>
    ('d \<times> sip_header list) option \<Rightarrow> ('d, 'q, 'k) session_timers \<Rightarrow>
    time_panic + (nat option \<times> ('d, 'q, 'k) session_timers)" where
  "init_server_timer api mode default_expires now caller s =
     (case caller of
        None \<Rightarrow> Inr (None, s)
      | Some (d, headers) \<Rightarrow>
          (case server_timer mode default_expires now headers of
             Inl min_se \<Rightarrow> Inr (Some min_se, s)
           | Inr t \<Rightarrow> map_sum id (Pair None) (schedule_timer api now d (set_timer d t s))))"

definition callee_timer :: "session_timer_mode \<Rightarrow> duration \<Rightarrow> instant \<Rightarrow> sip_header list \<Rightarrow>
    session_timer_state" where
  "callee_timer mode requested now headers =
     (let t0 = (timer_default now)\<lparr>tm_mode := mode\<rparr>
      in case header_session_expires headers of
           Some se \<Rightarrow>
             t0\<lparr>tm_enabled := True, tm_active := True, tm_last_refresh := now,
                tm_session_interval := se_interval se,
                tm_refresher := select_client_timer_refresher (se_refresher se)\<rparr>
         | None \<Rightarrow>
             if mode = TimerAlways
             then t0\<lparr>tm_enabled := True, tm_active := True, tm_last_refresh := now,
                     tm_session_interval := requested, tm_refresher := RefreshLocal\<rparr>
             else t0\<lparr>tm_session_interval := requested\<rparr>)"

definition init_callee_timer :: "('d, 'q, 'k) delay_queue_api \<Rightarrow> session_timer_mode \<Rightarrow> duration \<Rightarrow>
    instant \<Rightarrow> 'd \<Rightarrow> sip_header list \<Rightarrow> ('d, 'q, 'k) session_timers \<Rightarrow>
    time_panic + ('d, 'q, 'k) session_timers" where
  "init_callee_timer api mode requested now d headers s =
     schedule_timer api now d (set_timer d (callee_timer mode requested now headers) s)"

definition update_dialog_timer_from_headers :: "('d, 'q, 'k) delay_queue_api \<Rightarrow> instant \<Rightarrow> 'd \<Rightarrow>
    sip_header list \<Rightarrow> ('d, 'q, 'k) session_timers \<Rightarrow>
    time_panic + (timer_error option \<times> ('d, 'q, 'k) session_timers)" where
  "update_dialog_timer_from_headers api now d headers s =
     (case hm_get (sts_timers s) d of
        None \<Rightarrow> Inr (None, s)
      | Some t \<Rightarrow>
          (case apply_session_timer_headers t headers of
             Inl e \<Rightarrow> Inr (Some e, s)
           | Inr t' \<Rightarrow>
               map_sum id (Pair None)
                 (schedule_timer api now d
                   (set_timer d (if tm_active t' then update_refresh now t' else t') s))))"

section \<open>The refresh exchange\<close>

record sip_reply =
  sr_status :: nat
  sr_headers :: "sip_header list"

datatype refresh_reply = ReplyFailed | ReplyTimedOut | Replied sip_reply
datatype refresh_request = UpdateRequest "sip_header list" | ReinviteRequest "sip_header list" bool
datatype update_refresh_outcome = Refreshed | Retry | FallbackToReinvite | UpdateFailed

record ('d, 'q, 'k) refresh_run =
  rf_timers :: "('d, 'q, 'k) session_timers"
  rf_now :: instant
  rf_replies :: "(duration \<times> refresh_reply) list"
  rf_attempts :: "refresh_request list"

text \<open>One attempt at a request and what became of it: \<^verbatim>\<open>Err\<close> (the request failed, or the dialog was not
  found and nothing was sent), \<^verbatim>\<open>Ok(None)\<close> (no reply in time, or no caller dialog to send it on) and
  \<^verbatim>\<open>Ok(Some(..))\<close>. The list counts attempts, whether or not a message went out.\<close>

definition refresh_send :: "refresh_request \<Rightarrow> ('d, 'q, 'k) refresh_run \<Rightarrow>
    refresh_reply \<times> ('d, 'q, 'k) refresh_run" where
  "refresh_send req r =
     (let r1 = r\<lparr>rf_attempts := rf_attempts r @ [req]\<rparr>
      in case rf_replies r of
           [] \<Rightarrow> (ReplyTimedOut, r1)
         | (dt, reply) # rest \<Rightarrow> (reply, r1\<lparr>rf_now := rf_now r + dt, rf_replies := rest\<rparr>))"

definition status_successful :: "nat \<Rightarrow> bool" where
  "status_successful c \<longleftrightarrow> 200 \<le> c \<and> c < 300"

definition should_fallback_to_reinvite :: "nat \<Rightarrow> bool" where
  "should_fallback_to_reinvite c \<longleftrightarrow> c = 405 \<or> c = 501"

abbreviation interval_too_small :: nat where
  "interval_too_small \<equiv> 422"

abbreviation rf_timer :: "('d, 'q, 'k) refresh_run \<Rightarrow> 'd \<Rightarrow> session_timer_state option" where
  "rf_timer r d \<equiv> hm_get (sts_timers (rf_timers r)) d"

definition rf_set :: "'d \<Rightarrow> session_timer_state \<Rightarrow> ('d, 'q, 'k) refresh_run \<Rightarrow> ('d, 'q, 'k) refresh_run" where
  "rf_set d t r = r\<lparr>rf_timers := set_timer d t (rf_timers r)\<rparr>"

definition build_refresh_headers :: "'d \<Rightarrow> bool \<Rightarrow> ('d, 'q, 'k) refresh_run \<Rightarrow> sip_header list option" where
  "build_refresh_headers d include_content_type r =
     map_option (\<lambda>t. build_session_timer_headers t include_content_type) (rf_timer r d)"

definition apply_refresh_min_se :: "'d \<Rightarrow> sip_header list \<Rightarrow> ('d, 'q, 'k) refresh_run \<Rightarrow>
    (timer_error + bool) \<times> ('d, 'q, 'k) refresh_run" where
  "apply_refresh_min_se d headers r =
     (case Option.bind (timer_header_value headers ''Min-SE'') parse_min_se of
        None \<Rightarrow> (Inr False, r)
      | Some m \<Rightarrow>
          (case rf_timer r d of
             None \<Rightarrow> (Inl NoSessionTimer, r)
           | Some t \<Rightarrow>
               let t1 = (if tm_min_se t < m then t\<lparr>tm_min_se := m\<rparr> else t);
                   t2 = (if tm_session_interval t1 < m then t1\<lparr>tm_session_interval := m\<rparr> else t1)
               in (Inr True, rf_set d t2 r)))"

definition complete_refresh_from_response :: "'d \<Rightarrow> sip_reply \<Rightarrow> ('d, 'q, 'k) refresh_run \<Rightarrow>
    bool \<times> ('d, 'q, 'k) refresh_run" where
  "complete_refresh_from_response d resp r =
     (case rf_timer r d of
        None \<Rightarrow> (True, r)
      | Some t \<Rightarrow>
          (case apply_refresh_response (rf_now r) t (sr_headers resp) of
             (res, t') \<Rightarrow> (case res of Inr _ \<Rightarrow> True | Inl _ \<Rightarrow> False, rf_set d t' r)))"

definition fail_refresh_if_pending :: "'d \<Rightarrow> ('d, 'q, 'k) refresh_run \<Rightarrow> ('d, 'q, 'k) refresh_run" where
  "fail_refresh_if_pending d r =
     (case rf_timer r d of
        Some t \<Rightarrow> if tm_refreshing t then rf_set d (fail_refresh t) r else r
      | None \<Rightarrow> r)"

definition handle_update_refresh_response :: "'d \<Rightarrow> refresh_reply \<Rightarrow> bool \<Rightarrow> ('d, 'q, 'k) refresh_run \<Rightarrow>
    update_refresh_outcome \<times> ('d, 'q, 'k) refresh_run" where
  "handle_update_refresh_response d reply allow_retry r =
     (case reply of
        Replied resp \<Rightarrow>
          if status_successful (sr_status resp)
          then (case complete_refresh_from_response d resp r of
                  (ok, r') \<Rightarrow> (if ok then Refreshed else UpdateFailed, r'))
          else if sr_status resp = interval_too_small
          then (if \<not> allow_retry then (UpdateFailed, r)
                else case apply_refresh_min_se d (sr_headers resp) r of
                       (Inr True, r') \<Rightarrow> (Retry, r')
                     | (_, r') \<Rightarrow> (UpdateFailed, r'))
          else if should_fallback_to_reinvite (sr_status resp)
          then (FallbackToReinvite,
                r\<lparr>rf_timers := (rf_timers r)\<lparr>sts_refresh_disabled :=
                    insert d (sts_refresh_disabled (rf_timers r))\<rparr>\<rparr>)
          else (UpdateFailed, r)
      | _ \<Rightarrow> (UpdateFailed, r))"

definition try_update_once :: "'d \<Rightarrow> bool \<Rightarrow> ('d, 'q, 'k) refresh_run \<Rightarrow>
    update_refresh_outcome \<times> ('d, 'q, 'k) refresh_run" where
  "try_update_once d allow_retry r =
     (case build_refresh_headers d False r of
        None \<Rightarrow> (UpdateFailed, r)
      | Some headers \<Rightarrow>
          (case refresh_send (UpdateRequest headers) r of
             (reply, r1) \<Rightarrow>
               if reply = ReplyFailed then (UpdateFailed, r1)
               else handle_update_refresh_response d reply allow_retry r1))"

definition try_update_refresh :: "'d \<Rightarrow> ('d, 'q, 'k) refresh_run \<Rightarrow>
    update_refresh_outcome \<times> ('d, 'q, 'k) refresh_run" where
  "try_update_refresh d r =
     (case try_update_once d True r of
        (Retry, r1) \<Rightarrow> try_update_once d False r1
      | result \<Rightarrow> result)"

text \<open>A re-INVITE whose answer cannot be applied to the media counts as failed.\<close>

definition finish_reinvite :: "'d \<Rightarrow> refresh_reply \<Rightarrow> ('d, 'q, 'k) refresh_run \<Rightarrow>
    bool \<times> ('d, 'q, 'k) refresh_run" where
  "finish_reinvite d reply r =
     (case reply of
        Replied resp \<Rightarrow>
          if status_successful (sr_status resp) then complete_refresh_from_response d resp r
          else (False, fail_refresh_if_pending d r)
      | _ \<Rightarrow> (False, fail_refresh_if_pending d r))"

definition try_reinvite_refresh :: "'d \<Rightarrow> bool \<Rightarrow> ('d, 'q, 'k) refresh_run \<Rightarrow>
    bool \<times> ('d, 'q, 'k) refresh_run" where
  "try_reinvite_refresh d body r =
     (case build_refresh_headers d body r of
        None \<Rightarrow> (False, r)
      | Some headers \<Rightarrow>
          (case refresh_send (ReinviteRequest headers body) r of
             (Replied resp, r1) \<Rightarrow>
               if sr_status resp = interval_too_small
               then (case apply_refresh_min_se d (sr_headers resp) r1 of
                       (Inl _, r2) \<Rightarrow> (False, r2)
                     | (Inr False, r2) \<Rightarrow> finish_reinvite d (Replied resp) r2
                     | (Inr True, r2) \<Rightarrow>
                         (case build_refresh_headers d body r2 of
                            None \<Rightarrow> (False, r2)
                          | Some retry_headers \<Rightarrow>
                              (case refresh_send (ReinviteRequest retry_headers body) r2 of
                                 (reply, r3) \<Rightarrow> finish_reinvite d reply r3)))
               else finish_reinvite d (Replied resp) r1
           | (reply, r1) \<Rightarrow> finish_reinvite d reply r1))"

definition send_dialog_session_refresh :: "'d \<Rightarrow> bool \<Rightarrow> ('d, 'q, 'k) refresh_run \<Rightarrow>
    bool \<times> ('d, 'q, 'k) refresh_run" where
  "send_dialog_session_refresh d body r =
     (if d \<notin> sts_refresh_disabled (rf_timers r)
      then (case try_update_refresh d r of
              (Refreshed, r1) \<Rightarrow> (True, r1)
            | (Retry, r1) \<Rightarrow> (False, r1)
            | (FallbackToReinvite, r1) \<Rightarrow> try_reinvite_refresh d body r1
            | (UpdateFailed, r1) \<Rightarrow> (False, fail_refresh_if_pending d r1))
      else try_reinvite_refresh d body r)"

section \<open>The timer arm of the session loop\<close>

text \<open>The part of a session the timers touch: the timers, the set of dialogs to hang up, which every turn of
  the loop drains, and the clock. \<open>ts_hung_up\<close> is a history variable: the dialogs drained so far, each with
  the time and whether a live dialog was found and its hangup started. How that hangup ends changes neither
  the timers nor the set.\<close>

record ('d, 'q, 'k) timer_session =
  ts_timers :: "('d, 'q, 'k) session_timers"
  ts_pending_hangup :: "'d set"
  ts_clock :: instant
  ts_hung_up :: "('d \<times> instant \<times> bool) set"

text \<open>The top of every turn of the loop; \<open>live\<close> are the dialogs for which the dialog layer finds one that is
  not terminated, by its id or by its Call-ID.\<close>

definition drain_pending_hangup :: "'d set \<Rightarrow> ('d, 'q, 'k) timer_session \<Rightarrow> ('d, 'q, 'k) timer_session" where
  "drain_pending_hangup live s =
     s\<lparr>ts_pending_hangup := {},
       ts_hung_up := ts_hung_up s \<union> (\<lambda>d. (d, ts_clock s, d \<in> live)) ` ts_pending_hangup s\<rparr>"

definition timer_fired :: "('d, 'q, 'k) delay_queue_api \<Rightarrow> bool \<Rightarrow> (duration \<times> refresh_reply) list \<Rightarrow>
    'd \<Rightarrow> ('d, 'q, 'k) timer_session \<Rightarrow> time_panic + ('d, 'q, 'k) timer_session" where
  "timer_fired api body replies d s =
     (case next_timer_action (ts_clock s) d (ts_timers s) of
        (Some ActionRefresh, ts) \<Rightarrow>
          (case send_dialog_session_refresh d body
                  \<lparr>rf_timers = ts, rf_now = ts_clock s, rf_replies = replies, rf_attempts = []\<rparr> of
             (ok, r) \<Rightarrow>
               map_sum id (\<lambda>ts'. s\<lparr>ts_timers := ts', ts_clock := rf_now r\<rparr>)
                 ((if ok then schedule_timer else schedule_expiration_timer) api (rf_now r) d (rf_timers r)))
      | (Some ActionExpired, ts) \<Rightarrow>
          Inr (s\<lparr>ts_timers := ts, ts_pending_hangup := insert d (ts_pending_hangup s)\<rparr>)
      | (None, ts) \<Rightarrow> Inr (s\<lparr>ts_timers := ts\<rparr>))"

definition timer_tick :: "('d, 'q, 'k) delay_queue_api \<Rightarrow> bool \<Rightarrow> (duration \<times> refresh_reply) list \<Rightarrow>
    ('d, 'q, 'k) timer_session \<Rightarrow> time_panic + ('d, 'q, 'k) timer_session" where
  "timer_tick api body replies s =
     (case dq_next api (ts_clock s) (sts_queue (ts_timers s)) of
        None \<Rightarrow> Inr s
      | Some (key, d, q) \<Rightarrow> timer_fired api body replies d (s\<lparr>ts_timers := (ts_timers s)\<lparr>sts_queue := q\<rparr>\<rparr>))"

text \<open>What happens to the timers of a session: time passes, a turn of the loop begins, another part of the
  session asks for hangups, dialogs are set up and refreshed by the peer, the queue delivers, a dialog ends
  (two of the four places where it does also drop its mark), the session is torn down.\<close>

datatype 'd timer_event =
    Elapse duration
  | LoopTurn "'d set"
  | HangupRequested "'d set"
  | CallerAnswered "('d \<times> sip_header list) option" nat
  | CalleeAnswered 'd "sip_header list" duration
  | PeerRefresh 'd "sip_header list"
  | QueueDelivers bool "(duration \<times> refresh_reply) list"
  | DialogEnded 'd bool
  | TimersCleared

fun timer_event_step :: "('d, 'q, 'k) delay_queue_api \<Rightarrow> session_timer_mode \<Rightarrow> 'd timer_event \<Rightarrow>
    ('d, 'q, 'k) timer_session \<Rightarrow> time_panic + ('d, 'q, 'k) timer_session" where
  "timer_event_step api mode (Elapse dt) s = Inr (s\<lparr>ts_clock := ts_clock s + dt\<rparr>)"
| "timer_event_step api mode (LoopTurn live) s = Inr (drain_pending_hangup live s)"
| "timer_event_step api mode (HangupRequested ds) s =
     Inr (s\<lparr>ts_pending_hangup := ts_pending_hangup s \<union> ds\<rparr>)"
| "timer_event_step api mode (CallerAnswered caller default_expires) s =
     map_sum id (\<lambda>(_, ts). s\<lparr>ts_timers := ts\<rparr>)
       (init_server_timer api mode default_expires (ts_clock s) caller (ts_timers s))"
| "timer_event_step api mode (CalleeAnswered d headers requested) s =
     map_sum id (\<lambda>ts. s\<lparr>ts_timers := ts\<rparr>)
       (init_callee_timer api mode requested (ts_clock s) d headers (ts_timers s))"
| "timer_event_step api mode (PeerRefresh d headers) s =
     map_sum id (\<lambda>(_, ts). s\<lparr>ts_timers := ts\<rparr>)
       (update_dialog_timer_from_headers api (ts_clock s) d headers (ts_timers s))"
| "timer_event_step api mode (QueueDelivers body replies) s = timer_tick api body replies s"
| "timer_event_step api mode (DialogEnded d drop_mark) s =
     map_sum id (\<lambda>ts. s\<lparr>ts_timers := timers_remove_dialog d ts,
                        ts_pending_hangup := (if drop_mark then ts_pending_hangup s - {d} else ts_pending_hangup s)\<rparr>)
       (unschedule_timer api d (ts_timers s))"
| "timer_event_step api mode TimersCleared s = Inr (s\<lparr>ts_timers := timers_clear_all api (ts_timers s)\<rparr>)"

definition timer_event_apply :: "('d, 'q, 'k) delay_queue_api \<Rightarrow> session_timer_mode \<Rightarrow> 'd timer_event \<Rightarrow>
    time_panic + ('d, 'q, 'k) timer_session \<Rightarrow> time_panic + ('d, 'q, 'k) timer_session" where
  "timer_event_apply api mode e r = (case r of Inl p \<Rightarrow> Inl p | Inr s \<Rightarrow> timer_event_step api mode e s)"

end
