(* ===== verification/Session_Timer_Props.thy ===== *)
theory Session_Timer_Props
  imports Session_Timer Interfaces
begin

text \<open>
  The invariant of the session timers: the queue and its index stay in step, a refresh exchange ends
  with its timer settled whatever the peer answers, and every running timer is watched until it is
  refreshed or its session is marked for hangup, through every event of a session.
\<close>

section \<open>The queue and its index\<close>

lemma queue_insert:
  assumes "delay_queue_laws api"
  shows "dq_insert api d now timeout q = Inr (k, q') \<Longrightarrow> dq_view api q k = None"
    and "dq_insert api d now timeout q = Inr (k, q') \<Longrightarrow>
      dq_view api q' = (dq_view api q)(k \<mapsto> (d, now + timeout))"
    and "dq_insert api d now timeout q = Inl p \<Longrightarrow> p = TimeoutTooFar"
proof -
  have "queue_insert_law api" using assms by (simp add: delay_queue_laws_def)
  then have law: "if dq_max api < timeout then dq_insert api d now timeout q = Inl TimeoutTooFar
     else \<exists>k q'. dq_insert api d now timeout q = Inr (k, q') \<and> dq_view api q k = None \<and>
            dq_view api q' = (dq_view api q)(k \<mapsto> (d, now + timeout))"
    unfolding queue_insert_law_def by blast
  then show "dq_insert api d now timeout q = Inr (k, q') \<Longrightarrow> dq_view api q k = None"
    and "dq_insert api d now timeout q = Inr (k, q') \<Longrightarrow>
      dq_view api q' = (dq_view api q)(k \<mapsto> (d, now + timeout))"
    and "dq_insert api d now timeout q = Inl p \<Longrightarrow> p = TimeoutTooFar"
    by (auto split: if_splits)
qed

lemma queue_reset:
  assumes "delay_queue_laws api" "dq_view api q k = Some (d, t)"
  shows "dq_reset api k now timeout q = Inr q' \<Longrightarrow>
      dq_view api q' = (dq_view api q)(k \<mapsto> (d, now + timeout))"
    and "dq_reset api k now timeout q = Inl p \<Longrightarrow> p = TimeoutTooFar"
proof -
  have "queue_reset_law api" using assms by (simp add: delay_queue_laws_def)
  then have law: "if dq_max api < timeout then dq_reset api k now timeout q = Inl TimeoutTooFar
      else \<exists>q'. dq_reset api k now timeout q = Inr q' \<and>
             dq_view api q' = (dq_view api q)(k \<mapsto> (d, now + timeout))"
    using assms(2) unfolding queue_reset_law_def by blast
  then show "dq_reset api k now timeout q = Inr q' \<Longrightarrow>
      dq_view api q' = (dq_view api q)(k \<mapsto> (d, now + timeout))"
    and "dq_reset api k now timeout q = Inl p \<Longrightarrow> p = TimeoutTooFar"
    by (auto split: if_splits)
qed

lemma queue_remove:
  assumes "delay_queue_laws api" "dq_view api q k \<noteq> None"
  obtains q' where "dq_remove api k q = Inr q'" "dq_view api q' = (dq_view api q)(k := None)"
  using assms unfolding delay_queue_laws_def queue_remove_law_def by blast

lemma queue_next:
  assumes "delay_queue_laws api" "dq_next api now q = Some (k, d, q')"
  obtains t where "dq_view api q k = Some (d, t)" "t \<le> now" "dq_view api q' = (dq_view api q)(k := None)"
proof -
  have "queue_next_law api" using assms(1) by (simp add: delay_queue_laws_def)
  from this [unfolded queue_next_law_def, THEN spec [of _ now], THEN spec [of _ q]] assms(2) that show thesis by auto
qed

lemma queue_idle:
  assumes "delay_queue_laws api" "dq_next api now q = None" "dq_view api q k = Some (d, t)"
  shows "now < t + timer_granularity"
proof -
  have "queue_next_law api" using assms(1) by (simp add: delay_queue_laws_def)
  from this [unfolded queue_next_law_def, THEN spec [of _ now], THEN spec [of _ q]] assms(2,3) show ?thesis by auto
qed

text \<open>The index points at exactly the entries of the queue, one per dialog.\<close>

definition timers_synced :: "('d, 'q, 'k) delay_queue_api \<Rightarrow> ('d, 'q, 'k) session_timers \<Rightarrow> bool" where
  "timers_synced api ts \<longleftrightarrow>
     (\<forall>d k. hm_get (sts_queue_keys ts) d = Some k \<longleftrightarrow> (\<exists>t. dq_view api (sts_queue ts) k = Some (d, t)))"

definition deadline :: "('d, 'q, 'k) delay_queue_api \<Rightarrow> ('d, 'q, 'k) session_timers \<Rightarrow> 'd \<Rightarrow> instant option" where
  "deadline api ts d =
     Option.bind (hm_get (sts_queue_keys ts) d) (\<lambda>k. map_option snd (dq_view api (sts_queue ts) k))"

lemma synced_entry:
  assumes "timers_synced api ts" "hm_get (sts_queue_keys ts) d = Some k"
  obtains t where "dq_view api (sts_queue ts) k = Some (d, t)"
  using assms by (auto simp: timers_synced_def)

lemma synced_update:
  assumes "timers_synced api ts" "hm_get (sts_queue_keys ts) d = Some k \<or> dq_view api (sts_queue ts) k = None"
    and "dq_view api q = (dq_view api (sts_queue ts))(k \<mapsto> (d, t))"
    and "hm_get (sts_queue_keys ts) d = Some k \<or> hm_get (sts_queue_keys ts) d = None"
  shows "timers_synced api (ts\<lparr>sts_queue := q, sts_queue_keys := hm_insert d k (sts_queue_keys ts)\<rparr>)"
    and "deadline api (ts\<lparr>sts_queue := q, sts_queue_keys := hm_insert d k (sts_queue_keys ts)\<rparr>)
      = (deadline api ts)(d \<mapsto> t)"
proof -
  have keys: "hm_get (sts_queue_keys ts) e = Some l \<longleftrightarrow> (\<exists>t. dq_view api (sts_queue ts) l = Some (e, t))" for e l
    using assms(1) by (simp add: timers_synced_def)
  have k: "hm_get (sts_queue_keys ts) e \<noteq> Some k" if "e \<noteq> d" for e
    using assms(2) keys [of e k] keys [of d k] that by auto
  have d: "l = k" if "dq_view api (sts_queue ts) l = Some (d, t)" for l t
    using assms(4) keys [of d l] that by auto
  have "hm_get (hm_insert d k (sts_queue_keys ts)) e = Some l \<longleftrightarrow> (\<exists>t. dq_view api q l = Some (e, t))" for e l
  proof (cases "l = k")
    case True
    with k [of e] show ?thesis by (simp add: assms(3))
  next
    case False
    then have "e = d \<Longrightarrow> \<not> (\<exists>t. dq_view api (sts_queue ts) l = Some (e, t))" using d by blast
    with False keys [of e l] show ?thesis by (simp add: assms(3))
  qed
  then show "timers_synced api (ts\<lparr>sts_queue := q, sts_queue_keys := hm_insert d k (sts_queue_keys ts)\<rparr>)"
    by (simp add: timers_synced_def)
  show "deadline api (ts\<lparr>sts_queue := q, sts_queue_keys := hm_insert d k (sts_queue_keys ts)\<rparr>)
      = (deadline api ts)(d \<mapsto> t)"
  proof
    fix e
    show "deadline api (ts\<lparr>sts_queue := q, sts_queue_keys := hm_insert d k (sts_queue_keys ts)\<rparr>) e
      = ((deadline api ts)(d \<mapsto> t)) e"
      using k [of e] assms(3)
      by (cases "e = d"; cases "hm_get (sts_queue_keys ts) e") (auto simp: deadline_def)
  qed
qed

lemma synced_drop:
  assumes "timers_synced api ts" "hm_get (sts_queue_keys ts) d = Some k"
    and "dq_view api q = (dq_view api (sts_queue ts))(k := None)"
  shows "timers_synced api (ts\<lparr>sts_queue_keys := hm_remove d (sts_queue_keys ts), sts_queue := q\<rparr>)"
    and "deadline api (ts\<lparr>sts_queue_keys := hm_remove d (sts_queue_keys ts), sts_queue := q\<rparr>)
      = (deadline api ts)(d := None)"
proof -
  have keys: "hm_get (sts_queue_keys ts) e = Some l \<longleftrightarrow> (\<exists>t. dq_view api (sts_queue ts) l = Some (e, t))" for e l
    using assms(1) by (simp add: timers_synced_def)
  have k: "hm_get (sts_queue_keys ts) e \<noteq> Some k" if "e \<noteq> d" for e
    using assms(2) keys [of e k] keys [of d k] that by auto
  have "hm_get (hm_remove d (sts_queue_keys ts)) e = Some l \<longleftrightarrow> (\<exists>t. dq_view api q l = Some (e, t))" for e l
  proof (cases "l = k")
    case True
    with k [of e] show ?thesis by (simp add: assms(3))
  next
    case False
    then have "hm_get (sts_queue_keys ts) d \<noteq> Some l" using assms(2) by simp
    with False keys [of e l] keys [of d l] show ?thesis by (cases "e = d") (simp_all add: assms(3))
  qed
  then show "timers_synced api (ts\<lparr>sts_queue_keys := hm_remove d (sts_queue_keys ts), sts_queue := q\<rparr>)"
    by (simp add: timers_synced_def)
  show "deadline api (ts\<lparr>sts_queue_keys := hm_remove d (sts_queue_keys ts), sts_queue := q\<rparr>)
      = (deadline api ts)(d := None)"
  proof
    fix e
    show "deadline api (ts\<lparr>sts_queue_keys := hm_remove d (sts_queue_keys ts), sts_queue := q\<rparr>) e
      = ((deadline api ts)(d := None)) e"
      using k [of e] assms(3)
      by (cases "e = d"; cases "hm_get (sts_queue_keys ts) e") (auto simp: deadline_def)
  qed
qed

lemma synced_frame:
  assumes "sts_queue ts' = sts_queue ts" "sts_queue_keys ts' = sts_queue_keys ts"
  shows "timers_synced api ts' = timers_synced api ts" "deadline api ts' = deadline api ts"
  using assms by (simp_all add: timers_synced_def deadline_def fun_eq_iff)

lemma synced_deadline_None:
  "timers_synced api ts \<Longrightarrow> deadline api ts d = None \<longleftrightarrow> hm_get (sts_queue_keys ts) d = None"
  by (cases "hm_get (sts_queue_keys ts) d") (auto simp: deadline_def elim: synced_entry)

text \<open>What scheduling does: the deadline of the one dialog changes, and a failure is never a lost key.\<close>

lemma unschedule_timer_spec:
  assumes "delay_queue_laws api" "timers_synced api ts"
  obtains ts' where "unschedule_timer api d ts = Inr ts'" "timers_synced api ts'"
    "deadline api ts' = (deadline api ts)(d := None)"
    "sts_timers ts' = sts_timers ts" "sts_refresh_disabled ts' = sts_refresh_disabled ts"
proof (cases "hm_get (sts_queue_keys ts) d")
  case None
  have "deadline api ts = (deadline api ts)(d := None)"
    using None by (simp add: deadline_def fun_eq_iff)
  with None assms(2) show ?thesis by (intro that [of ts]) (simp_all add: unschedule_timer_def)
next
  case (Some k)
  then have "dq_view api (sts_queue ts) k \<noteq> None" using assms(2) by (auto elim: synced_entry)
  then obtain q where q: "dq_remove api k (sts_queue ts) = Inr q"
    "dq_view api q = (dq_view api (sts_queue ts))(k := None)"
    using queue_remove [OF assms(1)] by blast
  show ?thesis
    using synced_drop [OF assms(2) Some q(2)] Some q(1)
    by (intro that [of "ts\<lparr>sts_queue_keys := hm_remove d (sts_queue_keys ts), sts_queue := q\<rparr>"])
      (simp_all add: unschedule_timer_def)
qed

lemma schedule_with_timeout_spec:
  assumes "delay_queue_laws api" "timers_synced api ts"
    and "schedule_timer_with_timeout api now d timeout ts = r"
  shows "case r of Inl p \<Rightarrow> p = TimeoutTooFar
    | Inr ts' \<Rightarrow> timers_synced api ts' \<and> deadline api ts' = (deadline api ts)(d := map_option ((+) now) timeout) \<and>
        sts_timers ts' = sts_timers ts \<and> sts_refresh_disabled ts' = sts_refresh_disabled ts"
proof (cases timeout)
  case None
  obtain ts' where "unschedule_timer api d ts = Inr ts'" "timers_synced api ts'"
    "deadline api ts' = (deadline api ts)(d := None)"
    "sts_timers ts' = sts_timers ts" "sts_refresh_disabled ts' = sts_refresh_disabled ts"
    by (rule unschedule_timer_spec [OF assms(1,2)])
  with None assms(3) show ?thesis by (auto simp: schedule_timer_with_timeout_def)
next
  case (Some to)
  show ?thesis
  proof (cases "hm_get (sts_queue_keys ts) d")
    case None
    show ?thesis
    proof (cases "dq_insert api d now to (sts_queue ts)")
      case (Inl p)
      with assms(3) Some None queue_insert(3) [OF assms(1) Inl] show ?thesis
        by (auto simp: schedule_timer_with_timeout_def)
    next
      case (Inr kq)
      obtain k q where kq: "dq_insert api d now to (sts_queue ts) = Inr (k, q)" using Inr by (cases kq) auto
      note new = queue_insert(1,2) [OF assms(1) kq]
      show ?thesis
        using synced_update [OF assms(2) disjI2 [OF new(1)] new(2) disjI2 [OF None]] assms(3) Some None kq
        by (auto simp: schedule_timer_with_timeout_def)
    qed
  next
    case key: (Some k)
    then obtain t where t: "dq_view api (sts_queue ts) k = Some (d, t)" using assms(2) by (auto elim: synced_entry)
    show ?thesis
    proof (cases "dq_reset api k now to (sts_queue ts)")
      case (Inl p)
      with assms(3) Some key queue_reset(2) [OF assms(1) t Inl] show ?thesis
        by (auto simp: schedule_timer_with_timeout_def)
    next
      case (Inr q)
      show ?thesis
        using synced_update [OF assms(2) disjI1 [OF key] queue_reset(1) [OF assms(1) t Inr] disjI1 [OF key]]
          assms(3) Some key Inr
        by (auto simp: schedule_timer_with_timeout_def)
    qed
  qed
qed

section \<open>Watched timers\<close>

text \<open>The queue wakes the session for a running timer no earlier than the refresh (or expiration) is
  due, and no later than its expiration, or at once when that has passed.\<close>

definition due_in_time :: "instant \<Rightarrow> session_timer_state \<Rightarrow> instant \<Rightarrow> bool" where
  "due_in_time now t D \<longleftrightarrow>
     (tm_last_refresh t + tm_session_interval t \<le> D \<or>
        should_we_refresh t \<and> tm_last_refresh t + tm_session_interval t div 2 \<le> D) \<and>
     D \<le> max now (tm_last_refresh t + tm_session_interval t)"

definition timer_settled :: "instant \<Rightarrow> session_timer_state \<Rightarrow> bool" where
  "timer_settled now t \<longleftrightarrow> \<not> tm_refreshing t \<and> tm_last_refresh t \<le> now"

lemma next_timeout_due:
  assumes "next_timeout now t = Inr timeout"
  shows "(timer_running t \<longrightarrow> (\<exists>to. timeout = Some to \<and> due_in_time now t (now + to))) \<and>
    (\<not> timer_running t \<longrightarrow> timeout = None)"
  using assms
  by (auto simp: next_timeout_def time_until_refresh_def time_until_expiration_def time_until_def
      next_refresh_time_def expiration_time_def instant_add_def due_in_time_def split: if_splits)

lemma expiration_timeout_due:
  assumes "time_until_expiration now t = Inr timeout"
  shows "(timer_running t \<longrightarrow> (\<exists>to. timeout = Some to \<and> due_in_time now t (now + to))) \<and>
    (\<not> timer_running t \<longrightarrow> timeout = None)"
  using assms
  by (auto simp: time_until_expiration_def time_until_def expiration_time_def instant_add_def due_in_time_def
      split: if_splits)

lemma timeout_panics:
  "next_timeout now t = Inl p \<Longrightarrow> p = InstantOverflow"
  "time_until_expiration now t = Inl p \<Longrightarrow> p = InstantOverflow"
  by (auto simp: next_timeout_def time_until_refresh_def time_until_expiration_def time_until_def
      next_refresh_time_def expiration_time_def instant_add_def split: if_splits)

text \<open>Scheduling a dialog by either rule, where its timer is settled.\<close>

definition schedules :: "('d, 'q, 'k) delay_queue_api \<Rightarrow> instant \<Rightarrow> 'd \<Rightarrow> session_timer_state \<Rightarrow>
    ('d, 'q, 'k) session_timers \<Rightarrow> time_panic + ('d, 'q, 'k) session_timers \<Rightarrow> bool" where
  "schedules api now d t ts r \<longleftrightarrow> (case r of
     Inl p \<Rightarrow> p \<noteq> UnknownKey
   | Inr ts' \<Rightarrow> timers_synced api ts' \<and> sts_timers ts' = sts_timers ts \<and>
       (\<forall>e. e \<noteq> d \<longrightarrow> deadline api ts' e = deadline api ts e) \<and>
       (if timer_running t then \<exists>D. deadline api ts' d = Some D \<and> due_in_time now t D
        else deadline api ts' d = None))"

lemma schedule_timer_schedules:
  assumes "delay_queue_laws api" "timers_synced api ts" "hm_get (sts_timers ts) d = Some t"
  shows "schedules api now d t ts (schedule_timer api now d ts)"
proof (cases "next_timeout now t")
  case (Inl p)
  with assms(3) timeout_panics(1) [OF Inl] show ?thesis
    by (simp add: schedule_timer_def schedule_by_def schedules_def)
next
  case (Inr timeout)
  with assms(3) next_timeout_due [OF Inr]
    schedule_with_timeout_spec [OF assms(1,2) refl, where now = now and d = d and timeout = timeout] show ?thesis
    by (auto simp: schedule_timer_def schedule_by_def schedules_def split: sum.splits)
qed

lemma schedule_expiration_schedules:
  assumes "delay_queue_laws api" "timers_synced api ts" "hm_get (sts_timers ts) d = Some t"
  shows "schedules api now d t ts (schedule_expiration_timer api now d ts)"
proof (cases "time_until_expiration now t")
  case (Inl p)
  with assms(3) timeout_panics(2) [OF Inl] show ?thesis
    by (simp add: schedule_expiration_timer_def schedule_by_def schedules_def)
next
  case (Inr timeout)
  with assms(3) expiration_timeout_due [OF Inr]
    schedule_with_timeout_spec [OF assms(1,2) refl, where now = now and d = d and timeout = timeout] show ?thesis
    by (auto simp: schedule_expiration_timer_def schedule_by_def schedules_def split: sum.splits)
qed

section \<open>The refresh exchange\<close>

text \<open>An exchange for one dialog leaves the queue, the index and the other timers alone, lets time
  pass and only adds requests.\<close>

definition exchange_frame :: "'d \<Rightarrow> ('d, 'q, 'k) refresh_run \<Rightarrow> ('d, 'q, 'k) refresh_run \<Rightarrow> bool" where
  "exchange_frame d r r' \<longleftrightarrow>
     sts_queue (rf_timers r') = sts_queue (rf_timers r) \<and>
     sts_queue_keys (rf_timers r') = sts_queue_keys (rf_timers r) \<and>
     (\<forall>e. e \<noteq> d \<longrightarrow> rf_timer r' e = rf_timer r e) \<and>
     rf_now r \<le> rf_now r' \<and> (\<exists>xs. rf_attempts r' = rf_attempts r @ xs)"

definition has_timer :: "'d \<Rightarrow> ('d, 'q, 'k) refresh_run \<Rightarrow> bool" where
  "has_timer d r \<longleftrightarrow> (\<exists>t. rf_timer r d = Some t \<and> tm_last_refresh t \<le> rf_now r)"

definition run_settled :: "'d \<Rightarrow> ('d, 'q, 'k) refresh_run \<Rightarrow> bool" where
  "run_settled d r \<longleftrightarrow> (\<exists>t. rf_timer r d = Some t \<and> timer_settled (rf_now r) t)"

lemma exchange_frame_refl [simp]: "exchange_frame d r r"
  by (simp add: exchange_frame_def)

lemma exchange_frame_trans: "exchange_frame d r s \<Longrightarrow> exchange_frame d s t \<Longrightarrow> exchange_frame d r t"
  by (auto simp: exchange_frame_def)

lemma rf_set_frame [simp]: "exchange_frame d r (rf_set d t r)"
  by (simp add: exchange_frame_def rf_set_def set_timer_def)

lemma rf_set_timer [simp]: "rf_timer (rf_set d t r) d = Some t" "rf_now (rf_set d t r) = rf_now r"
  "rf_attempts (rf_set d t r) = rf_attempts r"
  by (simp_all add: rf_set_def set_timer_def)

lemma settled_has_timer: "run_settled d r \<Longrightarrow> has_timer d r"
  by (auto simp: run_settled_def has_timer_def timer_settled_def)

lemma refresh_send_ok:
  assumes "refresh_send req r = (reply, r')" "has_timer d r"
  shows "exchange_frame d r r'" "has_timer d r'" "rf_attempts r' = rf_attempts r @ [req]"
  using assms by (auto simp: refresh_send_def exchange_frame_def has_timer_def Let_def
      split: list.splits prod.splits)

lemma apply_refresh_response_settles:
  assumes "apply_refresh_response now t headers = (res, t')" "tm_last_refresh t \<le> now"
  shows "timer_settled now t'"
  using assms by (auto simp: apply_refresh_response_def timer_settled_def complete_refresh_def
      fail_refresh_def Let_def split: option.splits if_splits)

lemma complete_refresh_from_response_ok:
  assumes "complete_refresh_from_response d resp r = (ok, r')" "has_timer d r"
  shows "exchange_frame d r r'" "run_settled d r'" "rf_attempts r' = rf_attempts r"
proof -
  obtain t where t: "rf_timer r d = Some t" "tm_last_refresh t \<le> rf_now r"
    using assms(2) by (auto simp: has_timer_def)
  obtain res t' where a: "apply_refresh_response (rf_now r) t (sr_headers resp) = (res, t')" by fastforce
  have r': "r' = rf_set d t' r"
    using assms(1) t a by (simp add: complete_refresh_from_response_def)
  show "exchange_frame d r r'" "rf_attempts r' = rf_attempts r" by (simp_all add: r')
  show "run_settled d r'"
    using apply_refresh_response_settles [OF a t(2)] by (simp add: r' run_settled_def)
qed

lemma fail_refresh_if_pending_ok:
  assumes "has_timer d r"
  shows "exchange_frame d r (fail_refresh_if_pending d r)" "run_settled d (fail_refresh_if_pending d r)"
    "rf_attempts (fail_refresh_if_pending d r) = rf_attempts r"
proof -
  obtain t where t: "rf_timer r d = Some t" "tm_last_refresh t \<le> rf_now r"
    using assms by (auto simp: has_timer_def)
  then show "exchange_frame d r (fail_refresh_if_pending d r)"
    "run_settled d (fail_refresh_if_pending d r)" "rf_attempts (fail_refresh_if_pending d r) = rf_attempts r"
    by (simp_all add: fail_refresh_if_pending_def run_settled_def timer_settled_def fail_refresh_def)
qed

lemma apply_refresh_min_se_ok:
  assumes "apply_refresh_min_se d headers r = (res, r')" "has_timer d r"
  shows "exchange_frame d r r'" "has_timer d r'" "rf_attempts r' = rf_attempts r" "res \<noteq> Inl e"
proof -
  obtain t where t: "rf_timer r d = Some t" "tm_last_refresh t \<le> rf_now r"
    using assms(2) by (auto simp: has_timer_def)
  have "(res = Inr False \<and> r' = r) \<or>
      (\<exists>t'. res = Inr True \<and> r' = rf_set d t' r \<and> tm_last_refresh t' = tm_last_refresh t)"
    using assms(1) t by (auto simp: apply_refresh_min_se_def Let_def split: option.splits)
  then show "exchange_frame d r r'" "has_timer d r'" "rf_attempts r' = rf_attempts r" "res \<noteq> Inl e"
    using t assms(2) by (auto simp: has_timer_def)
qed

text \<open>What an attempt with UPDATE leaves behind: a settled timer when it succeeded, and otherwise a
  timer that the next step settles.\<close>

lemma handle_update_ok:
  assumes "handle_update_refresh_response d reply allow r = (out, r')" "has_timer d r"
  shows "exchange_frame d r r' \<and> has_timer d r' \<and> (out = Refreshed \<longrightarrow> run_settled d r') \<and>
    rf_attempts r' = rf_attempts r \<and> (out = Retry \<longrightarrow> allow)"
proof (cases reply)
  case (Replied resp)
  show ?thesis
  proof (cases "status_successful (sr_status resp)")
    case True
    obtain ok r1 where c: "complete_refresh_from_response d resp r = (ok, r1)" by fastforce
    with assms(1) Replied True complete_refresh_from_response_ok [OF c assms(2)] show ?thesis
      by (auto simp: handle_update_refresh_response_def settled_has_timer split: if_splits)
  next
    case False
    obtain res r1 where a: "apply_refresh_min_se d (sr_headers resp) r = (res, r1)" by fastforce
    note ok = apply_refresh_min_se_ok [OF a assms(2)]
    have dis: "has_timer d (r\<lparr>rf_timers := (rf_timers r)\<lparr>sts_refresh_disabled := X\<rparr>\<rparr>)"
      "exchange_frame d r (r\<lparr>rf_timers := (rf_timers r)\<lparr>sts_refresh_disabled := X\<rparr>\<rparr>)" for X
      using assms(2) by (simp_all add: has_timer_def exchange_frame_def)
    show ?thesis
      using assms Replied False a ok dis
      by (auto simp: handle_update_refresh_response_def split: if_splits sum.splits bool.splits)
  qed
qed (use assms in \<open>auto simp: handle_update_refresh_response_def\<close>)

lemma try_update_once_ok:
  assumes "try_update_once d allow r = (out, r')" "has_timer d r"
  shows "exchange_frame d r r' \<and> has_timer d r' \<and> (out = Refreshed \<longrightarrow> run_settled d r') \<and>
    length (rf_attempts r') = length (rf_attempts r) + 1 \<and> (out = Retry \<longrightarrow> allow)"
proof -
  obtain hs where hs: "build_refresh_headers d False r = Some hs"
    using assms(2) by (auto simp: has_timer_def build_refresh_headers_def)
  obtain reply r1 where s: "refresh_send (UpdateRequest hs) r = (reply, r1)" by fastforce
  note sent = refresh_send_ok [OF s assms(2)]
  show ?thesis
  proof (cases "reply = ReplyFailed")
    case True
    with assms(1) hs s sent show ?thesis by (auto simp: try_update_once_def)
  next
    case False
    then have "handle_update_refresh_response d reply allow r1 = (out, r')"
      using assms(1) hs s by (simp add: try_update_once_def)
    from handle_update_ok [OF this sent(2)] sent exchange_frame_trans show ?thesis by auto
  qed
qed

lemma try_update_refresh_ok:
  assumes "try_update_refresh d r = (out, r')" "has_timer d r"
  shows "exchange_frame d r r' \<and> has_timer d r' \<and> (out = Refreshed \<longrightarrow> run_settled d r') \<and> out \<noteq> Retry \<and>
    length (rf_attempts r) < length (rf_attempts r') \<and> length (rf_attempts r') \<le> length (rf_attempts r) + 2"
proof -
  obtain out1 r1 where o: "try_update_once d True r = (out1, r1)" by fastforce
  note one = try_update_once_ok [OF o assms(2)]
  show ?thesis
  proof (cases "out1 = Retry")
    case True
    then have "try_update_once d False r1 = (out, r')"
      using assms(1) o by (simp add: try_update_refresh_def)
    from try_update_once_ok [OF this] one exchange_frame_trans [of d r r1 r'] show ?thesis by auto
  next
    case False
    then have "out = out1 \<and> r' = r1"
      using assms(1) o by (auto simp: try_update_refresh_def split: update_refresh_outcome.splits)
    with one False show ?thesis by auto
  qed
qed

lemma finish_reinvite_ok:
  assumes "finish_reinvite d reply r = (ok, r')" "has_timer d r"
  shows "exchange_frame d r r' \<and> run_settled d r' \<and> rf_attempts r' = rf_attempts r"
proof (cases "\<exists>resp. reply = Replied resp \<and> status_successful (sr_status resp)")
  case True
  then obtain resp where "reply = Replied resp" "status_successful (sr_status resp)" by blast
  then have "complete_refresh_from_response d resp r = (ok, r')"
    using assms(1) by (simp add: finish_reinvite_def)
  from complete_refresh_from_response_ok [OF this assms(2)] show ?thesis by blast
next
  case False
  then have "r' = fail_refresh_if_pending d r"
    using assms(1) by (auto simp: finish_reinvite_def split: refresh_reply.splits if_splits)
  with fail_refresh_if_pending_ok [OF assms(2)] show ?thesis by simp
qed

lemma try_reinvite_refresh_ok:
  assumes "try_reinvite_refresh d body r = (ok, r')" "has_timer d r"
  shows "exchange_frame d r r' \<and> run_settled d r' \<and>
    length (rf_attempts r) < length (rf_attempts r') \<and> length (rf_attempts r') \<le> length (rf_attempts r) + 2"
proof -
  obtain hs where hs: "build_refresh_headers d body r = Some hs"
    using assms(2) by (auto simp: has_timer_def build_refresh_headers_def)
  obtain reply r1 where s: "refresh_send (ReinviteRequest hs body) r = (reply, r1)" by fastforce
  note sent = refresh_send_ok [OF s assms(2)]
  have direct: ?thesis if "finish_reinvite d rep r2 = (ok, r')" "exchange_frame d r1 r2" "has_timer d r2"
      "rf_attempts r2 = rf_attempts r1" for rep r2
    using finish_reinvite_ok [OF that(1,3)] that(2,4) sent exchange_frame_trans [of d r r1 r2]
      exchange_frame_trans [of d r r2 r'] by auto
  show ?thesis
  proof (cases "\<exists>resp. reply = Replied resp \<and> sr_status resp = interval_too_small")
    case False
    then have "finish_reinvite d reply r1 = (ok, r')"
      using assms(1) hs s by (auto simp: try_reinvite_refresh_def split: refresh_reply.splits if_splits)
    from direct [OF this] sent(2) show ?thesis by simp
  next
    case True
    then obtain resp where resp: "reply = Replied resp" "sr_status resp = interval_too_small" by blast
    obtain res r2 where a: "apply_refresh_min_se d (sr_headers resp) r1 = (res, r2)" by fastforce
    note min_se = apply_refresh_min_se_ok [OF a sent(2)]
    show ?thesis
    proof (cases "res = Inr True")
      case False
      then have "finish_reinvite d (Replied resp) r2 = (ok, r')"
        using assms(1) hs s resp a min_se(4)
        by (cases res) (auto simp: try_reinvite_refresh_def split: bool.splits)
      from direct [OF this min_se(1-3)] show ?thesis .
    next
      case True
      obtain hs2 where hs2: "build_refresh_headers d body r2 = Some hs2"
        using min_se(2) by (auto simp: has_timer_def build_refresh_headers_def)
      obtain reply2 r3 where s2: "refresh_send (ReinviteRequest hs2 body) r2 = (reply2, r3)" by fastforce
      note sent2 = refresh_send_ok [OF s2 min_se(2)]
      have "finish_reinvite d reply2 r3 = (ok, r')"
        using assms(1) hs s resp a True hs2 s2 by (simp add: try_reinvite_refresh_def)
      from finish_reinvite_ok [OF this sent2(2)] sent sent2 min_se(1,3)
        exchange_frame_trans [of d r r1 r2] exchange_frame_trans [of d r r2 r3]
        exchange_frame_trans [of d r r3 r'] show ?thesis by auto
    qed
  qed
qed

text \<open>A refresh always terminates with its timer settled, after one to four requests.\<close>

lemma send_refresh_ok:
  assumes "send_dialog_session_refresh d body r = (ok, r')" "has_timer d r"
  shows "exchange_frame d r r' \<and> run_settled d r' \<and>
    length (rf_attempts r) < length (rf_attempts r') \<and> length (rf_attempts r') \<le> length (rf_attempts r) + 4"
proof (cases "d \<in> sts_refresh_disabled (rf_timers r)")
  case True
  with assms(1) have "try_reinvite_refresh d body r = (ok, r')" by (simp add: send_dialog_session_refresh_def)
  from try_reinvite_refresh_ok [OF this assms(2)] show ?thesis by auto
next
  case False
  obtain out r1 where u: "try_update_refresh d r = (out, r1)" by fastforce
  note upd = try_update_refresh_ok [OF u assms(2)]
  show ?thesis
  proof (cases out)
    case Refreshed
    with assms(1) False u upd show ?thesis by (auto simp: send_dialog_session_refresh_def)
  next
    case Retry
    with upd show ?thesis by simp
  next
    case FallbackToReinvite
    then have "try_reinvite_refresh d body r1 = (ok, r')"
      using assms(1) False u by (simp add: send_dialog_session_refresh_def)
    from try_reinvite_refresh_ok [OF this] upd exchange_frame_trans [of d r r1 r'] show ?thesis by auto
  next
    case UpdateFailed
    then have "r' = fail_refresh_if_pending d r1"
      using assms(1) False u by (simp add: send_dialog_session_refresh_def)
    with fail_refresh_if_pending_ok [of d r1] upd exchange_frame_trans [of d r r1 r'] show ?thesis by auto
  qed
qed

section \<open>The invariant of a session\<close>

text \<open>The dialog is to be hung up, or was handed over for it no earlier than \<open>x\<close>.\<close>

definition handed :: "('d, 'q, 'k) timer_session \<Rightarrow> 'd \<Rightarrow> instant \<Rightarrow> bool" where
  "handed s d x \<longleftrightarrow> d \<in> ts_pending_hangup s \<or> (\<exists>\<tau> found. x \<le> \<tau> \<and> (d, \<tau>, found) \<in> ts_hung_up s)"

abbreviation expires_at :: "session_timer_state \<Rightarrow> instant" where
  "expires_at t \<equiv> tm_last_refresh t + tm_session_interval t"

text \<open>A running timer has a queue entry that is due in time, or it has expired and its dialog was handed over
  since.\<close>

definition dialog_watched :: "('d, 'q, 'k) delay_queue_api \<Rightarrow> instant \<Rightarrow> ('d \<Rightarrow> instant \<Rightarrow> bool) \<Rightarrow>
    ('d, 'q, 'k) session_timers \<Rightarrow> 'd \<Rightarrow> bool" where
  "dialog_watched api now over ts d \<longleftrightarrow>
     (case hm_get (sts_timers ts) d of
        None \<Rightarrow> deadline api ts d = None
      | Some t \<Rightarrow> timer_settled now t \<and>
          (case deadline api ts d of
             Some D \<Rightarrow> timer_running t \<and> due_in_time now t D
           | None \<Rightarrow> timer_running t \<longrightarrow> expires_at t \<le> now \<and> over d (expires_at t)))"

definition timers_watched :: "('d, 'q, 'k) delay_queue_api \<Rightarrow> ('d, 'q, 'k) timer_session \<Rightarrow> bool" where
  "timers_watched api s \<longleftrightarrow> timers_synced api (ts_timers s) \<and>
     (\<forall>d. dialog_watched api (ts_clock s) (handed s) (ts_timers s) d)"

text \<open>A panic is never the loss of a queue key.\<close>

definition watched_or_panic :: "('d, 'q, 'k) delay_queue_api \<Rightarrow>
    time_panic + ('d, 'q, 'k) timer_session \<Rightarrow> bool" where
  "watched_or_panic api r \<longleftrightarrow> (case r of Inl p \<Rightarrow> p \<noteq> UnknownKey | Inr s \<Rightarrow> timers_watched api s)"

lemma due_later: "due_in_time now t D \<Longrightarrow> now \<le> now' \<Longrightarrow> due_in_time now' t D"
  by (auto simp: due_in_time_def)

lemma watched_later: "dialog_watched api now over ts d \<Longrightarrow> now \<le> now' \<Longrightarrow> dialog_watched api now' over ts d"
  by (auto simp: dialog_watched_def timer_settled_def dest: due_later split: option.splits)

lemma watched_frame:
  assumes "dialog_watched api now over ts e" "hm_get (sts_timers ts') e = hm_get (sts_timers ts) e"
    and "deadline api ts' e = deadline api ts e" "\<And>x. x \<le> now \<Longrightarrow> over e x \<Longrightarrow> over' e x"
  shows "dialog_watched api now over' ts' e"
  using assms(1,4) unfolding dialog_watched_def assms(2,3) by (auto split: option.splits)

text \<open>The hand-over reads only the set and the history.\<close>

lemma handed_update [simp]:
  "handed (s\<lparr>ts_timers := ts\<rparr>) = handed s" "handed (s\<lparr>ts_clock := now\<rparr>) = handed s"
  "handed (s\<lparr>ts_timers := ts, ts_pending_hangup := ds\<rparr>) = handed (s\<lparr>ts_pending_hangup := ds\<rparr>)"
  "handed (s\<lparr>ts_pending_hangup := ts_pending_hangup s\<rparr>) = handed s"
  by (simp_all add: handed_def fun_eq_iff)

lemma schedules_watched:
  assumes "schedules api now d t ts r" "hm_get (sts_timers ts) d = Some t" "timer_settled now t"
    and "\<And>e. e \<noteq> d \<Longrightarrow> dialog_watched api now (handed s) ts e"
  shows "watched_or_panic api (map_sum id (\<lambda>ts'. s\<lparr>ts_timers := ts', ts_clock := now\<rparr>) r)"
proof (cases r)
  case (Inl p)
  with assms(1) show ?thesis by (simp add: watched_or_panic_def schedules_def)
next
  case (Inr ts')
  then have r: "timers_synced api ts'" "sts_timers ts' = sts_timers ts"
    "\<And>e. e \<noteq> d \<Longrightarrow> deadline api ts' e = deadline api ts e"
    "if timer_running t then \<exists>D. deadline api ts' d = Some D \<and> due_in_time now t D else deadline api ts' d = None"
    using assms(1) by (auto simp: schedules_def)
  have "dialog_watched api now (handed s) ts' e" for e
  proof (cases "e = d")
    case True
    with r(2,4) assms(2,3) show ?thesis by (auto simp: dialog_watched_def split: if_splits option.split)
  next
    case False
    with watched_frame [OF assms(4) [OF False]] r(2,3) show ?thesis by simp
  qed
  with Inr r(1) show ?thesis by (simp add: watched_or_panic_def timers_watched_def)
qed

lemma set_timer_frame [simp]:
  "hm_get (sts_timers (set_timer d t ts)) = (hm_get (sts_timers ts))(d \<mapsto> t)"
  "timers_synced api (set_timer d t ts) = timers_synced api ts"
  "deadline api (set_timer d t ts) = deadline api ts"
  by (simp_all add: set_timer_def timers_synced_def deadline_def fun_eq_iff)

text \<open>Installing a settled timer and scheduling it.\<close>

lemma install_watched:
  assumes "delay_queue_laws api" "timers_watched api s" "timer_settled (ts_clock s) t"
  shows "watched_or_panic api (map_sum id (\<lambda>ts'. s\<lparr>ts_timers := ts'\<rparr>)
    (schedule_timer api (ts_clock s) d (set_timer d t (ts_timers s))))"
proof -
  let ?ts = "set_timer d t (ts_timers s)"
  have sched: "schedules api (ts_clock s) d t ?ts (schedule_timer api (ts_clock s) d ?ts)"
    by (rule schedule_timer_schedules [OF assms(1)]) (use assms(2) in \<open>simp_all add: timers_watched_def\<close>)
  have others: "dialog_watched api (ts_clock s) (handed s) ?ts e" if "e \<noteq> d" for e
  proof (rule watched_frame)
    show "dialog_watched api (ts_clock s) (handed s) (ts_timers s) e"
      using assms(2) by (simp add: timers_watched_def)
  qed (use that in simp_all)
  have "hm_get (sts_timers ?ts) d = Some t" by simp
  from schedules_watched [OF sched this assms(3) others] show ?thesis by simp
qed

lemma server_timer_settled:
  "server_timer mode expires now headers = Inr t \<Longrightarrow> timer_settled now t"
  by (auto simp: server_timer_def timer_settled_def timer_default_def Let_def split: option.splits if_splits)

lemma callee_timer_settled: "timer_settled now (callee_timer mode requested now headers)"
  by (simp add: callee_timer_def timer_settled_def timer_default_def Let_def split: option.split)

lemma peer_headers_settled:
  assumes "apply_session_timer_headers t headers = Inr t'" "timer_settled now t"
  shows "timer_settled now (if tm_active t' then update_refresh now t' else t')"
  using assms by (auto simp: apply_session_timer_headers_def timer_settled_def update_refresh_def Let_def
      split: option.splits if_splits session_refresher_param.splits)

lemma map_sum_Pair: "map_sum id (\<lambda>(_, ts). f ts) (map_sum id (Pair x) r) = map_sum id f r"
  by (cases r) simp_all

section \<open>Delivery\<close>

text \<open>What is known when the queue delivers a dialog: the timer is running and due.\<close>

lemma delivery_due:
  assumes "delay_queue_laws api" "timers_watched api s"
    and "dq_next api (ts_clock s) (sts_queue (ts_timers s)) = Some (k, d, q)"
  obtains t where "hm_get (sts_timers (ts_timers s)) d = Some t" "timer_running t"
    "timer_settled (ts_clock s) t"
    "hm_get (sts_queue_keys (ts_timers s)) d = Some k"
    "dq_view api q = (dq_view api (sts_queue (ts_timers s)))(k := None)"
    "is_expired (ts_clock s) t \<or> should_we_refresh t \<and> should_refresh (ts_clock s) t"
proof -
  obtain D where D: "dq_view api (sts_queue (ts_timers s)) k = Some (d, D)" "D \<le> ts_clock s"
    "dq_view api q = (dq_view api (sts_queue (ts_timers s)))(k := None)"
    by (rule queue_next [OF assms(1,3)])
  have key: "hm_get (sts_queue_keys (ts_timers s)) d = Some k"
    using assms(2) D(1) by (auto simp: timers_watched_def timers_synced_def)
  then have dl: "deadline api (ts_timers s) d = Some D" using D(1) by (simp add: deadline_def)
  have w: "dialog_watched api (ts_clock s) (handed s) (ts_timers s) d"
    using assms(2) by (simp add: timers_watched_def)
  obtain t where t: "hm_get (sts_timers (ts_timers s)) d = Some t" "timer_running t" "timer_settled (ts_clock s) t"
    "due_in_time (ts_clock s) t D"
    using w dl by (auto simp: dialog_watched_def split: option.splits)
  have "is_expired (ts_clock s) t \<or> should_we_refresh t \<and> should_refresh (ts_clock s) t"
    using t D(2) by (auto simp: due_in_time_def is_expired_def should_refresh_def timer_settled_def)
  with t key D(3) show thesis by (intro that)
qed

lemma refresh_reschedules:
  assumes "delay_queue_laws api" "timers_synced api ts" "hm_get (sts_timers ts) d = Some t"
    and "tm_last_refresh t \<le> ts_clock s"
    and "\<And>e. e \<noteq> d \<Longrightarrow> dialog_watched api (ts_clock s) (handed s) ts e"
    and "send_dialog_session_refresh d body
      \<lparr>rf_timers = ts, rf_now = ts_clock s, rf_replies = replies, rf_attempts = []\<rparr> = (ok, r)"
  shows "watched_or_panic api (map_sum id (\<lambda>ts'. s\<lparr>ts_timers := ts', ts_clock := rf_now r\<rparr>)
    ((if ok then schedule_timer else schedule_expiration_timer) api (rf_now r) d (rf_timers r)))"
proof -
  have "has_timer d \<lparr>rf_timers = ts, rf_now = ts_clock s, rf_replies = replies, rf_attempts = []\<rparr>"
    using assms(3,4) by (simp add: has_timer_def)
  from send_refresh_ok [OF assms(6) this]
  obtain t' where t': "hm_get (sts_timers (rf_timers r)) d = Some t'" "timer_settled (rf_now r) t'"
    and fr: "sts_queue (rf_timers r) = sts_queue ts" "sts_queue_keys (rf_timers r) = sts_queue_keys ts"
      "\<And>e. e \<noteq> d \<Longrightarrow> hm_get (sts_timers (rf_timers r)) e = hm_get (sts_timers ts) e" "ts_clock s \<le> rf_now r"
    by (auto simp: exchange_frame_def run_settled_def)
  have sync: "timers_synced api (rf_timers r)" "deadline api (rf_timers r) = deadline api ts"
    using synced_frame [OF fr(1,2)] assms(2) by simp_all
  have "schedules api (rf_now r) d t' (rf_timers r)
      ((if ok then schedule_timer else schedule_expiration_timer) api (rf_now r) d (rf_timers r))"
    using schedule_timer_schedules [OF assms(1) sync(1) t'(1)]
      schedule_expiration_schedules [OF assms(1) sync(1) t'(1)] by simp
  moreover have "dialog_watched api (rf_now r) (handed s) (rf_timers r) e" if "e \<noteq> d" for e
    using watched_frame [OF watched_later [OF assms(5) [OF that] fr(4)] fr(3) [OF that]] sync(2) by auto
  ultimately show ?thesis by (rule schedules_watched [OF _ t'])
qed

lemma timer_tick_watched:
  assumes "delay_queue_laws api" "timers_watched api s"
  shows "watched_or_panic api (timer_tick api body replies s)"
proof (cases "dq_next api (ts_clock s) (sts_queue (ts_timers s))")
  case None
  with assms(2) show ?thesis by (simp add: timer_tick_def watched_or_panic_def)
next
  case (Some kdq)
  obtain k d q where next': "dq_next api (ts_clock s) (sts_queue (ts_timers s)) = Some (k, d, q)"
    using Some by (cases kdq) auto
  obtain t where t: "hm_get (sts_timers (ts_timers s)) d = Some t" "timer_running t" "timer_settled (ts_clock s) t"
    "hm_get (sts_queue_keys (ts_timers s)) d = Some k"
    "dq_view api q = (dq_view api (sts_queue (ts_timers s)))(k := None)"
    "is_expired (ts_clock s) t \<or> should_we_refresh t \<and> should_refresh (ts_clock s) t"
    by (rule delivery_due [OF assms next'])
  define ts where "ts = (ts_timers s)\<lparr>sts_queue_keys := hm_remove d (sts_queue_keys (ts_timers s)), sts_queue := q\<rparr>"
  have sync: "timers_synced api (ts_timers s)" using assms(2) by (simp add: timers_watched_def)
  note drop = synced_drop [OF sync t(4,5), folded ts_def]
  have timers: "sts_timers ts = sts_timers (ts_timers s)" by (simp add: ts_def)
  have others: "dialog_watched api (ts_clock s) (handed s) ts e" if "e \<noteq> d" for e
  proof (rule watched_frame)
    show "dialog_watched api (ts_clock s) (handed s) (ts_timers s) e"
      using assms(2) by (simp add: timers_watched_def)
  qed (use that in \<open>simp_all add: timers drop(2)\<close>)
  have tick: "timer_tick api body replies s
      = timer_fired api body replies d (s\<lparr>ts_timers := (ts_timers s)\<lparr>sts_queue := q\<rparr>\<rparr>)"
    by (simp add: timer_tick_def next')
  have ts: "(ts_timers s)\<lparr>sts_queue := q, sts_queue_keys := hm_remove d (sts_queue_keys (ts_timers s))\<rparr> = ts"
    by (simp add: ts_def)
  consider (expired) "is_expired (ts_clock s) t"
    | (refresh) "\<not> is_expired (ts_clock s) t" "should_we_refresh t" "should_refresh (ts_clock s) t"
    using t(6) by blast
  then show ?thesis
  proof cases
    case expired
    let ?s = "s\<lparr>ts_timers := ts, ts_pending_hangup := insert d (ts_pending_hangup s)\<rparr>"
    have over: "expires_at t \<le> ts_clock s" using expired t(3) by (auto simp: is_expired_def timer_settled_def)
    have "dialog_watched api (ts_clock s) (handed ?s) ts e" for e
    proof (cases "e = d")
      case True
      with t(1,3) over drop(2) timers show ?thesis by (simp add: dialog_watched_def handed_def)
    next
      case False
      with watched_frame [OF others [OF False]] show ?thesis by (simp add: handed_def)
    qed
    with expired t(1) drop(1) show ?thesis
      by (simp add: tick timer_fired_def next_timer_action_def Let_def ts watched_or_panic_def timers_watched_def)
  next
    case refresh
    let ?t = "t\<lparr>tm_refreshing := True\<rparr>"
    obtain ok r where run: "send_dialog_session_refresh d body
        \<lparr>rf_timers = set_timer d ?t ts, rf_now = ts_clock s, rf_replies = replies, rf_attempts = []\<rparr> = (ok, r)"
      by fastforce
    have "watched_or_panic api (map_sum id (\<lambda>ts'. s\<lparr>ts_timers := ts', ts_clock := rf_now r\<rparr>)
      ((if ok then schedule_timer else schedule_expiration_timer) api (rf_now r) d (rf_timers r)))"
    proof (rule refresh_reschedules [OF assms(1) _ _ _ _ run])
      show "dialog_watched api (ts_clock s) (handed s) (set_timer d ?t ts) e" if "e \<noteq> d" for e
        using watched_frame [OF others [OF that]] that by simp
      show "hm_get (sts_timers (set_timer d ?t ts)) d = Some ?t" by simp
      show "tm_last_refresh ?t \<le> ts_clock s" using t(3) by (simp add: timer_settled_def)
    qed (use drop(1) in simp_all)
    then show ?thesis
      using refresh t(1,3) run
      by (simp add: tick timer_fired_def next_timer_action_def start_refresh_def timer_settled_def Let_def ts)
  qed
qed

lemma timer_event_watched:
  assumes "delay_queue_laws api" "timers_watched api s"
  shows "watched_or_panic api (timer_event_step api mode e s)"
proof (cases e)
  case (Elapse dt)
  with assms(2) show ?thesis by (auto simp: watched_or_panic_def timers_watched_def intro: watched_later)
next
  case (LoopTurn live)
  let ?s = "drain_pending_hangup live s"
  have "dialog_watched api (ts_clock s) (handed ?s) (ts_timers s) e" for e
  proof (rule watched_frame)
    show "dialog_watched api (ts_clock s) (handed s) (ts_timers s) e"
      using assms(2) by (simp add: timers_watched_def)
    show "handed ?s e x" if "x \<le> ts_clock s" "handed s e x" for x
      using that by (auto simp: handed_def drain_pending_hangup_def)
  qed simp_all
  with LoopTurn assms(2) show ?thesis
    by (simp add: watched_or_panic_def timers_watched_def drain_pending_hangup_def)
next
  case (HangupRequested ds)
  let ?s = "s\<lparr>ts_pending_hangup := ts_pending_hangup s \<union> ds\<rparr>"
  have "dialog_watched api (ts_clock s) (handed ?s) (ts_timers s) e" for e
  proof (rule watched_frame)
    show "dialog_watched api (ts_clock s) (handed s) (ts_timers s) e"
      using assms(2) by (simp add: timers_watched_def)
  qed (auto simp: handed_def)
  with HangupRequested assms(2) show ?thesis by (simp add: watched_or_panic_def timers_watched_def)
next
  case (CallerAnswered caller expires)
  show ?thesis
  proof (cases caller)
    case None
    with CallerAnswered assms(2) show ?thesis by (simp add: init_server_timer_def watched_or_panic_def)
  next
    case (Some dh)
    obtain d headers where dh: "caller = Some (d, headers)" using Some by (cases dh) auto
    show ?thesis
    proof (cases "server_timer mode expires (ts_clock s) headers")
      case (Inl m)
      with CallerAnswered dh assms(2) show ?thesis by (simp add: init_server_timer_def watched_or_panic_def)
    next
      case (Inr t)
      with CallerAnswered dh install_watched [OF assms server_timer_settled [OF Inr]] show ?thesis
        by (simp add: init_server_timer_def map_sum_Pair)
    qed
  qed
next
  case (CalleeAnswered d headers requested)
  with install_watched [OF assms callee_timer_settled] show ?thesis by (simp add: init_callee_timer_def)
next
  case (PeerRefresh d headers)
  show ?thesis
  proof (cases "hm_get (sts_timers (ts_timers s)) d")
    case None
    with PeerRefresh assms(2) show ?thesis
      by (simp add: update_dialog_timer_from_headers_def watched_or_panic_def)
  next
    case (Some t)
    have "timer_settled (ts_clock s) t"
      using assms(2) Some by (auto simp: timers_watched_def dialog_watched_def split: option.splits)
    with PeerRefresh Some assms install_watched [OF assms peer_headers_settled] show ?thesis
      by (cases "apply_session_timer_headers t headers")
        (simp_all add: update_dialog_timer_from_headers_def watched_or_panic_def map_sum_Pair)
  qed
next
  case (QueueDelivers body replies)
  with timer_tick_watched [OF assms] show ?thesis by simp
next
  case (DialogEnded d drop_mark)
  let ?s = "s\<lparr>ts_pending_hangup := (if drop_mark then ts_pending_hangup s - {d} else ts_pending_hangup s)\<rparr>"
  have sync: "timers_synced api (ts_timers s)" using assms(2) by (simp add: timers_watched_def)
  obtain ts where ts: "unschedule_timer api d (ts_timers s) = Inr ts" "timers_synced api ts"
    "deadline api ts = (deadline api (ts_timers s))(d := None)" "sts_timers ts = sts_timers (ts_timers s)"
    by (rule unschedule_timer_spec [OF assms(1) sync])
  have fr: "timers_synced api (timers_remove_dialog d ts)" "deadline api (timers_remove_dialog d ts) = deadline api ts"
    using synced_frame [of "timers_remove_dialog d ts" ts api] ts(2) by (simp_all add: timers_remove_dialog_def)
  have "dialog_watched api (ts_clock s) (handed ?s) (timers_remove_dialog d ts) e" for e
  proof (cases "e = d")
    case True
    then show ?thesis
      using fr(2) ts(3) by (simp add: dialog_watched_def timers_remove_dialog_def)
  next
    case False
    have "dialog_watched api (ts_clock s) (handed s) (ts_timers s) e"
      using assms(2) by (simp add: timers_watched_def)
    with False fr(2) ts(3,4) show ?thesis
      by (elim watched_frame) (simp_all add: timers_remove_dialog_def handed_def)
  qed
  with DialogEnded ts(1) fr(1) show ?thesis
    by (cases drop_mark) (simp_all add: watched_or_panic_def timers_watched_def)
next
  case TimersCleared
  have "dq_view api (dq_clear api q) = Map.empty" for q using assms(1) by (simp add: delay_queue_laws_def)
  with TimersCleared show ?thesis
    by (simp add: watched_or_panic_def timers_watched_def timers_clear_all_def timers_synced_def
        dialog_watched_def deadline_def)
qed

end
