(* ===== verification/Session_Timer_Runs.thy ===== *)
theory Session_Timer_Runs
  imports Session_Timer_Props
begin

text \<open>
  Runs of a session: the invariant lifted to every sequence of events, what a delivery of the queue
  does, the end of unrefreshed sessions, the agreement of both ends of a dialog, and two inputs from
  the peer that the timers do not guard against.
\<close>

section \<open>Runs of a session\<close>

lemma map_sum_Inr_iff: "map_sum id f r = Inr y \<longleftrightarrow> (\<exists>x. r = Inr x \<and> f x = y)"
  by (cases r) simp_all

lemma deadline_entry:
  assumes "timers_synced api ts" "deadline api ts d = Some D"
  shows "\<exists>k. dq_view api (sts_queue ts) k = Some (d, D)"
proof (cases "hm_get (sts_queue_keys ts) d")
  case None
  with assms(2) show ?thesis by (simp add: deadline_def)
next
  case (Some k)
  with assms show ?thesis by (auto simp: deadline_def elim!: synced_entry [OF _ Some])
qed

definition timer_start :: "'q \<Rightarrow> instant \<Rightarrow> ('d, 'q, 'k) timer_session" where
  "timer_start q now =
     \<lparr>ts_timers = \<lparr>sts_timers = [], sts_refresh_disabled = {}, sts_queue = q, sts_queue_keys = []\<rparr>,
      ts_pending_hangup = {}, ts_clock = now, ts_hung_up = {}\<rparr>"

abbreviation timer_run :: "('d, 'q, 'k) delay_queue_api \<Rightarrow> session_timer_mode \<Rightarrow> 'd timer_event list \<Rightarrow>
    'q \<Rightarrow> instant \<Rightarrow> time_panic + ('d, 'q, 'k) timer_session" where
  "timer_run api mode es q now \<equiv> fold (timer_event_apply api mode) es (Inr (timer_start q now))"

interpretation timer_machine: event_machine "timer_event_apply api mode"
    "\<lambda>r. delay_queue_laws api \<longrightarrow> watched_or_panic api r" for api mode
proof
  fix r :: "time_panic + ('a, 'b, 'c) timer_session" and e
  assume "delay_queue_laws api \<longrightarrow> watched_or_panic api r"
  then show "delay_queue_laws api \<longrightarrow> watched_or_panic api (timer_event_apply api mode e r)"
    using timer_event_watched [of api _ mode e]
    by (cases r) (auto simp: timer_event_apply_def watched_or_panic_def)
qed

lemma timer_start_watched:
  "dq_view api q = Map.empty \<Longrightarrow> watched_or_panic api (Inr (timer_start q now))"
  by (simp add: watched_or_panic_def timers_watched_def timer_start_def timers_synced_def
      dialog_watched_def deadline_def)

lemma timer_run_watched:
  assumes "delay_queue_laws api" "dq_view api q = Map.empty"
  shows "watched_or_panic api (timer_run api mode es q now)"
  using timer_machine.run_inv [of api "Inr (timer_start q now)" mode es] timer_start_watched [OF assms(2)] assms(1)
  by simp

text \<open>C11. In every state a session reaches, whatever its dialogs, peers and replies do, the delay
  queue and its index agree entry by entry, no timer is stuck in a refresh, and every running timer has a
  queue entry due no later than its expiration (or now, when that has passed), unless it has expired and its
  dialog was handed over for hangup: it is in the set that the next turn of the loop drains, or a turn
  drained it after the expiration. The session never asks the queue for a key it does not hold.\<close>

theorem session_timers_watched:
  assumes "delay_queue_laws api" "dq_view api q = Map.empty"
  shows "case timer_run api mode es q now of
      Inl p \<Rightarrow> p \<noteq> UnknownKey
    | Inr s \<Rightarrow>
        (\<forall>d k. hm_get (sts_queue_keys (ts_timers s)) d = Some k \<longleftrightarrow>
           (\<exists>D. dq_view api (sts_queue (ts_timers s)) k = Some (d, D))) \<and>
        (\<forall>d t. hm_get (sts_timers (ts_timers s)) d = Some t \<longrightarrow> \<not> tm_refreshing t \<and>
           (tm_active t \<and> tm_enabled t \<longrightarrow>
             (\<exists>k D. dq_view api (sts_queue (ts_timers s)) k = Some (d, D) \<and>
                D \<le> max (ts_clock s) (expires_at t)) \<or>
             expires_at t \<le> ts_clock s \<and>
               (d \<in> ts_pending_hangup s \<or>
                (\<exists>\<tau> found. expires_at t \<le> \<tau> \<and> (d, \<tau>, found) \<in> ts_hung_up s))))"
proof (cases "timer_run api mode es q now")
  case (Inl p)
  with timer_run_watched [OF assms, of mode es now] show ?thesis by (simp add: watched_or_panic_def)
next
  case (Inr s)
  with timer_run_watched [OF assms, of mode es now] have w: "timers_watched api s"
    by (simp add: watched_or_panic_def)
  have sync: "timers_synced api (ts_timers s)" using w by (simp add: timers_watched_def)
  have "\<not> tm_refreshing t \<and> (timer_running t \<longrightarrow>
      (\<exists>k D. dq_view api (sts_queue (ts_timers s)) k = Some (d, D) \<and> D \<le> max (ts_clock s) (expires_at t)) \<or>
      expires_at t \<le> ts_clock s \<and> handed s d (expires_at t))"
    if t: "hm_get (sts_timers (ts_timers s)) d = Some t" for d t
  proof -
    have d: "dialog_watched api (ts_clock s) (handed s) (ts_timers s) d"
      using w by (simp add: timers_watched_def)
    show ?thesis
    proof (cases "deadline api (ts_timers s) d")
      case None
      with d t show ?thesis by (auto simp: dialog_watched_def timer_settled_def)
    next
      case (Some D)
      with d t have "\<not> tm_refreshing t" "due_in_time (ts_clock s) t D"
        by (simp_all add: dialog_watched_def timer_settled_def)
      with deadline_entry [OF sync Some] show ?thesis unfolding due_in_time_def by blast
    qed
  qed
  with Inr sync show ?thesis by (auto simp: timers_synced_def timer_running_def handed_def)
qed

text \<open>C12. The timer ends a session exactly when it should: when the queue delivers a dialog, it is
  marked for hangup if a whole interval has passed since the last refresh, and otherwise the local side
  is the refresher, half the interval has passed, and the session goes on.\<close>

theorem timer_delivery_outcome:
  assumes "delay_queue_laws api" "dq_view api q = Map.empty" "timer_run api mode es q now = Inr s"
    and "dq_next api (ts_clock s) (sts_queue (ts_timers s)) = Some (k, d, q')"
    and "timer_tick api body replies s = Inr s'"
  shows "\<exists>t. hm_get (sts_timers (ts_timers s)) d = Some t \<and>
    (if tm_last_refresh t + tm_session_interval t \<le> ts_clock s then d \<in> ts_pending_hangup s'
     else should_we_refresh t \<and> tm_last_refresh t + tm_session_interval t div 2 \<le> ts_clock s \<and>
       ts_pending_hangup s' = ts_pending_hangup s)"
proof -
  have w: "timers_watched api s"
    using timer_run_watched [OF assms(1,2), of mode es now] assms(3) by (simp add: watched_or_panic_def)
  obtain t where t: "hm_get (sts_timers (ts_timers s)) d = Some t" "timer_running t" "timer_settled (ts_clock s) t"
    "is_expired (ts_clock s) t \<or> should_we_refresh t \<and> should_refresh (ts_clock s) t"
    by (rule delivery_due [OF assms(1) w assms(4)])
  have tick: "timer_fired api body replies d (s\<lparr>ts_timers := (ts_timers s)\<lparr>sts_queue := q'\<rparr>\<rparr>) = Inr s'"
    using assms(4,5) by (simp add: timer_tick_def)
  show ?thesis
  proof (cases "is_expired (ts_clock s) t")
    case True
    define ts where "ts = (ts_timers s)\<lparr>sts_queue := q',
      sts_queue_keys := hm_remove d (sts_queue_keys (ts_timers s))\<rparr>"
    have "next_timer_action (ts_clock s) d ((ts_timers s)\<lparr>sts_queue := q'\<rparr>) = (Some ActionExpired, ts)"
      using True t(1) by (simp add: next_timer_action_def Let_def ts_def)
    with tick have "s' = s\<lparr>ts_timers := ts, ts_pending_hangup := insert d (ts_pending_hangup s)\<rparr>"
      by (simp add: timer_fired_def)
    then have "d \<in> ts_pending_hangup s'" by simp
    with True t show ?thesis by (auto simp: is_expired_def timer_settled_def)
  next
    case False
    with t have r: "should_we_refresh t" "should_refresh (ts_clock s) t" by auto
    define ts where "ts = set_timer d (t\<lparr>tm_refreshing := True\<rparr>) ((ts_timers s)\<lparr>sts_queue := q',
      sts_queue_keys := hm_remove d (sts_queue_keys (ts_timers s))\<rparr>)"
    obtain ok run where run: "send_dialog_session_refresh d body
        \<lparr>rf_timers = ts, rf_now = ts_clock s, rf_replies = replies, rf_attempts = []\<rparr> = (ok, run)" by fastforce
    have act: "next_timer_action (ts_clock s) d ((ts_timers s)\<lparr>sts_queue := q'\<rparr>) = (Some ActionRefresh, ts)"
      using False t(1,3) r by (simp add: next_timer_action_def start_refresh_def timer_settled_def Let_def ts_def)
    define sched where "sched = (if ok then schedule_timer else schedule_expiration_timer) api (rf_now run) d
      (rf_timers run)"
    from tick act run have "map_sum id (\<lambda>ts'. s\<lparr>ts_timers := ts', ts_clock := rf_now run\<rparr>) sched = Inr s'"
      by (simp add: timer_fired_def sched_def)
    then have "ts_pending_hangup s' = ts_pending_hangup s" by (auto simp: map_sum_Inr_iff)
    moreover have "\<not> tm_last_refresh t + tm_session_interval t \<le> ts_clock s"
      using False t(2,3) by (auto simp: is_expired_def timer_settled_def)
    moreover have "tm_last_refresh t + tm_session_interval t div 2 \<le> ts_clock s"
      using r(2) t(3) unfolding should_refresh_def timer_settled_def by linarith
    ultimately show ?thesis using t(1) r(1) by simp
  qed
qed

text \<open>A dialog that the dialog layer has at every turn of the loop is never drained in vain.\<close>

definition hangups_found :: "'d \<Rightarrow> time_panic + ('d, 'q, 'k) timer_session \<Rightarrow> bool" where
  "hangups_found d r \<longleftrightarrow> (\<forall>s \<tau>. r = Inr s \<longrightarrow> (d, \<tau>, False) \<notin> ts_hung_up s)"

lemma timer_tick_hung_up: "timer_tick api body replies s = Inr s' \<Longrightarrow> ts_hung_up s' = ts_hung_up s"
  by (auto simp: timer_tick_def timer_fired_def map_sum_Inr_iff
      split: option.splits prod.splits timer_action.splits)

lemma timer_event_hung_up:
  assumes "timer_event_step api mode e s = Inr s'" "\<And>live. e \<noteq> LoopTurn live"
  shows "ts_hung_up s' = ts_hung_up s"
  using assms by (cases e) (auto simp: map_sum_Inr_iff dest: timer_tick_hung_up)

lemma timer_event_found:
  assumes "hangups_found d r" "\<And>live. e = LoopTurn live \<Longrightarrow> d \<in> live"
  shows "hangups_found d (timer_event_apply api mode e r)"
proof (cases "\<exists>live. e = LoopTurn live")
  case True
  with assms show ?thesis
    by (auto simp: hangups_found_def timer_event_apply_def drain_pending_hangup_def split: sum.splits)
next
  case False
  with assms(1) show ?thesis
    by (auto simp: hangups_found_def timer_event_apply_def split: sum.splits dest!: timer_event_hung_up)
qed

lemma timer_run_found:
  assumes "\<And>live. LoopTurn live \<in> set es \<Longrightarrow> d \<in> live"
  shows "hangups_found d (timer_run api mode es q now)"
proof -
  have "hangups_found d (fold (timer_event_apply api mode) es r)"
    if "hangups_found d r" "\<And>live. LoopTurn live \<in> set es \<Longrightarrow> d \<in> live" for r
    using that by (induction es arbitrary: r) (simp_all add: timer_event_found)
  moreover have "hangups_found d (Inr (timer_start q now))" by (simp add: hangups_found_def timer_start_def)
  ultimately show ?thesis using assms by blast
qed

text \<open>C13. A session that is not refreshed ends: once the clock is a millisecond past the expiration of a
  running timer and the queue has nothing more to deliver, the next turn of the loop leaves the dialog's
  hangup started, at the expiration or later, provided that the dialog layer has the dialog at every turn.\<close>

theorem unrefreshed_session_ends:
  assumes "delay_queue_laws api" "dq_view api q = Map.empty" "timer_run api mode es q now = Inr s"
    and "hm_get (sts_timers (ts_timers s)) d = Some t" "tm_active t" "tm_enabled t"
    and "ts_clock s + timer_granularity \<le> later"
    and "expires_at t + timer_granularity \<le> later"
    and "dq_next api later (sts_queue (ts_timers s)) = None"
    and "\<And>live. LoopTurn live \<in> set (es @ [LoopTurn live']) \<Longrightarrow> d \<in> live"
  shows "\<exists>s' \<tau>. timer_event_step api mode (LoopTurn live') s = Inr s' \<and>
    expires_at t \<le> \<tau> \<and> (d, \<tau>, True) \<in> ts_hung_up s'"
proof -
  have w: "timers_watched api s"
    using timer_run_watched [OF assms(1,2), of mode es now] assms(3) by (simp add: watched_or_panic_def)
  then have dw: "dialog_watched api (ts_clock s) (handed s) (ts_timers s) d"
    by (simp add: timers_watched_def)
  have "deadline api (ts_timers s) d = None"
  proof (cases "deadline api (ts_timers s) d")
    case (Some D)
    then obtain k where k: "dq_view api (sts_queue (ts_timers s)) k = Some (d, D)"
      using w deadline_entry [of api "ts_timers s" d D] by (auto simp: timers_watched_def)
    have "due_in_time (ts_clock s) t D" using dw assms(4) Some by (simp add: dialog_watched_def)
    with queue_idle [OF assms(1,9) k] assms(7,8) show ?thesis by (auto simp: due_in_time_def)
  qed simp
  with dw assms(4-6) have over: "expires_at t \<le> ts_clock s" "handed s d (expires_at t)"
    by (simp_all add: dialog_watched_def timer_running_def)
  have "hangups_found d (Inr s :: time_panic + ('a, 'b, 'c) timer_session)"
    using timer_run_found [of es d api mode q now] assms(3,10) by simp
  then have found: "(d, \<tau>, f) \<in> ts_hung_up s \<Longrightarrow> f" for \<tau> f by (cases f) (simp_all add: hangups_found_def)
  have "\<exists>\<tau>. expires_at t \<le> \<tau> \<and> (d, \<tau>, True) \<in> ts_hung_up (drain_pending_hangup live' s)"
  proof (cases "d \<in> ts_pending_hangup s")
    case True
    with over(1) assms(10) show ?thesis by (auto simp: drain_pending_hangup_def image_iff)
  next
    case False
    with over(2) obtain \<tau> f where "expires_at t \<le> \<tau>" "(d, \<tau>, f) \<in> ts_hung_up s" by (auto simp: handed_def)
    with found [of \<tau> f] show ?thesis by (auto simp: drain_pending_hangup_def)
  qed
  then show ?thesis by auto
qed

section \<open>Negotiation\<close>

lemma from_secs_as_secs [simp]: "as_secs (from_secs n) = n"
  by (simp add: as_secs_def from_secs_def ns_per_sec_def)

lemma digits_not_special:
  "CHR '';'' \<notin> set (nat_to_string n)" "\<forall>c \<in> set (nat_to_string n). \<not> is_white c"
  using nat_to_string_digits [of n] by (auto simp: is_ascii_digit_def is_white_def code_def)

lemma session_expires_value_parts:
  "split_on CHR '';'' (session_expires_value se) = nat_to_string (as_secs (se_interval se)) #
     (case se_refresher se of None \<Rightarrow> [] | Some ParamUac \<Rightarrow> [''refresher=uac''] | Some ParamUas \<Rightarrow> [''refresher=uas''])"
  by (auto simp: session_expires_value_def digits_not_special split_on_no split_on_append
      split: option.split session_refresher_param.split)

lemma session_expires_print:
  assumes "secs < 2 ^ 64"
  shows "session_expires_parse (session_expires_value \<lparr>se_interval = from_secs secs, se_refresher = r\<rparr>)
    = Some \<lparr>se_interval = from_secs secs, se_refresher = r\<rparr>"
proof -
  have "trim (nat_to_string secs) = nat_to_string secs" by (rule trim_id) (simp add: digits_not_special)
  moreover have "refresher_loop [''refresher=uac''] None = Some ParamUac"
    "refresher_loop [''refresher=uas''] None = Some ParamUas"
    by code_simp+
  ultimately show ?thesis
    using assms
    by (auto simp: session_expires_parse_def session_expires_value_parts parse_uint_nat_to_string
        split: option.split session_refresher_param.split)
qed

lemma header_session_expires_made:
  assumes "secs < 2 ^ 64"
  shows "header_session_expires (session_expires_header \<lparr>se_interval = from_secs secs, se_refresher = r\<rparr> # hs)
    = Some \<lparr>se_interval = from_secs secs, se_refresher = r\<rparr>"
  using session_expires_print [OF assms, of r]
  by (simp add: header_session_expires_def timer_header_value_def session_expires_header_def)

fun other_side :: "session_refresher \<Rightarrow> session_refresher" where
  "other_side RefreshLocal = RefreshRemote"
| "other_side RefreshRemote = RefreshLocal"

text \<open>C36. Both ends of a dialog agree who refreshes, and how often: a peer of the same kind that reads
  our answer, or that reads our refresh request and adopts what it asks, takes the interval we wrote and
  the role opposite to ours.\<close>

theorem refresher_agreement:
  assumes "tm_session_interval t = from_secs secs" "secs < 2 ^ 64"
  shows "(\<exists>se. header_session_expires (build_session_timer_response_headers t) = Some se \<and>
      se_interval se = tm_session_interval t \<and>
      select_client_timer_refresher (se_refresher se) = other_side (tm_refresher t)) \<and>
    (\<exists>se. header_session_expires (build_session_timer_headers t False) = Some se \<and>
      se_interval se = tm_session_interval t \<and>
      select_server_timer_refresher supported present (se_refresher se) = other_side (tm_refresher t)) \<and>
    (tm_min_se peer \<le> tm_session_interval t \<longrightarrow>
      (\<exists>peer'. apply_session_timer_headers peer (build_session_timer_headers t False) = Inr peer' \<and>
        tm_session_interval peer' = tm_session_interval t \<and> tm_refresher peer' = other_side (tm_refresher t)))"
  using assms
  by (cases "tm_refresher t")
    (simp_all add: build_session_timer_response_headers_def build_session_timer_headers_def
      build_timer_headers_def header_session_expires_made select_client_timer_refresher_def
      select_server_timer_refresher_def apply_session_timer_headers_def Let_def)

section \<open>Inputs from the peer\<close>

lemma header_seconds:
  assumes "secs < 2 ^ 64"
  shows "header_session_expires [HOther ''Session-Expires'' (nat_to_string secs)]
    = Some \<lparr>se_interval = from_secs secs, se_refresher = None\<rparr>"
  using header_session_expires_made [OF assms, of None "[]"]
  by (simp add: session_expires_header_def session_expires_value_def)

text \<open>The interval a callee answers with is adopted without the minimum that the caller's is held
  to: an answer below ninety seconds is accepted, and an interval of zero expires at once.\<close>

theorem callee_interval_unchecked:
  assumes "secs < 90"
  shows "server_timer mode expires now [HOther ''Session-Expires'' (nat_to_string secs)] = Inl 90 \<and>
    tm_session_interval (callee_timer mode requested now [HOther ''Session-Expires'' (nat_to_string secs)])
      = from_secs secs \<and>
    (secs = 0 \<longrightarrow> is_expired now (callee_timer mode requested now [HOther ''Session-Expires'' (nat_to_string secs)]))"
proof -
  have "timer_header_value [HOther ''Session-Expires'' v] ''Min-SE'' = None"
    "timer_header_value [HOther ''Session-Expires'' v] ''Session-Expires'' = Some v" for v
    by (simp_all add: timer_header_value_def eq_ignore_ascii_case_def to_ascii_lowercase_def)
  moreover have "from_secs secs < from_secs 90" using assms by (simp add: from_secs_def ns_per_sec_def)
  ultimately show ?thesis
    using header_seconds [of secs] assms
    by (auto simp: server_timer_def callee_timer_def timer_default_def header_session_expires_def Let_def
        is_expired_def timer_running_def from_secs_def as_secs_def ns_per_sec_def)
qed

text \<open>C14. An absurdly long interval kills the session task: with the largest 64-bit number of
  seconds, from a callee's answer or in a caller's request, the deadline cannot be represented and the
  addition panics.\<close>

theorem huge_session_expires_panics:
  assumes "ns_per_sec \<le> now"
  shows "init_callee_timer api mode requested now d
      [HOther ''Session-Expires'' (nat_to_string 18446744073709551615)] ts = Inl InstantOverflow \<and>
    init_server_timer api mode expires now
      (Some (d, [HOther ''Session-Expires'' (nat_to_string 18446744073709551615)])) ts = Inl InstantOverflow"
proof -
  define v where "v = nat_to_string 18446744073709551615"
  let ?h = "[HOther ''Session-Expires'' v]"
  define long where "long = from_secs 18446744073709551615"
  have h: "header_session_expires ?h = Some \<lparr>se_interval = long, se_refresher = None\<rparr>"
    using header_seconds [of 18446744073709551615] by (simp add: v_def long_def)
  have vs: "timer_header_value ?h ''Min-SE'' = None" "timer_header_value ?h ''Session-Expires'' = Some v"
    "has_timer_support ?h = False"
    by (simp_all add: timer_header_value_def has_timer_support_def eq_ignore_ascii_case_def to_ascii_lowercase_def)
  have p: "session_expires_parse v = Some \<lparr>se_interval = long, se_refresher = None\<rparr>"
    using h by (simp add: header_session_expires_def vs)
  have over: "instant_end \<le> now + long div 2" "\<not> long < from_secs 90"
    using assms by (simp_all add: long_def from_secs_def instant_end_def ns_per_sec_def)
  then have sched: "schedule_timer api now d (set_timer d t ts) = Inl InstantOverflow"
    if "timer_running t" "tm_last_refresh t = now" "tm_session_interval t = long" "\<not> tm_refreshing t"
      "should_we_refresh t" for t
    using that by (simp add: schedule_timer_def schedule_by_def next_timeout_def time_until_refresh_def
        time_until_def next_refresh_time_def instant_add_def set_timer_def)
  have "init_callee_timer api mode requested now d ?h ts = Inl InstantOverflow"
    unfolding init_callee_timer_def
    by (rule sched) (simp_all add: callee_timer_def h timer_default_def timer_running_def Let_def
        should_we_refresh_def select_client_timer_refresher_def)
  moreover obtain t where t: "server_timer mode expires now ?h = Inr t" "timer_running t" "tm_last_refresh t = now"
    "tm_session_interval t = long" "\<not> tm_refreshing t" "should_we_refresh t"
    using over(2) by (simp add: server_timer_def vs p timer_default_def Let_def timer_running_def
        should_we_refresh_def select_server_timer_refresher_def)
  ultimately show ?thesis using sched [of t] by (simp add: init_server_timer_def v_def [symmetric])
qed

section \<open>The end of a refresh\<close>

text \<open>C15. A refresh exchange comes to an end whatever the peer answers and however long it takes: after one to
  four attempts to send a request (an UPDATE and a re-INVITE, each repeated at most once with a longer interval;
  an attempt for which no dialog is found sends nothing) the timer
  of its dialog is no longer refreshing, and no other dialog is touched.\<close>

theorem refresh_exchange_ends:
  assumes "rf_timer r d = Some t" "tm_last_refresh t \<le> rf_now r"
  shows "\<exists>ok r' sent t'. send_dialog_session_refresh d body r = (ok, r') \<and>
    rf_attempts r' = rf_attempts r @ sent \<and> 1 \<le> length sent \<and> length sent \<le> 4 \<and>
    rf_timer r' d = Some t' \<and> \<not> tm_refreshing t' \<and> (\<forall>e. e \<noteq> d \<longrightarrow> rf_timer r' e = rf_timer r e)"
proof -
  obtain ok r' where e: "send_dialog_session_refresh d body r = (ok, r')" by fastforce
  have "has_timer d r" using assms by (auto simp: has_timer_def)
  note ends = send_refresh_ok [OF e this]
  then obtain t' where t': "rf_timer r' d = Some t'" "\<not> tm_refreshing t'"
    by (auto simp: run_settled_def timer_settled_def)
  from ends obtain sent where "rf_attempts r' = rf_attempts r @ sent" by (auto simp: exchange_frame_def)
  with ends e t' show ?thesis by (auto simp: exchange_frame_def Suc_le_eq)
qed

section \<open>A queue and a run\<close>

type_synonym demo_queue = "nat \<times> (nat, nat \<times> instant) hmap"

definition demo_view :: "demo_queue \<Rightarrow> nat \<Rightarrow> (nat \<times> instant) option" where
  "demo_view q k = (if k < fst q then hm_get (snd q) k else None)"

definition demo_delay_queue :: "(nat, demo_queue, nat) delay_queue_api" where
  "demo_delay_queue =
     \<lparr>dq_insert = (\<lambda>d now timeout q.
        if 68719476735000000 < timeout then Inl TimeoutTooFar
        else Inr (fst q, (Suc (fst q), hm_insert (fst q) (d, now + timeout) (snd q)))),
      dq_reset = (\<lambda>k now timeout q.
        case demo_view q k of
          None \<Rightarrow> Inl UnknownKey
        | Some (d, _) \<Rightarrow> if 68719476735000000 < timeout then Inl TimeoutTooFar
                        else Inr (fst q, hm_insert k (d, now + timeout) (snd q))),
      dq_remove = (\<lambda>k q. case demo_view q k of None \<Rightarrow> Inl UnknownKey
                         | Some _ \<Rightarrow> Inr (fst q, hm_remove k (snd q))),
      dq_clear = (\<lambda>q. (0, [])),
      dq_next = (\<lambda>now q.
        case find (\<lambda>(k, _). case demo_view q k of None \<Rightarrow> False | Some (_, t) \<Rightarrow> t \<le> now) (snd q) of
          None \<Rightarrow> None
        | Some (k, _) \<Rightarrow> Some (k, fst (the (demo_view q k)), (fst q, hm_remove k (snd q)))),
      dq_view = demo_view, dq_max = 68719476735000000\<rparr>"

lemma demo_delay_queue_laws: "delay_queue_laws demo_delay_queue"
proof -
  have "queue_next_law demo_delay_queue"
    unfolding queue_next_law_def
  proof (intro allI)
    fix now and q :: demo_queue
    let ?P = "\<lambda>(k, _ :: nat \<times> instant). case demo_view q k of None \<Rightarrow> False | Some (_, t) \<Rightarrow> t \<le> now"
    show "case dq_next demo_delay_queue now q of
        None \<Rightarrow> \<forall>k d t. dq_view demo_delay_queue q k = Some (d, t) \<longrightarrow> now < t + timer_granularity
      | Some (k, d, q') \<Rightarrow> (\<exists>t. dq_view demo_delay_queue q k = Some (d, t) \<and> t \<le> now) \<and>
          dq_view demo_delay_queue q' = (dq_view demo_delay_queue q)(k := None)"
    proof (cases "find ?P (snd q)")
      case None
      have "now < t" if "demo_view q k = Some (d, t)" for k d t
      proof -
        have "(k, (d, t)) \<in> set (snd q)" using that by (auto simp: demo_view_def hm_get_in split: if_splits)
        with None that show ?thesis by (fastforce simp: find_None_iff)
      qed
      with None show ?thesis by (fastforce simp: demo_delay_queue_def timer_granularity_def)
    next
      case (Some ke)
      obtain k x where k: "ke = (k, x)" by (cases ke)
      have "?P ke" using Some by (auto simp: find_Some_iff)
      then obtain d t where "demo_view q k = Some (d, t)" "t \<le> now"
        using k by (auto split: option.splits)
      then show ?thesis
        using Some k by (auto simp: demo_delay_queue_def demo_view_def fun_eq_iff)
    qed
  qed
  then show ?thesis
    by (auto simp: delay_queue_laws_def queue_insert_law_def queue_reset_law_def queue_remove_law_def
        demo_delay_queue_def demo_view_def fun_eq_iff split: if_splits)
qed

text \<open>A callee answers with an interval of zero; the queue delivers its dialog at once.\<close>

definition demo_answer :: "nat timer_event" where
  "demo_answer = CalleeAnswered 1 [HOther ''Session-Expires'' (nat_to_string 0)] 0"

definition demo_timer :: session_timer_state where
  "demo_timer = callee_timer TimerSupported 0 0 [HOther ''Session-Expires'' (nat_to_string 0)]"

definition demo_watching :: "(nat, demo_queue, nat) timer_session" where
  "demo_watching = \<lparr>ts_timers = \<lparr>sts_timers = [(1, demo_timer)], sts_refresh_disabled = {},
     sts_queue = (1, [(0, (1, 0))]), sts_queue_keys = [(1, 0)]\<rparr>, ts_pending_hangup = {}, ts_clock = 0,
     ts_hung_up = {}\<rparr>"

definition demo_expired :: "(nat, demo_queue, nat) timer_session" where
  "demo_expired = \<lparr>ts_timers = \<lparr>sts_timers = [(1, demo_timer)], sts_refresh_disabled = {},
     sts_queue = (1, []), sts_queue_keys = []\<rparr>, ts_pending_hangup = {1}, ts_clock = 0, ts_hung_up = {}\<rparr>"

lemma demo_timer_fields:
  "tm_active demo_timer" "tm_enabled demo_timer" "\<not> tm_refreshing demo_timer"
  "tm_last_refresh demo_timer = 0" "tm_session_interval demo_timer = 0" "should_we_refresh demo_timer"
  using header_seconds [of 0]
  by (simp_all add: demo_timer_def callee_timer_def timer_default_def Let_def from_secs_def
      should_we_refresh_def select_client_timer_refresher_def)

lemma demo_view_empty: "dq_view demo_delay_queue (0, []) = Map.empty"
  by (simp add: demo_delay_queue_def demo_view_def fun_eq_iff)

lemma demo_timer_runs:
  "timer_run demo_delay_queue TimerSupported [demo_answer] (0, []) 0 = Inr demo_watching"
  "timer_tick demo_delay_queue False [] demo_watching = Inr demo_expired"
proof -
  have "next_timeout 0 demo_timer = Inr (Some 0)"
    by (simp add: next_timeout_def timer_running_def demo_timer_fields time_until_refresh_def time_until_def
        next_refresh_time_def instant_add_def instant_end_def ns_per_sec_def)
  then show "timer_run demo_delay_queue TimerSupported [demo_answer] (0, []) 0 = Inr demo_watching"
    by (simp add: timer_event_apply_def demo_answer_def timer_start_def init_callee_timer_def
        demo_timer_def [symmetric] schedule_timer_def schedule_by_def set_timer_def
        schedule_timer_with_timeout_def demo_delay_queue_def demo_watching_def hm_get_def hm_insert_def)
  show "timer_tick demo_delay_queue False [] demo_watching = Inr demo_expired"
    by (simp add: timer_tick_def timer_fired_def next_timer_action_def demo_watching_def demo_expired_def
        demo_delay_queue_def demo_view_def hm_get_def hm_remove_def is_expired_def timer_running_def
        demo_timer_fields Let_def)
qed

theorem session_timers_watched_witness:
  "case timer_run demo_delay_queue TimerSupported [demo_answer, QueueDelivers False []] (0, []) 0 of
      Inl p \<Rightarrow> p \<noteq> UnknownKey
    | Inr s \<Rightarrow>
        (\<forall>d k. hm_get (sts_queue_keys (ts_timers s)) d = Some k \<longleftrightarrow>
           (\<exists>D. dq_view demo_delay_queue (sts_queue (ts_timers s)) k = Some (d, D))) \<and>
        (\<forall>d t. hm_get (sts_timers (ts_timers s)) d = Some t \<longrightarrow> \<not> tm_refreshing t \<and>
           (tm_active t \<and> tm_enabled t \<longrightarrow>
             (\<exists>k D. dq_view demo_delay_queue (sts_queue (ts_timers s)) k = Some (d, D) \<and>
                D \<le> max (ts_clock s) (expires_at t)) \<or>
             expires_at t \<le> ts_clock s \<and>
               (d \<in> ts_pending_hangup s \<or>
                (\<exists>\<tau> found. expires_at t \<le> \<tau> \<and> (d, \<tau>, found) \<in> ts_hung_up s))))"
  by (rule session_timers_watched [OF demo_delay_queue_laws demo_view_empty])

theorem timer_delivery_outcome_witness:
  "\<exists>t. hm_get (sts_timers (ts_timers demo_watching)) 1 = Some t \<and>
    (if tm_last_refresh t + tm_session_interval t \<le> ts_clock demo_watching
     then 1 \<in> ts_pending_hangup demo_expired
     else should_we_refresh t \<and> tm_last_refresh t + tm_session_interval t div 2 \<le> ts_clock demo_watching \<and>
       ts_pending_hangup demo_expired = ts_pending_hangup demo_watching)"
proof (rule timer_delivery_outcome [OF demo_delay_queue_laws demo_view_empty demo_timer_runs(1) _ demo_timer_runs(2)])
  show "dq_next demo_delay_queue (ts_clock demo_watching) (sts_queue (ts_timers demo_watching))
      = Some (0, 1, (1, []))"
    by (simp add: demo_delay_queue_def demo_watching_def demo_view_def hm_get_def hm_remove_def)
qed

theorem unrefreshed_session_ends_witness:
  "\<exists>s' \<tau>. timer_event_step demo_delay_queue TimerSupported (LoopTurn {1}) demo_expired = Inr s' \<and>
    expires_at demo_timer \<le> \<tau> \<and> (1, \<tau>, True) \<in> ts_hung_up s'"
proof (rule unrefreshed_session_ends [OF demo_delay_queue_laws demo_view_empty])
  show "timer_run demo_delay_queue TimerSupported [demo_answer, QueueDelivers False []] (0, []) 0 = Inr demo_expired"
    using demo_timer_runs by (simp add: timer_event_apply_def)
  show "hm_get (sts_timers (ts_timers demo_expired)) 1 = Some demo_timer"
    by (simp add: demo_expired_def hm_get_def)
  show "dq_next demo_delay_queue timer_granularity (sts_queue (ts_timers demo_expired)) = None"
    by (simp add: demo_delay_queue_def demo_expired_def)
qed (auto simp: demo_timer_fields demo_expired_def timer_granularity_def demo_answer_def)

theorem refresher_agreement_witness:
  "(\<exists>se. header_session_expires (build_session_timer_response_headers (timer_default 7)) = Some se \<and>
      se_interval se = tm_session_interval (timer_default 7) \<and>
      select_client_timer_refresher (se_refresher se) = other_side (tm_refresher (timer_default 7))) \<and>
    (\<exists>se. header_session_expires (build_session_timer_headers (timer_default 7) False) = Some se \<and>
      se_interval se = tm_session_interval (timer_default 7) \<and>
      select_server_timer_refresher True True (se_refresher se) = other_side (tm_refresher (timer_default 7))) \<and>
    (\<exists>peer'. apply_session_timer_headers (timer_default 9) (build_session_timer_headers (timer_default 7) False)
          = Inr peer' \<and>
        tm_session_interval peer' = tm_session_interval (timer_default 7) \<and>
        tm_refresher peer' = other_side (tm_refresher (timer_default 7)))"
proof -
  have "tm_session_interval (timer_default 7) = from_secs 1800" "(1800 :: nat) < 2 ^ 64"
    "tm_min_se (timer_default 9) \<le> tm_session_interval (timer_default 7)"
    by (simp_all add: timer_default_def from_secs_def)
  from refresher_agreement [OF this(1,2), of True True "timer_default 9"] this(3) show ?thesis by blast
qed

theorem huge_session_expires_panics_witness:
  "init_callee_timer demo_delay_queue TimerSupported 0 ns_per_sec 1
      [HOther ''Session-Expires'' (nat_to_string 18446744073709551615)] (ts_timers demo_watching)
      = Inl InstantOverflow \<and>
    init_server_timer demo_delay_queue TimerSupported 0 ns_per_sec
      (Some (1, [HOther ''Session-Expires'' (nat_to_string 18446744073709551615)])) (ts_timers demo_watching)
      = Inl InstantOverflow"
  by (rule huge_session_expires_panics) simp

theorem refresh_exchange_ends_witness:
  "\<exists>ok r' sent t'. send_dialog_session_refresh 1 True \<lparr>rf_timers = ts_timers demo_watching, rf_now = 5,
      rf_replies = [(3, ReplyFailed)], rf_attempts = []\<rparr> = (ok, r') \<and>
    rf_attempts r' = [] @ sent \<and> 1 \<le> length sent \<and> length sent \<le> 4 \<and>
    rf_timer r' 1 = Some t' \<and> \<not> tm_refreshing t'"
proof -
  let ?r = "\<lparr>rf_timers = ts_timers demo_watching, rf_now = 5, rf_replies = [(3, ReplyFailed)], rf_attempts = []\<rparr>"
  have "rf_timer ?r 1 = Some demo_timer" "tm_last_refresh demo_timer \<le> rf_now ?r"
    by (simp_all add: demo_watching_def hm_get_def demo_timer_fields)
  from refresh_exchange_ends [OF this, of True] show ?thesis by auto
qed

end
