(* ===== verification/Net_Addr.thy ===== *)
theory Net_Addr
  imports Rust_Str
begin

text \<open>
  IP addresses of \<^verbatim>\<open>std::net\<close>: the addresses as numbers, the parser of their text (which the sources
  reach through \<^verbatim>\<open>str::parse::<IpAddr>\<close>) and the address classes they ask for.
\<close>

datatype ip_addr = IpV4 u32 | IpV6 u128

section \<open>Parsing\<close>

definition to_digit :: "nat \<Rightarrow> char \<Rightarrow> nat option" where
  "to_digit radix c =
     (let n = code c;
          d = (if 48 \<le> n \<and> n \<le> 57 then n - 48
               else if 97 \<le> n \<and> n \<le> 122 then n - 87
               else if 65 \<le> n \<and> n \<le> 90 then n - 55
               else radix)
      in if d < radix then Some d else None)"

definition number_value :: "nat \<Rightarrow> string \<Rightarrow> nat" where
  "number_value radix s = foldl (\<lambda>v c. radix * v + the (to_digit radix c)) 0 s"

text \<open>The cursor is the rest of the text. A number takes every digit that follows; it fails on
  none, on more than \<open>max_digits\<close>, on a leading zero if those are not allowed, and on overflow.\<close>

definition read_number :: "nat \<Rightarrow> nat \<Rightarrow> bool \<Rightarrow> nat \<Rightarrow> string \<Rightarrow> (nat \<times> string) option" where
  "read_number radix max_digits allow_zero_prefix bound s =
     (let ds = takeWhile (\<lambda>c. to_digit radix c \<noteq> None) s; v = number_value radix ds
      in if ds = [] \<or> max_digits < length ds \<or> bound \<le> v \<or>
            \<not> allow_zero_prefix \<and> hd ds = CHR ''0'' \<and> 1 < length ds
         then None else Some (v, drop (length ds) s))"

definition read_separator :: "char \<Rightarrow> nat \<Rightarrow> (string \<Rightarrow> 'a option) \<Rightarrow> string \<Rightarrow> 'a option" where
  "read_separator sep index inner s =
     (if 0 < index then (case s of [] \<Rightarrow> None | c # r \<Rightarrow> if c = sep then inner r else None) else inner s)"

fun read_octets :: "nat \<Rightarrow> nat \<Rightarrow> nat \<Rightarrow> string \<Rightarrow> (nat \<times> string) option" where
  "read_octets i 0 acc s = Some (acc, s)"
| "read_octets i (Suc n) acc s =
     (case read_separator CHR ''.'' i (read_number 10 3 False 256) s of
        None \<Rightarrow> None
      | Some (octet, r) \<Rightarrow> read_octets (Suc i) n (256 * acc + octet) r)"

definition read_ipv4_addr :: "string \<Rightarrow> (nat \<times> string) option" where
  "read_ipv4_addr s = read_octets 0 4 0 s"

text \<open>Up to \<open>n\<close> groups, the last two of which may be an embedded IPv4 address (the flag tells).\<close>

fun read_groups :: "nat \<Rightarrow> nat \<Rightarrow> string \<Rightarrow> nat list \<times> bool \<times> string" where
  "read_groups i 0 s = ([], False, s)"
| "read_groups i (Suc n) s =
     (case (if 0 < n then read_separator CHR '':'' i read_ipv4_addr s else None) of
        Some (v4, r) \<Rightarrow> ([v4 div 65536, v4 mod 65536], True, r)
      | None \<Rightarrow>
          (case read_separator CHR '':'' i (read_number 16 4 True 65536) s of
             None \<Rightarrow> ([], False, s)
           | Some (g, r) \<Rightarrow> (case read_groups (Suc i) n r of (gs, v4, t) \<Rightarrow> (g # gs, v4, t))))"

definition groups_value :: "nat list \<Rightarrow> nat" where
  "groups_value gs = foldl (\<lambda>a g. 65536 * a + g) 0 gs"

definition read_ipv6_addr :: "string \<Rightarrow> (nat \<times> string) option" where
  "read_ipv6_addr s =
     (case read_groups 0 8 s of (head, head_ipv4, r) \<Rightarrow>
        if length head = 8 then Some (groups_value head, r)
        else if head_ipv4 then None
        else case strip_prefix ''::'' r of
               None \<Rightarrow> None
             | Some r2 \<Rightarrow>
                 (case read_groups 0 (8 - (length head + 1)) r2 of (tail, _, t) \<Rightarrow>
                    Some (groups_value (head @ replicate (8 - length head - length tail) 0 @ tail), t)))"

definition parse_ip_addr :: "string \<Rightarrow> ip_addr option" where
  "parse_ip_addr s =
     (case read_ipv4_addr s of
        Some (v, r) \<Rightarrow> if r = [] then Some (IpV4 (word_of_nat v)) else None
      | None \<Rightarrow>
          (case read_ipv6_addr s of
             Some (v, r) \<Rightarrow> if r = [] then Some (IpV6 (word_of_nat v)) else None
           | None \<Rightarrow> None))"

section \<open>Printing\<close>

definition octet_strs :: "u32 \<Rightarrow> string list" where
  "octet_strs v = map (\<lambda>i. nat_to_string (unat (drop_bit i v) mod 256)) [24, 16, 8, 0]"

fun join_with :: "string \<Rightarrow> string list \<Rightarrow> string" where
  "join_with sep [] = []"
| "join_with sep [s] = s"
| "join_with sep (s # t # ts) = s @ sep @ join_with sep (t # ts)"

definition ipv4_str :: "u32 \<Rightarrow> string" where
  "ipv4_str v = join_with ''.'' (octet_strs v)"

definition hex_digit :: "nat \<Rightarrow> char" where
  "hex_digit d = char_of (if d < 10 then 48 + d else 87 + d)"

definition hex_str :: "nat \<Rightarrow> string" where
  "hex_str n = (let ds = dropWhile (\<lambda>d. d = 0) [n div 4096 mod 16, n div 256 mod 16, n div 16 mod 16, n mod 16]
                in map hex_digit (if ds = [] then [0] else ds))"

definition v6_groups :: "u128 \<Rightarrow> nat list" where
  "v6_groups v = map (\<lambda>i. unat (drop_bit i v) mod 65536) [112, 96, 80, 64, 48, 32, 16, 0]"

text \<open>The first longest run of zero groups, as its start and length.\<close>

fun longest_zeroes :: "nat \<Rightarrow> nat \<times> nat \<Rightarrow> nat \<times> nat \<Rightarrow> nat list \<Rightarrow> nat \<times> nat" where
  "longest_zeroes i current longest [] = longest"
| "longest_zeroes i current longest (g # gs) =
     (if g = 0
      then let current = (if snd current = 0 then i else fst current, Suc (snd current))
           in longest_zeroes (Suc i) current (if snd longest < snd current then current else longest) gs
      else longest_zeroes (Suc i) (0, 0) longest gs)"

definition ipv6_str :: "u128 \<Rightarrow> string" where
  "ipv6_str v =
     (let gs = v6_groups v
      in if take 6 gs = [0, 0, 0, 0, 0, 65535] then ''::ffff:'' @ ipv4_str (ucast v)
         else case longest_zeroes 0 (0, 0) (0, 0) gs of (start, len) \<Rightarrow>
           if 1 < len
           then join_with '':'' (map hex_str (take start gs)) @ ''::'' @
                join_with '':'' (map hex_str (drop (start + len) gs))
           else join_with '':'' (map hex_str gs))"

fun ip_addr_str :: "ip_addr \<Rightarrow> string" where
  "ip_addr_str (IpV4 v) = ipv4_str v"
| "ip_addr_str (IpV6 v) = ipv6_str v"

section \<open>Classes of addresses\<close>

fun is_loopback :: "ip_addr \<Rightarrow> bool" where
  "is_loopback (IpV4 v) \<longleftrightarrow> drop_bit 24 v = 127"
| "is_loopback (IpV6 v) \<longleftrightarrow> v = 1"

fun is_unspecified :: "ip_addr \<Rightarrow> bool" where
  "is_unspecified (IpV4 v) \<longleftrightarrow> v = 0"
| "is_unspecified (IpV6 v) \<longleftrightarrow> v = 0"

definition v4_is_private :: "u32 \<Rightarrow> bool" where
  "v4_is_private v \<longleftrightarrow> drop_bit 24 v = 10 \<or> drop_bit 20 v = 2753 \<or> drop_bit 16 v = 49320"

end
