(* ===== verification/Sipflow_Protocol.thy ===== *)
theory Sipflow_Protocol
  imports Interfaces Net_Addr
begin

text \<open>
  The datagrams between a node and the sipflow collector,
  \<^verbatim>\<open>src/crates/rustpbx-sipflow/src/protocol.rs\<close>. A buffer is a list of bytes; the big-endian \<^verbatim>\<open>put_*\<close>
  and \<^verbatim>\<open>try_get_*\<close> of the bytes crate append at the end and take from the front. A \<^verbatim>\<open>String\<close> is its
  UTF-8 bytes, checked by \<open>utf8_valid\<close> where the source calls \<^verbatim>\<open>String::from_utf8\<close>.
\<close>

section \<open>Bytes\<close>

type_synonym bytes = "u8 list"

fun be_bytes :: "nat \<Rightarrow> nat \<Rightarrow> bytes" where
  "be_bytes 0 n = []"
| "be_bytes (Suc k) n = be_bytes k (n div 256) @ [word_of_nat (n mod 256)]"

definition be_value :: "bytes \<Rightarrow> nat" where
  "be_value bs = foldl (\<lambda>a b. 256 * a + unat b) 0 bs"

definition get_be :: "nat \<Rightarrow> bytes \<Rightarrow> (nat \<times> bytes) option" where
  "get_be k bs = (if length bs < k then None else Some (be_value (take k bs), drop k bs))"

text \<open>\<^verbatim>\<open>String::from_utf8\<close>: the well-formed byte sequences.\<close>

fun utf8_tail :: "nat \<Rightarrow> bytes \<Rightarrow> bytes option" where
  "utf8_tail 0 bs = Some bs"
| "utf8_tail (Suc n) [] = None"
| "utf8_tail (Suc n) (b # bs) = (if 128 \<le> unat b \<and> unat b < 192 then utf8_tail n bs else None)"

definition utf8_char :: "u8 \<Rightarrow> bytes \<Rightarrow> bytes option" where
  "utf8_char b bs =
     (let n = unat b; second = (\<lambda>lo hi. bs \<noteq> [] \<and> lo \<le> unat (hd bs) \<and> unat (hd bs) \<le> hi)
      in if n < 128 then Some bs
         else if 194 \<le> n \<and> n \<le> 223 then utf8_tail 1 bs
         else if n = 224 then (if second 160 191 then utf8_tail 2 bs else None)
         else if (225 \<le> n \<and> n \<le> 236) \<or> n = 238 \<or> n = 239 then utf8_tail 2 bs
         else if n = 237 then (if second 128 159 then utf8_tail 2 bs else None)
         else if n = 240 then (if second 144 191 then utf8_tail 3 bs else None)
         else if 241 \<le> n \<and> n \<le> 243 then utf8_tail 3 bs
         else if n = 244 then (if second 128 143 then utf8_tail 3 bs else None)
         else None)"

lemma utf8_tail_length: "utf8_tail n bs = Some r \<Longrightarrow> length r \<le> length bs"
  by (induction n bs rule: utf8_tail.induct) (auto split: if_splits)

lemma utf8_char_length: "utf8_char b bs = Some r \<Longrightarrow> length r \<le> length bs"
  by (auto simp: utf8_char_def Let_def dest: utf8_tail_length split: if_splits)

function utf8_valid :: "bytes \<Rightarrow> bool" where
  "utf8_valid [] = True"
| "utf8_valid (b # bs) = (case utf8_char b bs of None \<Rightarrow> False | Some r \<Rightarrow> utf8_valid r)"
  by pat_completeness auto
termination
  by (relation "measure length") (auto dest: utf8_char_length)

section \<open>Packets\<close>

datatype msg_type = MsgSip | MsgRtp

record packet =
  pk_msg_type :: msg_type
  pk_src :: "ip_addr \<times> u16"
  pk_dst :: "ip_addr \<times> u16"
  pk_timestamp :: u64
  pk_call_id :: "bytes option"
  pk_leg :: "u32 option"
  pk_payload :: bytes
  pk_client_id :: u32

datatype packet_error =
    OutOfBytes
  | InvalidMagic nat
  | UnsupportedVersion nat
  | InvalidMsgType
  | InvalidIpFamily
  | MetadataTooLong
  | CallIdTooLong
  | TrailingMetadata
  | InvalidUtf8
  | PayloadTooLong
  | DatagramTooShort
  | UnsupportedBatchVersion nat
  | FrameTooLong nat nat
  | TrailingBytes nat
  | BatchTooLarge nat

definition packet_magic :: nat where
  "packet_magic = 0x5346"

definition batch_magic :: nat where
  "batch_magic = 0x5347"

definition max_batch_count :: nat where
  "max_batch_count = 65535"

text \<open>A read with \<^verbatim>\<open>?\<close>, and the continuation on the rest of the buffer.\<close>

definition read_be :: "nat \<Rightarrow> bytes \<Rightarrow> (nat \<Rightarrow> bytes \<Rightarrow> packet_error + 'a) \<Rightarrow> packet_error + 'a" where
  "read_be k buf f = (case get_be k buf of None \<Rightarrow> Inl OutOfBytes | Some (v, rest) \<Rightarrow> f v rest)"

definition read_ip :: "nat \<Rightarrow> bytes \<Rightarrow> (ip_addr \<Rightarrow> bytes \<Rightarrow> packet_error + 'a) \<Rightarrow> packet_error + 'a" where
  "read_ip family buf f =
     (if family = 4 then read_be 4 buf (\<lambda>v. f (IpV4 (word_of_nat v)))
      else if family = 6 then read_be 16 buf (\<lambda>v. f (IpV6 (word_of_nat v)))
      else Inl InvalidIpFamily)"

definition read_metadata :: "bytes \<Rightarrow> (bytes option \<Rightarrow> u32 option \<Rightarrow> bytes \<Rightarrow> packet_error + 'a) \<Rightarrow>
    packet_error + 'a" where
  "read_metadata buf f =
     read_be 4 buf (\<lambda>metadata_len buf.
       if metadata_len = 0 then f None None buf
       else if length buf < metadata_len then Inl MetadataTooLong
       else read_be 4 (take metadata_len buf) (\<lambda>leg metadata.
         read_be 4 metadata (\<lambda>call_id_len metadata.
           if length metadata < call_id_len then Inl CallIdTooLong
           else if drop call_id_len metadata \<noteq> [] then Inl TrailingMetadata
           else if \<not> utf8_valid (take call_id_len metadata) then Inl InvalidUtf8
           else f (Some (take call_id_len metadata)) (Some (word_of_nat leg)) (drop metadata_len buf))))"

definition parse_packet :: "bytes \<Rightarrow> packet_error + packet" where
  "parse_packet buf =
     read_be 2 buf (\<lambda>magic buf.
       if magic \<noteq> packet_magic then Inl (InvalidMagic magic)
       else read_be 1 buf (\<lambda>version buf.
         if version \<noteq> 2 \<and> version \<noteq> 3 then Inl (UnsupportedVersion version)
         else read_be 1 buf (\<lambda>msg_type_raw buf.
           if msg_type_raw \<noteq> 0 \<and> msg_type_raw \<noteq> 1 then Inl InvalidMsgType
           else read_be 1 buf (\<lambda>ip_family buf.
             read_ip ip_family buf (\<lambda>src_ip buf.
               read_be 2 buf (\<lambda>src_port buf.
                 read_ip ip_family buf (\<lambda>dst_ip buf.
                   read_be 2 buf (\<lambda>dst_port buf.
                     read_be 8 buf (\<lambda>timestamp buf.
                       (if version = 3 then read_be 4 buf else (\<lambda>f. f 0 buf)) (\<lambda>client_id buf.
                         read_metadata buf (\<lambda>call_id leg buf.
                           read_be 4 buf (\<lambda>payload_len buf.
                             if length buf < payload_len then Inl PayloadTooLong
                             else Inr \<lparr>pk_msg_type = (if msg_type_raw = 0 then MsgSip else MsgRtp),
                                       pk_src = (src_ip, word_of_nat src_port),
                                       pk_dst = (dst_ip, word_of_nat dst_port),
                                       pk_timestamp = word_of_nat timestamp, pk_call_id = call_id,
                                       pk_leg = leg, pk_payload = take payload_len buf,
                                       pk_client_id = word_of_nat client_id\<rparr>))))))))))))"

definition ip_family :: "ip_addr \<Rightarrow> nat" where
  "ip_family ip = (case ip of IpV4 _ \<Rightarrow> 4 | IpV6 _ \<Rightarrow> 6)"

definition put_ip :: "ip_addr \<Rightarrow> bytes" where
  "put_ip ip = (case ip of IpV4 v \<Rightarrow> be_bytes 4 (unat v) | IpV6 v \<Rightarrow> be_bytes 16 (unat v))"

text \<open>The lengths are written as \<^verbatim>\<open>u32\<close>: \<open>be_bytes 4\<close> keeps their low 32 bits, as the casts do.\<close>

definition put_metadata :: "packet \<Rightarrow> bytes" where
  "put_metadata p =
     (if pk_call_id p \<noteq> None \<or> pk_leg p \<noteq> None
      then let call_id = (case pk_call_id p of Some c \<Rightarrow> c | None \<Rightarrow> []);
               metadata = be_bytes 4 (unat (case pk_leg p of Some l \<Rightarrow> l | None \<Rightarrow> 0)) @
                          be_bytes 4 (length call_id) @ call_id
           in be_bytes 4 (length metadata) @ metadata
      else be_bytes 4 0)"

definition encode_packet :: "packet \<Rightarrow> bytes" where
  "encode_packet p =
     be_bytes 2 packet_magic @ be_bytes 1 3 @
     be_bytes 1 (case pk_msg_type p of MsgSip \<Rightarrow> 0 | MsgRtp \<Rightarrow> 1) @
     be_bytes 1 (ip_family (fst (pk_src p))) @
     put_ip (fst (pk_src p)) @ be_bytes 2 (unat (snd (pk_src p))) @
     put_ip (fst (pk_dst p)) @ be_bytes 2 (unat (snd (pk_dst p))) @
     be_bytes 8 (unat (pk_timestamp p)) @ be_bytes 4 (unat (pk_client_id p)) @
     put_metadata p @ be_bytes 4 (length (pk_payload p)) @ pk_payload p"

section \<open>Batches\<close>

definition encode_frame :: "packet \<Rightarrow> bytes" where
  "encode_frame p = be_bytes 4 (length (encode_packet p)) @ encode_packet p"

definition encode_batch :: "packet list \<Rightarrow> packet_error + bytes" where
  "encode_batch packets =
     (if max_batch_count < length packets then Inl (BatchTooLarge (length packets))
      else Inr (be_bytes 2 batch_magic @ be_bytes 1 1 @ be_bytes 2 (length packets) @
                concat (map encode_frame packets)))"

text \<open>The loop over the frames; \<open>i\<close> is the frame number of the message.\<close>

fun parse_frames :: "nat \<Rightarrow> nat \<Rightarrow> bytes \<Rightarrow> packet_error + packet list \<times> bytes" where
  "parse_frames i 0 buf = Inr ([], buf)"
| "parse_frames i (Suc n) buf =
     read_be 4 buf (\<lambda>frame_len buf.
       if length buf < frame_len then Inl (FrameTooLong i frame_len)
       else case parse_packet (take frame_len buf) of
              Inl e \<Rightarrow> Inl e
            | Inr p \<Rightarrow>
                (case parse_frames (Suc i) n (drop frame_len buf) of
                   Inl e \<Rightarrow> Inl e
                 | Inr (ps, rest) \<Rightarrow> Inr (p # ps, rest)))"

definition parse_batch :: "bytes \<Rightarrow> packet_error + packet list" where
  "parse_batch buf =
     read_be 2 buf (\<lambda>magic buf.
       read_be 1 buf (\<lambda>version buf.
         if version \<noteq> 1 then Inl (UnsupportedBatchVersion version)
         else read_be 2 buf (\<lambda>count buf.
           case parse_frames 0 count buf of
             Inl e \<Rightarrow> Inl e
           | Inr (out, rest) \<Rightarrow> if rest \<noteq> [] then Inl (TrailingBytes (length rest)) else Inr out)))"

definition parse_datagram :: "bytes \<Rightarrow> packet_error + packet list" where
  "parse_datagram data =
     (if length data < 2 then Inl DatagramTooShort
      else let magic = be_value (take 2 data)
           in if magic = packet_magic then map_sum id (\<lambda>p. [p]) (parse_packet data)
              else if magic = batch_magic then parse_batch data
              else Inl (InvalidMagic magic))"

section \<open>Fields\<close>

lemma length_be_bytes [simp]: "length (be_bytes k n) = k"
  by (induction k arbitrary: n) simp_all

lemma be_value_snoc [simp]: "be_value (bs @ [b]) = 256 * be_value bs + unat b"
  by (simp add: be_value_def)

lemma be_value_be_bytes: "be_value (be_bytes k n) = n mod 256 ^ k"
proof (induction k arbitrary: n)
  case 0
  show ?case by (simp add: be_value_def)
next
  case (Suc k)
  have "unat (word_of_nat (n mod 256) :: u8) = n mod 256" by (simp add: unat_of_nat)
  with Suc [of "n div 256"] show ?case by (simp add: mod_mult2_eq)
qed

declare be_bytes.simps [simp del]

interpretation be_field: codec "be_bytes k" "get_be k" "\<lambda>n. n < 256 ^ k" for k
  by unfold_locales (simp add: get_be_def be_value_be_bytes)

lemma read_be_bytes [simp]: "read_be k (be_bytes k n @ rest) f = f (n mod 256 ^ k) rest"
  by (simp add: read_be_def get_be_def be_value_be_bytes)

lemma read_be_bytes_nil [simp]: "read_be k (be_bytes k n) f = f (n mod 256 ^ k) []"
  using read_be_bytes [of k n "[]" f] by simp

lemma unat_bound_bytes:
  "unat (w16 :: u16) < 256 ^ 2" "unat (w32 :: u32) < 256 ^ 4" "unat (w64 :: u64) < 256 ^ 8"
  "unat (w128 :: u128) < 256 ^ 16"
  using unat_lt_2p [of w16] unat_lt_2p [of w32] unat_lt_2p [of w64] unat_lt_2p [of w128] by simp_all

lemma read_ip_put_ip [simp]: "read_ip (ip_family ip) (put_ip ip @ rest) f = f ip rest"
  using unat_bound_bytes by (cases ip) (simp_all add: read_ip_def ip_family_def put_ip_def)

section \<open>Round trips\<close>

text \<open>A packet the wire format can carry: both addresses of one family, a call id that is a string,
  and lengths that fit their fields.\<close>

definition wire_ok :: "packet \<Rightarrow> bool" where
  "wire_ok p \<longleftrightarrow> ip_family (fst (pk_src p)) = ip_family (fst (pk_dst p)) \<and>
     (\<forall>c. pk_call_id p = Some c \<longrightarrow> utf8_valid c \<and> length c + 8 < 2 ^ 32) \<and>
     length (pk_payload p) < 2 ^ 32"

text \<open>What is lost on the wire: a packet with only one of call id and leg gets the other's default.\<close>

definition on_wire :: "packet \<Rightarrow> packet" where
  "on_wire p =
     (if pk_call_id p = None \<and> pk_leg p = None then p
      else p\<lparr>pk_call_id := Some (case pk_call_id p of Some c \<Rightarrow> c | None \<Rightarrow> []),
             pk_leg := Some (case pk_leg p of Some l \<Rightarrow> l | None \<Rightarrow> 0)\<rparr>)"

lemma read_put_metadata:
  assumes "\<forall>c. pk_call_id p = Some c \<longrightarrow> utf8_valid c \<and> length c + 8 < 2 ^ 32"
  shows "read_metadata (put_metadata p @ rest) f = f (pk_call_id (on_wire p)) (pk_leg (on_wire p)) rest"
proof (cases "pk_call_id p = None \<and> pk_leg p = None")
  case True
  then show ?thesis by (simp add: read_metadata_def put_metadata_def on_wire_def)
next
  case False
  define c where "c = (case pk_call_id p of Some c \<Rightarrow> c | None \<Rightarrow> [])"
  define l where "l = (case pk_leg p of Some l \<Rightarrow> l | None \<Rightarrow> 0)"
  have c: "utf8_valid c" "length c + 8 < 2 ^ 32"
    using assms by (auto simp: c_def split: option.splits)
  then have n: "(8 + length c) mod 256 ^ 4 = 8 + length c" "length c mod 256 ^ 4 = length c"
    by (simp_all add: mod_less)
  have put: "put_metadata p = be_bytes 4 (8 + length c) @ be_bytes 4 (unat l) @ be_bytes 4 (length c) @ c"
    using False by (auto simp: put_metadata_def Let_def c_def l_def)
  have "read_metadata (put_metadata p @ rest) f = f (Some c) (Some l) rest"
    using c(1) n unat_bound_bytes(2) [of l] by (simp add: read_metadata_def put)
  with False show ?thesis by (auto simp: on_wire_def c_def l_def)
qed

lemma parse_encode_packet:
  assumes "wire_ok p"
  shows "parse_packet (encode_packet p @ rest) = Inr (on_wire p)"
proof -
  let ?msg = "case pk_msg_type p of MsgSip \<Rightarrow> 0 | MsgRtp \<Rightarrow> (1 :: nat)"
  have msg: "?msg mod 256 = ?msg" "?msg = 0 \<or> ?msg = 1"
    "(if ?msg = 0 then MsgSip else MsgRtp) = pk_msg_type p"
    by (simp_all split: msg_type.split)
  have fam: "ip_family (fst (pk_src p)) mod 256 = ip_family (fst (pk_src p))"
    by (simp add: ip_family_def split: ip_addr.split)
  have same: "ip_family (fst (pk_src p)) = ip_family (fst (pk_dst p))" using assms by (simp add: wire_ok_def)
  have len: "length (pk_payload p) mod 256 ^ 4 = length (pk_payload p)" using assms by (simp add: wire_ok_def)
  have magic: "packet_magic mod 65536 = packet_magic" by (simp add: packet_magic_def)
  have meta: "\<forall>c. pk_call_id p = Some c \<longrightarrow> utf8_valid c \<and> length c + 8 < 2 ^ 32"
    using assms by (simp add: wire_ok_def)
  have dst: "read_ip (ip_family (fst (pk_src p))) (put_ip (fst (pk_dst p)) @ bs) f = f (fst (pk_dst p)) bs" for bs f
    using read_ip_put_ip [of "fst (pk_dst p)" bs f] same by simp
  have rec: "on_wire p = \<lparr>pk_msg_type = pk_msg_type p, pk_src = pk_src p, pk_dst = pk_dst p,
      pk_timestamp = pk_timestamp p, pk_call_id = pk_call_id (on_wire p), pk_leg = pk_leg (on_wire p),
      pk_payload = pk_payload p, pk_client_id = pk_client_id p\<rparr>"
    by (simp add: on_wire_def)
  show ?thesis
    unfolding parse_packet_def encode_packet_def
    using msg fam len unat_bound_bytes(1) [of "snd (pk_src p)"] unat_bound_bytes(1) [of "snd (pk_dst p)"]
      unat_bound_bytes(3) [of "pk_timestamp p"] unat_bound_bytes(2) [of "pk_client_id p"]
    by (subst rec) (simp add: magic dst read_put_metadata [OF meta])
qed

lemma parse_frames_encode:
  assumes "\<forall>p \<in> set ps. wire_ok p \<and> length (encode_packet p) < 2 ^ 32"
  shows "parse_frames i (length ps) (concat (map encode_frame ps) @ rest) = Inr (map on_wire ps, rest)"
  using assms
proof (induction ps arbitrary: i)
  case Nil
  show ?case by simp
next
  case (Cons p ps)
  then have ok: "parse_packet (encode_packet p) = Inr (on_wire p)"
    "length (encode_packet p) mod 256 ^ 4 = length (encode_packet p)"
    using parse_encode_packet [of p "[]"] by simp_all
  from Cons show ?case by (simp add: encode_frame_def ok)
qed

definition parse_frame :: "bytes \<Rightarrow> (packet \<times> bytes) option" where
  "parse_frame buf = (case parse_frames 0 1 buf of Inr ([p], rest) \<Rightarrow> Some (p, rest) | _ \<Rightarrow> None)"

interpretation frame_codec: codec encode_frame parse_frame
    "\<lambda>p. wire_ok p \<and> length (encode_packet p) < 2 ^ 32 \<and> on_wire p = p"
proof
  fix p rest
  assume "wire_ok p \<and> length (encode_packet p) < 2 ^ 32 \<and> on_wire p = p"
  with parse_frames_encode [of "[p]" 0 rest] show "parse_frame (encode_frame p @ rest) = Some (p, rest)"
    by (simp add: parse_frame_def)
qed

lemma parsed_families:
  assumes "parse_packet bs = Inr q"
  shows "ip_family (fst (pk_src q)) = ip_family (fst (pk_dst q))"
  using assms
  by (auto simp: parse_packet_def read_metadata_def read_be_def read_ip_def ip_family_def
      split: option.splits prod.splits if_splits)

text \<open>The wire format has one address family per packet, taken from the source: a packet between
  addresses of different families is sent without complaint, and the receiver never gets it back.\<close>

theorem mixed_family_lost:
  assumes "ip_family (fst (pk_src p)) \<noteq> ip_family (fst (pk_dst p))"
  shows "parse_packet (encode_packet p @ extra) \<noteq> Inr (on_wire p)"
proof
  assume "parse_packet (encode_packet p @ extra) = Inr (on_wire p)"
  from parsed_families [OF this] assms show False by (simp add: on_wire_def split: if_splits)
qed

lemma parse_datagram_packet:
  "parse_datagram (encode_packet p @ extra) = map_sum id (\<lambda>q. [q]) (parse_packet (encode_packet p @ extra))"
proof -
  have "be_value (take 2 (encode_packet p @ extra)) = packet_magic" "2 \<le> length (encode_packet p)"
    by (simp_all add: encode_packet_def be_value_be_bytes packet_magic_def)
  then show ?thesis by (simp add: parse_datagram_def)
qed


definition demo_packet :: packet where
  "demo_packet = \<lparr>pk_msg_type = MsgRtp, pk_src = (IpV4 7, 5060), pk_dst = (IpV4 8, 4000), pk_timestamp = 9,
     pk_call_id = Some [97, 98], pk_leg = None, pk_payload = [1, 2, 3], pk_client_id = 4\<rparr>"

definition demo_mixed :: packet where
  "demo_mixed = demo_packet\<lparr>pk_dst := (IpV6 8, 4000)\<rparr>"


end
