(* ===== verification/Acl_Rules.thy ===== *)
theory Acl_Rules
  imports Net_Addr Rust_Time Route_Functions
begin

text \<open>
  The access-control module, \<^verbatim>\<open>src/src/proxy/acl.rs\<close>: networks and rules.
\<close>

unbundle bit_operations_syntax

section \<open>Networks\<close>

record ip_network =
  net_network :: ip_addr
  net_prefix_len :: u8

text \<open>\<^verbatim>\<open>uN::MAX << (N - bits)\<close>, and 0 for no bits.\<close>

definition prefix_mask :: "nat \<Rightarrow> 'a::len word" where
  "prefix_mask bits = (if bits = 0 then 0 else push_bit (LENGTH('a) - bits) (- 1))"

text \<open>\<^verbatim>\<open>Ipv6Addr::segments\<close> and the conversion back.\<close>

definition segments :: "u128 \<Rightarrow> u16 list" where
  "segments v = map (\<lambda>i. word_of_nat (unat v div 2 ^ (16 * (7 - i)) mod 65536)) [0..<8]"

definition of_segments :: "u16 list \<Rightarrow> u128" where
  "of_segments ss = word_of_nat (groups_value (map unat ss))"

text \<open>The loop over the segments; the flag of the source is the remaining prefix.\<close>

fun segments_match :: "(u16 \<times> u16) list \<Rightarrow> nat \<Rightarrow> bool" where
  "segments_match [] remaining_bits = True"
| "segments_match ((a, b) # rest) remaining_bits =
     (if remaining_bits = 0 then True
      else let bits = min remaining_bits 16; mask = (if bits = 16 then 0xFFFF else prefix_mask bits)
           in if a AND mask \<noteq> b AND mask then False
              else if 16 \<le> remaining_bits then segments_match rest (remaining_bits - 16)
              else True)"

text \<open>\<^verbatim>\<open>IpNetwork::contains\<close>. For an IPv4 network with a prefix above 32 the shift amount
  \<^verbatim>\<open>32 - prefix_len\<close> underflows: \<open>None\<close>.\<close>

definition network_contains :: "ip_network \<Rightarrow> ip_addr \<Rightarrow> bool option" where
  "network_contains n ip =
     (case (net_network n, ip) of
        (IpV4 network, IpV4 v) \<Rightarrow>
          if 32 < unat (net_prefix_len n) then None
          else let mask = prefix_mask (unat (net_prefix_len n))
               in Some (network AND mask = v AND mask)
      | (IpV6 network, IpV6 v) \<Rightarrow>
          Some (segments_match (zip (segments network) (segments v)) (unat (net_prefix_len n)))
      | _ \<Rightarrow> Some False)"

datatype network_error = BadAddress | BadNetwork | PrefixTooLong

text \<open>The network address of an IPv6 address: each segment cut to its share of the prefix.\<close>

definition normal_v6 :: "u128 \<Rightarrow> nat \<Rightarrow> u128" where
  "normal_v6 v p = of_segments (map (\<lambda>i.
     if 16 * i < p
     then let bits = min (p - 16 * i) 16
          in segments v ! i AND (if bits = 16 then 0xFFFF else prefix_mask bits)
     else 0) [0..<8])"

definition parse_network :: "string \<Rightarrow> network_error + ip_addr \<times> u8" where
  "parse_network addr =
     (if \<not> str_contains CHR ''/'' addr
      then (case parse_ip_addr addr of
              None \<Rightarrow> Inl BadAddress
            | Some ip \<Rightarrow> Inr (ip, case ip of IpV4 _ \<Rightarrow> 32 | IpV6 _ \<Rightarrow> 128))
      else (case split_on CHR ''/'' addr of
              [text, len] \<Rightarrow>
                (case parse_ip_addr text of
                   None \<Rightarrow> Inl BadAddress
                 | Some ip \<Rightarrow>
                     (case parse_uint 256 len of
                        None \<Rightarrow> Inl BadNetwork
                      | Some prefix_len \<Rightarrow>
                          (case ip of
                             IpV4 v \<Rightarrow>
                               if 32 < prefix_len then Inl PrefixTooLong
                               else Inr (IpV4 (v AND prefix_mask prefix_len), word_of_nat prefix_len)
                           | IpV6 v \<Rightarrow>
                               if 128 < prefix_len then Inl PrefixTooLong
                               else Inr (IpV6 (normal_v6 v prefix_len), word_of_nat prefix_len))))
            | _ \<Rightarrow> Inl BadNetwork))"

section \<open>Rules\<close>

datatype acl_action = AclAllow | AclDeny

record acl_rule =
  acl_action_of :: acl_action
  acl_network :: "ip_network option"

fun split_white :: "string \<Rightarrow> string \<Rightarrow> string list" where
  "split_white cur [] = (if cur = [] then [] else [rev cur])"
| "split_white cur (c # s) =
     (if is_white c then (if cur = [] then [] else [rev cur]) @ split_white [] s
      else split_white (c # cur) s)"

definition split_whitespace :: "string \<Rightarrow> string list" where
  "split_whitespace s = split_white [] s"

definition acl_rule_new :: "string \<Rightarrow> acl_rule option" where
  "acl_rule_new rule =
     (case split_whitespace rule of
        word # target # _ \<Rightarrow>
          (case (if to_lowercase word = ''allow'' then Some AclAllow
                 else if to_lowercase word = ''deny'' then Some AclDeny else None) of
             None \<Rightarrow> None
           | Some action \<Rightarrow>
               if target = ''all'' then Some \<lparr>acl_action_of = action, acl_network = None\<rparr>
               else (case parse_network target of
                       Inr (network, prefix_len) \<Rightarrow>
                         Some \<lparr>acl_action_of = action,
                           acl_network = Some \<lparr>net_network = network, net_prefix_len = prefix_len\<rparr>\<rparr>
                     | Inl _ \<Rightarrow> None))
      | _ \<Rightarrow> None)"

definition parse_rules :: "string list \<Rightarrow> acl_rule list" where
  "parse_rules rules = List.map_filter acl_rule_new rules"

definition resolve_base_rules :: "string list option \<Rightarrow> string list" where
  "resolve_base_rules rules = (case rules of Some r \<Rightarrow> r | None \<Rightarrow> [''allow all'', ''deny all''])"

text \<open>The loop of \<^verbatim>\<open>is_ip_allowed\<close>; \<open>None\<close> is the panic of \<open>network_contains\<close>.\<close>

fun rules_allow :: "acl_rule list \<Rightarrow> ip_addr \<Rightarrow> bool option" where
  "rules_allow [] addr = Some False"
| "rules_allow (rule # rules) addr =
     (case acl_network rule of
        Some network \<Rightarrow>
          (case network_contains network addr of
             None \<Rightarrow> None
           | Some True \<Rightarrow> Some (acl_action_of rule = AclAllow)
           | Some False \<Rightarrow> rules_allow rules addr)
      | None \<Rightarrow> Some (acl_action_of rule = AclAllow))"

definition is_ip_allowed :: "string list \<Rightarrow> ip_addr \<Rightarrow> bool option" where
  "is_ip_allowed texts addr = rules_allow (parse_rules texts) addr"

section \<open>Networks as address ranges\<close>

lemma prefix_mask_0 [simp]: "prefix_mask 0 = 0"
  by (simp add: prefix_mask_def)

lemma unat_drop_bit: "unat (drop_bit k w) = unat (w :: 'a::len word) div 2 ^ k"
proof -
  have "unat (drop_bit k w) = drop_bit k (unat w)" by (simp add: unsigned_drop_bit_eq take_bit_nat_eq_self)
  then show ?thesis by (simp only: drop_bit_eq_div)
qed

lemma prefix_mask_eq_iff:
  fixes a b :: "'a::len word"
  assumes "bits \<le> LENGTH('a)"
  shows "a AND prefix_mask bits = b AND prefix_mask bits \<longleftrightarrow>
    unat a div 2 ^ (LENGTH('a) - bits) = unat b div 2 ^ (LENGTH('a) - bits)"
proof (cases "bits = 0")
  case True
  have "unat a div 2 ^ LENGTH('a) = 0" "unat b div 2 ^ LENGTH('a) = 0"
    using unat_lt_2p [of a] unat_lt_2p [of b] by simp_all
  with True show ?thesis by (simp add: prefix_mask_def)
next
  case False
  let ?k = "LENGTH('a) - bits"
  have m: "w AND prefix_mask bits = push_bit ?k (drop_bit ?k w)" for w :: "'a word"
    using False by (intro bit_word_eqI) (auto simp: prefix_mask_def bit_simps)
  have d: "drop_bit ?k (push_bit ?k (drop_bit ?k w)) = drop_bit ?k w" for w :: "'a word"
    by (intro bit_word_eqI) (auto simp: bit_simps dest: bit_imp_le_length)
  have "a AND prefix_mask bits = b AND prefix_mask bits \<longleftrightarrow> drop_bit ?k a = drop_bit ?k b"
    unfolding m by (metis d)
  also have "\<dots> \<longleftrightarrow> unat (drop_bit ?k a) = unat (drop_bit ?k b)" by (simp add: word_unat_eq_iff)
  finally show ?thesis by (simp only: unat_drop_bit)
qed


abbreviation segments_value :: "u16 list \<Rightarrow> nat" where
  "segments_value ss \<equiv> groups_value (map unat ss)"

lemma foldl_groups: "foldl (\<lambda>a g. 65536 * a + g) x gs = x * 65536 ^ length gs + groups_value gs"
proof (induction gs arbitrary: x)
  case Nil
  show ?case by (simp add: groups_value_def)
next
  case (Cons g gs)
  from Cons [of "65536 * x + g"] Cons [of g] show ?case
    by (simp add: groups_value_def algebra_simps)
qed

lemma groups_value_simps [simp]:
  "groups_value [] = 0" "groups_value (g # gs) = g * 65536 ^ length gs + groups_value gs"
  using foldl_groups [of g gs] by (simp_all add: groups_value_def)

lemma segments_value_less: "segments_value ss < 65536 ^ length ss"
proof (induction ss)
  case Nil
  show ?case by simp
next
  case (Cons s ss)
  have "unat s \<le> 65535" using unat_lt_2p [of s] by simp
  then have "unat s * 65536 ^ length ss \<le> 65535 * 65536 ^ length ss" by (rule mult_le_mono1)
  with Cons have "unat s * 65536 ^ length ss + segments_value ss < 65535 * 65536 ^ length ss + 65536 ^ length ss"
    by (rule add_le_less_mono [rotated])
  then show ?case by simp
qed

lemma digits_base_mod:
  "groups_value (map (\<lambda>i. n div 65536 ^ (k - Suc i) mod 65536) [0..<k]) = n mod 65536 ^ k"
proof (induction k)
  case 0
  show ?case by simp
next
  case (Suc k)
  have "map (\<lambda>i. n div 65536 ^ (Suc k - Suc i) mod 65536) [0..<Suc k]
      = (n div 65536 ^ k mod 65536) # map (\<lambda>i. n div 65536 ^ (k - Suc i) mod 65536) [0..<k]"
    by (simp add: upt_conv_Cons map_Suc_upt [symmetric] comp_def del: upt_Suc)
  with Suc show ?case
    by (simp add: mod_mult2_eq mult.commute [of 65536] del: upt_Suc)
qed

lemma length_segments [simp]: "length (segments v) = 8"
  by (simp add: segments_def)

lemma segments_value_segments [simp]: "segments_value (segments v) = unat v"
proof -
  have "map unat (segments v) = map (\<lambda>i. unat v div 65536 ^ (8 - Suc i) mod 65536) [0..<8]"
    by (simp add: segments_def unat_of_nat power_mult comp_def)
  with digits_base_mod [of "unat v" 8] unat_lt_2p [of v] show ?thesis by simp
qed

lemma segment_mask: "(if bits = 16 then 0xFFFF else prefix_mask bits) = (prefix_mask bits :: u16)"
  by (simp add: prefix_mask_def)

lemma segments_match_0 [simp]: "segments_match l 0 \<longleftrightarrow> True"
  by (cases l) auto

text \<open>Comparing the leading bits of two numbers digit by digit.\<close>

lemma leading_bits_step:
  fixes a b v w :: nat
  assumes "v < 2 ^ m" "w < 2 ^ m" "p \<le> m + 16"
  shows "(a * 2 ^ m + v) div 2 ^ (m + 16 - p) = (b * 2 ^ m + w) div 2 ^ (m + 16 - p) \<longleftrightarrow>
    (if p \<le> 16 then a div 2 ^ (16 - p) = b div 2 ^ (16 - p)
     else a = b \<and> v div 2 ^ (m - (p - 16)) = w div 2 ^ (m - (p - 16)))"
proof (cases "p \<le> 16")
  case True
  then have "(2 :: nat) ^ (m + 16 - p) = 2 ^ m * 2 ^ (16 - p)" by (simp flip: power_add)
  with True assms show ?thesis by (simp add: div_mult2_eq)
next
  case False
  define q e where "q = p - 16" and "e = m - q"
  have m: "m = e + q" "m + 16 - p = e" using False assms(3) by (simp_all add: q_def e_def)
  have high: "(x * 2 ^ m + z) div 2 ^ e = x * 2 ^ q + z div 2 ^ e" for x z :: nat
  proof -
    have "x * 2 ^ m = (x * 2 ^ q) * 2 ^ e" by (simp add: m(1) power_add)
    then have "(x * 2 ^ m + z) div 2 ^ e = ((x * 2 ^ q) * 2 ^ e + z) div 2 ^ e" by (simp only:)
    then show ?thesis by simp
  qed
  have low: "z div 2 ^ e < 2 ^ q" if "z < 2 ^ m" for z :: nat
    using that by (simp add: m(1) power_add less_mult_imp_div_less mult.commute)
  have digits: "x = y \<and> r = t" if "x * 2 ^ q + r = y * 2 ^ q + t" "r < 2 ^ q" "t < 2 ^ q" for x y r t :: nat
  proof -
    have "(x * 2 ^ q + r) div 2 ^ q = x" "(y * 2 ^ q + t) div 2 ^ q = y" using that(2,3) by simp_all
    with that(1) show ?thesis by auto
  qed
  show ?thesis
    using False digits [of a "v div 2 ^ e" b "w div 2 ^ e"] low [OF assms(1)] low [OF assms(2)]
    unfolding m(2) high by (auto simp: q_def [symmetric] e_def [symmetric])
qed

lemma segments_match_value:
  assumes "length as = n" "length bs = n" "p \<le> 16 * n"
  shows "segments_match (zip as bs) p \<longleftrightarrow>
    segments_value as div 2 ^ (16 * n - p) = segments_value bs div 2 ^ (16 * n - p)"
  using assms
proof (induction n arbitrary: as bs p)
  case 0
  then show ?case by simp
next
  case (Suc n)
  then obtain a as' b bs' where l: "as = a # as'" "bs = b # bs'" "length as' = n" "length bs' = n"
    by (metis length_Suc_conv)
  have pow: "(65536 :: nat) ^ n = 2 ^ (16 * n)" by (simp add: power_mult)
  have less: "segments_value as' < 2 ^ (16 * n)" "segments_value bs' < 2 ^ (16 * n)"
    using segments_value_less [of as'] segments_value_less [of bs'] l(3,4) pow by simp_all
  have "segments_value as div 2 ^ (16 * Suc n - p) = segments_value bs div 2 ^ (16 * Suc n - p) \<longleftrightarrow>
      (if p \<le> 16 then unat a div 2 ^ (16 - p) = unat b div 2 ^ (16 - p)
       else a = b \<and> segments_value as' div 2 ^ (16 * n - (p - 16)) = segments_value bs' div 2 ^ (16 * n - (p - 16)))"
    using leading_bits_step [OF less, of p "unat a" "unat b"] Suc.prems(3) l
    by (simp add: pow word_unat_eq_iff add.commute [of 16])
  moreover have "a AND prefix_mask (min p 16) = b AND prefix_mask (min p 16) \<longleftrightarrow>
      (if p \<le> 16 then unat a div 2 ^ (16 - p) = unat b div 2 ^ (16 - p) else a = b)"
    using prefix_mask_eq_iff [of "min p 16" a b] by (simp add: min_def flip: word_unat_eq_iff)
  moreover have "segments_match (zip as' bs') (p - 16) \<longleftrightarrow>
      segments_value as' div 2 ^ (16 * n - (p - 16)) = segments_value bs' div 2 ^ (16 * n - (p - 16))"
    using Suc.IH [OF l(3,4), of "p - 16"] Suc.prems(3) by simp
  ultimately show ?case
    by (cases "p = 0") (auto simp: l segment_mask Let_def)
qed

lemma segments_match_nth:
  "segments_match l p \<longleftrightarrow> (\<forall>i < length l. 16 * i < p \<longrightarrow>
     fst (l ! i) AND prefix_mask (min (p - 16 * i) 16) = snd (l ! i) AND prefix_mask (min (p - 16 * i) 16))"
proof (induction l arbitrary: p)
  case Nil
  show ?case by simp
next
  case (Cons x rest)
  obtain a b where x: "x = (a, b)" by (cases x)
  have all: "(\<forall>i < Suc n. P i) \<longleftrightarrow> P 0 \<and> (\<forall>i < n. P (Suc i))" for n and P :: "nat \<Rightarrow> bool"
    by (metis Suc_less_eq less_Suc_eq_0_disj)
  show ?case
  proof (cases "16 \<le> p")
    case True
    have "16 * Suc i < p \<longleftrightarrow> 16 * i < p - 16" "p - 16 * Suc i = p - 16 - 16 * i" for i using True by auto
    with True Cons [of "p - 16"] show ?thesis by (simp add: x segment_mask Let_def all del: mult_Suc_right)
  next
    case False
    then show ?thesis by (simp add: x segment_mask Let_def all)
  qed
qed

text \<open>What a network means: the addresses of its family with the same leading bits.\<close>

definition same_prefix :: "ip_network \<Rightarrow> ip_addr \<Rightarrow> bool" where
  "same_prefix n ip \<longleftrightarrow>
     (case (net_network n, ip) of
        (IpV4 a, IpV4 v) \<Rightarrow>
          unat a div 2 ^ (32 - unat (net_prefix_len n)) = unat v div 2 ^ (32 - unat (net_prefix_len n))
      | (IpV6 a, IpV6 v) \<Rightarrow>
          unat a div 2 ^ (128 - unat (net_prefix_len n)) = unat v div 2 ^ (128 - unat (net_prefix_len n))
      | _ \<Rightarrow> False)"

definition network_ok :: "ip_network \<Rightarrow> bool" where
  "network_ok n \<longleftrightarrow> unat (net_prefix_len n) \<le> (case net_network n of IpV4 _ \<Rightarrow> 32 | IpV6 _ \<Rightarrow> 128)"

lemma network_contains_prefix:
  assumes "network_ok n"
  shows "network_contains n ip = Some (same_prefix n ip)"
proof (cases "net_network n"; cases ip)
  fix a v
  assume "net_network n = IpV4 a" "ip = IpV4 v"
  with assms show ?thesis
    using prefix_mask_eq_iff [of "unat (net_prefix_len n)" a v]
    by (simp add: network_contains_def same_prefix_def network_ok_def Let_def)
next
  fix a v
  assume "net_network n = IpV6 a" "ip = IpV6 v"
  with assms show ?thesis
    using segments_match_value [of "segments a" 8 "segments v" "unat (net_prefix_len n)"]
    by (simp add: network_contains_def same_prefix_def network_ok_def)
qed (simp_all add: network_contains_def same_prefix_def)

lemma unat_of_segments: "length ss = 8 \<Longrightarrow> unat (of_segments ss) = segments_value ss"
  using segments_value_less [of ss] by (simp add: of_segments_def unat_of_nat)

lemma normal_v6_prefix:
  assumes "p \<le> 128"
  shows "unat (normal_v6 v p) div 2 ^ (128 - p) = unat v div 2 ^ (128 - p)"
proof -
  define ss where "ss = map (\<lambda>i.
     if 16 * i < p
     then let bits = min (p - 16 * i) 16
          in segments v ! i AND (if bits = 16 then 0xFFFF else prefix_mask bits)
     else 0) [0..<8]"
  have "segments_match (zip ss (segments v)) p"
    unfolding segments_match_nth by (auto simp: ss_def Let_def segment_mask and.assoc)
  with segments_match_value [of ss 8 "segments v" p] assms show ?thesis
    by (simp add: normal_v6_def unat_of_segments ss_def [symmetric]) (simp add: ss_def unat_of_segments)
qed

lemma normal_v4_prefix:
  "p \<le> 32 \<Longrightarrow> unat (v AND prefix_mask p) div 2 ^ (32 - p) = unat (v :: u32) div 2 ^ (32 - p)"
  using prefix_mask_eq_iff [of p "v AND prefix_mask p" v] by (simp add: and.assoc)

text \<open>A text that parses names a network with a prefix its family admits.\<close>

lemma parse_network_ok:
  assumes "parse_network text = Inr (ip, p)"
  shows "network_ok \<lparr>net_network = ip, net_prefix_len = p\<rparr>"
  using assms
  by (auto simp: parse_network_def network_ok_def unat_of_nat split: option.splits if_splits list.splits ip_addr.splits)

lemma acl_rule_new_ok:
  assumes "acl_rule_new text = Some rule" "acl_network rule = Some n"
  shows "network_ok n"
  using assms parse_network_ok by (auto simp: acl_rule_new_def split: list.splits option.splits if_splits sum.splits)

section \<open>Decisions\<close>

definition rule_covers :: "ip_addr \<Rightarrow> acl_rule \<Rightarrow> bool" where
  "rule_covers addr rule \<longleftrightarrow> (case acl_network rule of None \<Rightarrow> True | Some n \<Rightarrow> same_prefix n addr)"

lemma parse_rules_ok: "rule \<in> set (parse_rules texts) \<Longrightarrow> acl_network rule = Some n \<Longrightarrow> network_ok n"
  by (auto simp: parse_rules_def map_filter_def dest: acl_rule_new_ok)

lemma rules_allow_find:
  assumes "\<And>rule n. rule \<in> set rules \<Longrightarrow> acl_network rule = Some n \<Longrightarrow> network_ok n"
  shows "rules_allow rules addr =
    Some (case List.find (rule_covers addr) rules of None \<Rightarrow> False | Some r \<Rightarrow> acl_action_of r = AclAllow)"
  using assms
proof (induction rules)
  case Nil
  show ?case by simp
next
  case (Cons rule rules)
  have "\<And>n. acl_network rule = Some n \<Longrightarrow> network_contains n addr = Some (same_prefix n addr)"
    using Cons.prems [of rule] network_contains_prefix by simp
  moreover have "rules_allow rules addr = Some (case List.find (rule_covers addr) rules of
      None \<Rightarrow> False | Some r \<Rightarrow> acl_action_of r = AclAllow)"
    by (rule Cons.IH) (use Cons.prems in auto)
  ultimately show ?case
    by (cases "acl_network rule") (simp_all add: rule_covers_def [of addr rule] split: bool.split)
qed

text \<open>C24. The rules decide as an ordered list of address ranges: the first rule whose network shares
  its leading bits with the address (or that names all addresses) decides, an address no rule covers
  is denied, and a rule list given as text never makes the decision panic.\<close>

theorem acl_first_match:
  "is_ip_allowed texts addr =
     Some (case List.find (rule_covers addr) (parse_rules texts) of
             None \<Rightarrow> False | Some r \<Rightarrow> acl_action_of r = AclAllow)"
  unfolding is_ip_allowed_def by (rule rules_allow_find) (rule parse_rules_ok)

lemma split_on_slash:
  assumes "CHR ''/'' \<notin> set a" "CHR ''/'' \<notin> set b"
  shows "split_on CHR ''/'' (a @ CHR ''/'' # b) = [a, b]"
  using assms split_on_append [of "CHR ''/''" a b] split_on_no [of "CHR ''/''" b] by simp

text \<open>The range a CIDR text names: \<^verbatim>\<open>address/length\<close> covers exactly the addresses of the same
  family that agree with the written address on the first \<open>length\<close> bits, whatever its other bits.\<close>

theorem cidr_text_range:
  assumes "parse_ip_addr a = Some ip" "CHR ''/'' \<notin> set a"
    and "unat len \<le> (case ip of IpV4 _ \<Rightarrow> 32 | IpV6 _ \<Rightarrow> 128)"
  shows "\<exists>base. parse_network (a @ ''/'' @ nat_to_string (unat len)) = Inr (base, len) \<and>
    (\<forall>x. network_contains \<lparr>net_network = base, net_prefix_len = len\<rparr> x
      = Some (same_prefix \<lparr>net_network = ip, net_prefix_len = len\<rparr> x))"
proof -
  have len: "unat len < 256" using unat_lt_2p [of len] by simp
  have "CHR ''/'' \<notin> set (nat_to_string (unat len))"
    using nat_to_string_digits [of "unat len"] by (auto simp: is_ascii_digit_def code_def)
  then have split: "split_on CHR ''/'' (a @ CHR ''/'' # nat_to_string (unat len)) = [a, nat_to_string (unat len)]"
    using assms(2) by (rule split_on_slash [rotated])
  show ?thesis
  proof (cases ip)
    case (IpV4 v)
    let ?n = "\<lparr>net_network = IpV4 (v AND prefix_mask (unat len)), net_prefix_len = len\<rparr>"
    have "network_contains ?n x = Some (same_prefix \<lparr>net_network = ip, net_prefix_len = len\<rparr> x)" for x
      using assms(3) IpV4 normal_v4_prefix [of "unat len" v]
      by (subst network_contains_prefix) (auto simp: network_ok_def same_prefix_def split: ip_addr.split)
    with assms IpV4 len split show ?thesis
      by (simp add: parse_network_def str_contains_def parse_uint_nat_to_string)
  next
    case (IpV6 v)
    let ?n = "\<lparr>net_network = IpV6 (normal_v6 v (unat len)), net_prefix_len = len\<rparr>"
    have "network_contains ?n x = Some (same_prefix \<lparr>net_network = ip, net_prefix_len = len\<rparr> x)" for x
      using assms(3) IpV6 normal_v6_prefix [of "unat len" v]
      by (subst network_contains_prefix) (auto simp: network_ok_def same_prefix_def split: ip_addr.split)
    with assms IpV6 len split show ?thesis
      by (simp add: parse_network_def str_contains_def parse_uint_nat_to_string)
  qed
qed

lemma octets_four: "read_octets i 4 acc s = read_octets i (Suc (Suc (Suc (Suc 0)))) acc s"
  by (simp add: eval_nat_numeral)

end
