(* ===== verification/Acl_Module.thy ===== *)
theory Acl_Module
  imports Acl_Rules
begin

text \<open>
  The access-control module at work: the User-Agent lists, the per-address rate limit, the source
  address behind trusted proxies, the checks of a transaction and the loop of the server that runs
  the modules, from \<^verbatim>\<open>src/src/proxy/acl.rs\<close>, \<^verbatim>\<open>src/src/proxy/routing/mod.rs\<close>,
  \<^verbatim>\<open>src/src/proxy/data.rs\<close> and \<^verbatim>\<open>src/src/proxy/server.rs\<close>. Parsed headers, the prefix trie and the
  \<^verbatim>\<open>ipnet\<close> networks are parameters in \<open>acl_env\<close>.
\<close>

section \<open>State and environment\<close>

record acl_config =
  ac_ua_white_list :: "string list option"
  ac_ua_black_list :: "string list option"
  ac_ua_block_scanners :: bool
  ac_dos_enabled :: bool
  ac_dos_max_cps_per_ip :: u32
  ac_dos_max_concurrent_per_ip :: u32
  ac_dos_scan_probe_threshold :: u32
  ac_dos_scan_block_duration_secs :: u64
  ac_trusted_proxies :: "string list"
  ac_uri_max_length :: nat
  ac_uri_reject_malformed :: bool

record dos_per_ip_data =
  dos_recent :: "instant list"
  dos_concurrent :: nat
  dos_blocked_until :: "instant option"

type_synonym dos_data = "(ip_addr, dos_per_ip_data) hmap"

datatype spam_result = Nice | Spam | IpBlacklist | UaBlacklist

record trunk_context =
  tx_trunk_id :: "int option"
  tx_trunk_name :: string

record transaction_cookie =
  ck_spam_result :: spam_result
  ck_trunk :: "trunk_context option"

record transaction =
  tx_original :: sip_request
  tx_remote :: "sip_addr option"
  tx_last_response :: "u16 option"

datatype ua_block_reason = Blacklisted string | Scanner string | NotWhitelisted

fun ua_reason_kind :: "ua_block_reason \<Rightarrow> string" where
  "ua_reason_kind (Blacklisted _) = ''ua_blacklist''"
| "ua_reason_kind (Scanner _) = ''ua_scanner''"
| "ua_reason_kind NotWhitelisted = ''ua_not_whitelisted''"

fun ua_reason_matched :: "ua_block_reason \<Rightarrow> string" where
  "ua_reason_matched (Blacklisted p) = p"
| "ua_reason_matched (Scanner p) = p"
| "ua_reason_matched NotWhitelisted = ''not in ua_white_list''"

datatype dos_error = DosBlocked instant | DosCps | DosConcurrent | DosScan
datatype from_error = FromMissing | FromUriMalformed
datatype uri_error = MalformedFrom | FromTooLong | MalformedFromUri

datatype acl_report =
    ReportUa string string string
  | ReportMissingUa
  | ReportUri uri_error
  | ReportDos ip_addr dos_error
  | ReportIp ip_addr

text \<open>The libraries: the typed headers, \<^verbatim>\<open>Host\<close> to \<^verbatim>\<open>IpAddr\<close>, the \<^verbatim>\<open>received\<close> and \<^verbatim>\<open>sent-by\<close> addresses of
  a \<^verbatim>\<open>Via\<close>, \<^verbatim>\<open>ipnet\<close> and the values of the prefix trie that cover an address, shortest prefix first.\<close>

record acl_env =
  av_config :: acl_config
  av_rules :: "string list"
  av_sip :: sip_api
  av_from :: "sip_request \<Rightarrow> from_error + sip_uri"
  av_to :: "sip_request \<Rightarrow> sip_uri option"
  av_host_ip :: "string \<Rightarrow> ip_addr option"
  av_via :: "string \<Rightarrow> (ip_addr option \<times> ip_addr option) option"
  av_parse_net :: "string \<Rightarrow> (ip_addr \<Rightarrow> bool) option"
  av_cover_values :: "ip_addr \<Rightarrow> string list list"
  av_trunks :: "(string, trunk_config) hmap"
  av_regex :: regex_api

section \<open>User agents\<close>

definition common_scanner_ua_patterns :: "string list" where
  "common_scanner_ua_patterns =
     [''friendly-scanner'', ''sipvicious'', ''sipcli'', ''sipsak'', ''pplsip'', ''vaxsipuseragent'',
      ''ozeki'', ''sip-test'', ''rapid7'', ''nexpose'', ''masscan'', ''zmap'', ''nmap'',
      ''unicornscan'', ''sundayddr'']"

fun str_contains_str :: "string \<Rightarrow> string \<Rightarrow> bool" where
  "str_contains_str p [] \<longleftrightarrow> p = []"
| "str_contains_str p (c # s) \<longleftrightarrow> starts_with (c # s) p \<or> str_contains_str p s"

definition live_ua_lists :: "acl_config \<Rightarrow> string list \<times> string list" where
  "live_ua_lists cfg =
     (case ac_ua_white_list cfg of None \<Rightarrow> [] | Some l \<Rightarrow> l,
      case ac_ua_black_list cfg of None \<Rightarrow> [] | Some l \<Rightarrow> l)"

definition match_ua :: "acl_config \<Rightarrow> string \<Rightarrow> ua_block_reason option" where
  "match_ua cfg ua =
     (let (white, black) = live_ua_lists cfg;
          ua_lower = to_lowercase ua;
          hits = (\<lambda>p. str_contains_str (to_lowercase p) ua_lower)
      in case List.find hits black of
           Some pattern \<Rightarrow> Some (Blacklisted pattern)
         | None \<Rightarrow>
             if white \<noteq> [] then (if \<exists>p \<in> set white. hits p then None else Some NotWhitelisted)
             else if \<not> ac_ua_block_scanners cfg then None
             else map_option Scanner (List.find (\<lambda>p. str_contains_str p ua_lower) common_scanner_ua_patterns))"

definition is_ua_allowed :: "acl_config \<Rightarrow> string \<Rightarrow> bool" where
  "is_ua_allowed cfg ua \<longleftrightarrow> match_ua cfg ua = None"

section \<open>Source address\<close>

text \<open>\<^verbatim>\<open>parse_trusted_proxy\<close>: a network, or a single address as a network of its own.\<close>

definition parse_trusted_proxy :: "acl_env \<Rightarrow> string \<Rightarrow> (ip_addr \<Rightarrow> bool) option" where
  "parse_trusted_proxy env s =
     (case av_parse_net env (trim s) of
        Some net \<Rightarrow> Some net
      | None \<Rightarrow> map_option (\<lambda>ip x. x = ip) (parse_ip_addr (trim s)))"

definition ip_matches_trusted :: "ip_addr \<Rightarrow> (ip_addr \<Rightarrow> bool) list \<Rightarrow> bool" where
  "ip_matches_trusted ip trusted \<longleftrightarrow> (\<exists>net \<in> set trusted. net ip)"

definition source_addr_ip :: "acl_env \<Rightarrow> sip_addr \<Rightarrow> ip_addr option" where
  "source_addr_ip env addr = av_host_ip env (hp_host (sad_addr addr))"

fun via_value_of :: "sip_header \<Rightarrow> string option" where
  "via_value_of (HStandard name v) = (if name = ''Via'' then Some v else None)"
| "via_value_of _ = None"

definition extract_trusted_ip :: "acl_env \<Rightarrow> transaction \<Rightarrow> (ip_addr \<Rightarrow> bool) list \<Rightarrow> ip_addr option" where
  "extract_trusted_ip env tx trusted_proxies =
     (case Option.bind (tx_remote tx) (source_addr_ip env) of
        None \<Rightarrow> None
      | Some socket_ip \<Rightarrow>
          if trusted_proxies = [] \<or> \<not> ip_matches_trusted socket_ip trusted_proxies then Some socket_ip
          else
            (case concat (map split_via_values (List.map_filter via_value_of (rq_headers (tx_original tx)))) of
               _ # entry # _ \<Rightarrow>
                 (case av_via env entry of
                    None \<Rightarrow> Some socket_ip
                  | Some (received_ip, sent_by_ip) \<Rightarrow>
                      (case or_else received_ip sent_by_ip of
                         None \<Rightarrow> Some socket_ip
                       | Some source_ip \<Rightarrow> Some source_ip))
             | _ \<Rightarrow> Some socket_ip))"

definition extract_ip :: "acl_env \<Rightarrow> transaction \<Rightarrow> ip_addr option" where
  "extract_ip env tx =
     extract_trusted_ip env tx
       (List.map_filter (parse_trusted_proxy env) (ac_trusted_proxies (av_config env)))"

section \<open>Rate limit per address\<close>

definition dos_new :: dos_per_ip_data where
  "dos_new = \<lparr>dos_recent = [], dos_concurrent = 0, dos_blocked_until = None\<rparr>"

text \<open>The body of \<^verbatim>\<open>dos_check_and_track\<close> on the entry of the address. The clock is read once; an instant
  is after \<^verbatim>\<open>now - 1s\<close> when \<open>now\<close> is less than a second past it.\<close>

definition dos_block :: "acl_config \<Rightarrow> instant \<Rightarrow> dos_error \<Rightarrow> dos_per_ip_data \<Rightarrow>
    (time_panic + dos_error option) \<times> dos_per_ip_data" where
  "dos_block cfg now err e =
     (case instant_add now (from_secs (unat (ac_dos_scan_block_duration_secs cfg))) of
        Inl p \<Rightarrow> (Inl p, e)
      | Inr until \<Rightarrow> (Inr (Some err), e\<lparr>dos_blocked_until := Some until\<rparr>))"

definition dos_count :: "acl_config \<Rightarrow> instant \<Rightarrow> dos_per_ip_data \<Rightarrow>
    (time_panic + dos_error option) \<times> dos_per_ip_data" where
  "dos_count cfg now entry =
     (let e = entry\<lparr>dos_recent := filter (\<lambda>t. now < t + ns_per_sec) (dos_recent entry)\<rparr>
      in if unat (ac_dos_max_cps_per_ip cfg) \<le> length (dos_recent e) then dos_block cfg now DosCps e
         else if unat (ac_dos_max_concurrent_per_ip cfg) \<le> dos_concurrent e
         then (Inr (Some DosConcurrent), e)
         else if unat (ac_dos_scan_probe_threshold cfg) \<le> length (dos_recent e) then dos_block cfg now DosScan e
         else (Inr None, e\<lparr>dos_recent := dos_recent e @ [now], dos_concurrent := Suc (dos_concurrent e)\<rparr>))"

definition dos_check :: "acl_config \<Rightarrow> instant \<Rightarrow> dos_per_ip_data \<Rightarrow>
    (time_panic + dos_error option) \<times> dos_per_ip_data" where
  "dos_check cfg now e =
     (case dos_blocked_until e of
        Some until \<Rightarrow>
          if now < until then (Inr (Some (DosBlocked until)), e) else dos_count cfg now dos_new
      | None \<Rightarrow> dos_count cfg now e)"

definition dos_check_and_track :: "acl_config \<Rightarrow> instant \<Rightarrow> ip_addr \<Rightarrow> dos_data \<Rightarrow>
    (time_panic + dos_error option) \<times> dos_data" where
  "dos_check_and_track cfg now ip data =
     (case dos_check cfg now (case hm_get data ip of Some e \<Rightarrow> e | None \<Rightarrow> dos_new) of
        (r, e) \<Rightarrow> (r, hm_insert ip e data))"

definition dos_release :: "ip_addr \<Rightarrow> dos_data \<Rightarrow> dos_data" where
  "dos_release ip data =
     (case hm_get data ip of
        None \<Rightarrow> data
      | Some e \<Rightarrow> hm_insert ip (e\<lparr>dos_concurrent := dos_concurrent e - 1\<rparr>) data)"

section \<open>The checks of a transaction\<close>

definition user_agent_header :: "sip_request \<Rightarrow> string option" where
  "user_agent_header rq =
     (case List.map_filter (\<lambda>h. case h of HUserAgent v \<Rightarrow> Some v | _ \<Rightarrow> None) (rq_headers rq) of
        [] \<Rightarrow> None | v # _ \<Rightarrow> Some v)"

definition check_uri_normalization :: "acl_env \<Rightarrow> transaction \<Rightarrow> uri_error option" where
  "check_uri_normalization env tx =
     (if \<not> ac_uri_reject_malformed (av_config env) then None
      else case av_from env (tx_original tx) of
             Inl FromMissing \<Rightarrow> Some MalformedFrom
           | Inl FromUriMalformed \<Rightarrow> Some MalformedFromUri
           | Inr uri \<Rightarrow>
               if ac_uri_max_length (av_config env) < byte_len (sa_uri_str (av_sip env) uri)
               then Some FromTooLong else None)"

definition extract_from_user :: "acl_env \<Rightarrow> sip_request \<Rightarrow> string option" where
  "extract_from_user env rq = (case av_from env rq of Inr uri \<Rightarrow> uri_user_opt uri | Inl _ \<Rightarrow> None)"

definition extract_to_user :: "acl_env \<Rightarrow> sip_request \<Rightarrow> string option" where
  "extract_to_user env rq = Option.bind (av_to env rq) uri_user_opt"

text \<open>\<^verbatim>\<open>resolve_inbound_trunk_by_ip\<close>: in each covering network the first acceptable trunk, the last
  network to have one wins.\<close>

fun first_trunk :: "acl_env \<Rightarrow> string option \<Rightarrow> string option \<Rightarrow> string list \<Rightarrow> trunk_context option" where
  "first_trunk env from_user to_user [] = None"
| "first_trunk env from_user to_user (name # names) =
     (case hm_get (av_trunks env) name of
        None \<Rightarrow> first_trunk env from_user to_user names
      | Some trunk \<Rightarrow>
          if \<not> matches_incoming_user_prefixes (av_regex env) trunk from_user to_user
          then first_trunk env from_user to_user names
          else Some \<lparr>tx_trunk_id = tc_id trunk, tx_trunk_name = name\<rparr>)"

definition resolve_inbound_trunk_by_ip :: "acl_env \<Rightarrow> ip_addr \<Rightarrow> string option \<Rightarrow> string option \<Rightarrow>
    trunk_context option" where
  "resolve_inbound_trunk_by_ip env addr from_user to_user =
     fold (\<lambda>names matched. or_else (first_trunk env from_user to_user names) matched)
       (av_cover_values env addr) None"

definition is_from_trunk_context :: "acl_env \<Rightarrow> ip_addr \<Rightarrow> sip_request \<Rightarrow> trunk_context option" where
  "is_from_trunk_context env addr origin =
     resolve_inbound_trunk_by_ip env addr (extract_from_user env origin) (extract_to_user env origin)"

datatype proxy_action = Continue | Abort
datatype module_error = HandlerError | HandlerPanic

record acl_state =
  as_dos :: dos_data
  as_cookie :: transaction_cookie
  as_reports :: "acl_report list"

definition mark_as_spam :: "spam_result \<Rightarrow> acl_state \<Rightarrow> acl_state" where
  "mark_as_spam r s = s\<lparr>as_cookie := (as_cookie s)\<lparr>ck_spam_result := r\<rparr>\<rparr>"

definition report_denied :: "acl_report \<Rightarrow> acl_state \<Rightarrow> acl_state" where
  "report_denied r s = s\<lparr>as_reports := as_reports s @ [r]\<rparr>"

text \<open>The four checks of \<^verbatim>\<open>on_transaction_begin\<close>, last first.\<close>

definition acl_check_ip :: "acl_env \<Rightarrow> transaction \<Rightarrow> acl_state \<Rightarrow> (module_error + proxy_action) \<times> acl_state" where
  "acl_check_ip env tx s =
     (case extract_ip env tx of
        None \<Rightarrow> (Inl HandlerError, s)
      | Some from_addr \<Rightarrow>
          (case is_from_trunk_context env from_addr (tx_original tx) of
             Some ctx \<Rightarrow> (Inr Continue, s\<lparr>as_cookie := (as_cookie s)\<lparr>ck_trunk := Some ctx\<rparr>\<rparr>)
           | None \<Rightarrow>
               (case is_ip_allowed (av_rules env) from_addr of
                  None \<Rightarrow> (Inl HandlerPanic, s)
                | Some True \<Rightarrow> (Inr Continue, s)
                | Some False \<Rightarrow>
                    (Inr Abort, mark_as_spam IpBlacklist (report_denied (ReportIp from_addr) s)))))"

definition acl_check_dos :: "acl_env \<Rightarrow> instant \<Rightarrow> transaction \<Rightarrow> acl_state \<Rightarrow>
    (module_error + proxy_action) \<times> acl_state" where
  "acl_check_dos env now tx s =
     (if \<not> ac_dos_enabled (av_config env) then acl_check_ip env tx s
      else case extract_ip env tx of
             None \<Rightarrow> acl_check_ip env tx s
           | Some ip \<Rightarrow>
               (case dos_check_and_track (av_config env) now ip (as_dos s) of
                  (Inl _, d) \<Rightarrow> (Inl HandlerPanic, s\<lparr>as_dos := d\<rparr>)
                | (Inr (Some err), d) \<Rightarrow> (Inr Abort, report_denied (ReportDos ip err) (s\<lparr>as_dos := d\<rparr>))
                | (Inr None, d) \<Rightarrow> acl_check_ip env tx (s\<lparr>as_dos := d\<rparr>)))"

definition acl_on_transaction_begin :: "acl_env \<Rightarrow> instant \<Rightarrow> transaction \<Rightarrow> acl_state \<Rightarrow>
    (module_error + proxy_action) \<times> acl_state" where
  "acl_on_transaction_begin env now tx s =
     (let after_ua =
            (case check_uri_normalization env tx of
               Some e \<Rightarrow> (Inr Abort, report_denied (ReportUri e) s)
             | None \<Rightarrow> acl_check_dos env now tx s)
      in case user_agent_header (tx_original tx) of
           Some ua \<Rightarrow>
             (case match_ua (av_config env) ua of
                Some reason \<Rightarrow>
                  (Inr Abort, mark_as_spam UaBlacklist
                     (report_denied (ReportUa (ua_reason_kind reason) ua (ua_reason_matched reason)) s))
              | None \<Rightarrow> after_ua)
         | None \<Rightarrow>
             if fst (live_ua_lists (av_config env)) \<noteq> []
             then (Inr Abort, mark_as_spam Spam (report_denied ReportMissingUa s))
             else after_ua)"

definition acl_on_transaction_end :: "acl_env \<Rightarrow> transaction \<Rightarrow> acl_state \<Rightarrow> acl_state" where
  "acl_on_transaction_end env tx s =
     (if ac_dos_enabled (av_config env)
      then (case extract_ip env tx of
              Some ip \<Rightarrow> s\<lparr>as_dos := dos_release ip (as_dos s)\<rparr>
            | None \<Rightarrow> s)
      else s)"

section \<open>The modules of a transaction\<close>

text \<open>What a transaction passes through the modules: itself, the state of the access-control module
  and that of the others.\<close>

record 'x server_state =
  sv_tx :: transaction
  sv_acl :: acl_state
  sv_other :: 'x

record 'x proxy_module =
  pm_begin :: "'x server_state \<Rightarrow> (module_error + proxy_action) \<times> 'x server_state"
  pm_end :: "'x server_state \<Rightarrow> 'x server_state"

definition acl_module :: "acl_env \<Rightarrow> instant \<Rightarrow> 'x proxy_module" where
  "acl_module env now =
     \<lparr>pm_begin = (\<lambda>s. case acl_on_transaction_begin env now (sv_tx s) (sv_acl s) of
        (r, a) \<Rightarrow> (r, s\<lparr>sv_acl := a\<rparr>)),
      pm_end = (\<lambda>s. s\<lparr>sv_acl := acl_on_transaction_end env (sv_tx s) (sv_acl s)\<rparr>)\<rparr>"

fun begin_modules :: "'x proxy_module list \<Rightarrow> 'x server_state \<Rightarrow> (module_error + unit) \<times> 'x server_state" where
  "begin_modules [] s = (Inr (), s)"
| "begin_modules (m # ms) s =
     (case pm_begin m s of
        (Inr Continue, s') \<Rightarrow> begin_modules ms s'
      | (Inr Abort, s') \<Rightarrow> (Inr (), s')
      | (Inl e, s') \<Rightarrow> (Inl e, s'))"

text \<open>\<^verbatim>\<open>process_transaction\<close>: the failure of a module is answered with 500 and skips the end of every
  module; a panic ends the task.\<close>

definition process_transaction :: "'x proxy_module list \<Rightarrow> 'x server_state \<Rightarrow> 'x server_state" where
  "process_transaction modules s =
     (case begin_modules modules s of
        (Inl HandlerError, s') \<Rightarrow>
          if tx_last_response (sv_tx s') = None
          then s'\<lparr>sv_tx := (sv_tx s')\<lparr>tx_last_response := Some 500\<rparr>\<rparr> else s'
      | (Inl HandlerPanic, s') \<Rightarrow> s'
      | (Inr _, s') \<Rightarrow> fold pm_end modules s')"

end
