(* ===== verification/Acl_Runs.thy ===== *)
theory Acl_Runs
  imports Acl_Module
begin

text \<open>
  What the access-control module guarantees: who gets past it, how fast one address can, and how its
  count of running requests drifts from the requests that run.
\<close>

section \<open>Who gets past the checks\<close>

text \<open>C25. A request gets past the module only if its User-Agent is acceptable, its From passes the
  configured limits, and its source address belongs to an inbound trunk or is allowed by the rules;
  with rate limiting on, the address was not blocked. The source is the peer of the connection unless
  that peer is a trusted proxy.\<close>

theorem acl_continue_sound:
  assumes "acl_on_transaction_begin env now tx s = (Inr Continue, s')"
  shows "(case user_agent_header (tx_original tx) of
        Some ua \<Rightarrow> match_ua (av_config env) ua = None
      | None \<Rightarrow> fst (live_ua_lists (av_config env)) = []) \<and>
    check_uri_normalization env tx = None \<and>
    (\<exists>ip. extract_ip env tx = Some ip \<and>
       (is_from_trunk_context env ip (tx_original tx) \<noteq> None \<or> is_ip_allowed (av_rules env) ip = Some True) \<and>
       (ac_dos_enabled (av_config env) \<longrightarrow>
          fst (dos_check_and_track (av_config env) now ip (as_dos s)) = Inr None) \<and>
       (\<forall>peer. Option.bind (tx_remote tx) (source_addr_ip env) = Some peer \<longrightarrow> ip = peer \<or>
          (\<exists>net \<in> set (List.map_filter (parse_trusted_proxy env) (ac_trusted_proxies (av_config env))). net peer)))"
proof -
  have peer: "ip = p \<or> ip_matches_trusted p trusted"
    if "extract_trusted_ip env tx trusted = Some ip" "Option.bind (tx_remote tx) (source_addr_ip env) = Some p"
    for ip p trusted
    using that by (auto simp: extract_trusted_ip_def split: if_splits)
  have ip: "\<exists>ip. extract_ip env tx = Some ip \<and>
      (is_from_trunk_context env ip (tx_original tx) \<noteq> None \<or> is_ip_allowed (av_rules env) ip = Some True)"
    if "acl_check_ip env tx t = (Inr Continue, t')" for t t'
    using that by (auto simp: acl_check_ip_def split: option.splits bool.splits)
  have dos: "\<exists>ip. extract_ip env tx = Some ip \<and>
      (is_from_trunk_context env ip (tx_original tx) \<noteq> None \<or> is_ip_allowed (av_rules env) ip = Some True) \<and>
      (ac_dos_enabled (av_config env) \<longrightarrow>
        fst (dos_check_and_track (av_config env) now ip (as_dos s)) = Inr None)"
    if "acl_check_dos env now tx s = (Inr Continue, s')"
    using that ip by (fastforce simp: acl_check_dos_def split: if_splits option.splits prod.splits sum.splits)
  have "acl_check_dos env now tx s = (Inr Continue, s')"
    "case user_agent_header (tx_original tx) of Some ua \<Rightarrow> match_ua (av_config env) ua = None
      | None \<Rightarrow> fst (live_ua_lists (av_config env)) = []"
    "check_uri_normalization env tx = None"
    using assms by (auto simp: acl_on_transaction_begin_def Let_def split: option.splits if_splits)
  with dos peer show ?thesis by (fastforce simp: extract_ip_def ip_matches_trusted_def)
qed

section \<open>How fast one address gets through\<close>

text \<open>Checks and releases in any order, each some time after the one before; the admitted checks are
  recorded.\<close>

datatype dos_event = DosCheck nat ip_addr | DosRelease nat ip_addr

record dos_run =
  dr_data :: dos_data
  dr_clock :: instant
  dr_admitted :: "(ip_addr \<times> instant) list"

fun dos_apply :: "acl_config \<Rightarrow> dos_event \<Rightarrow> dos_run \<Rightarrow> dos_run" where
  "dos_apply cfg (DosCheck dt ip) s =
     (let now = dr_clock s + dt
      in case dos_check_and_track cfg now ip (dr_data s) of
           (r, d) \<Rightarrow> \<lparr>dr_data = d, dr_clock = now,
             dr_admitted = dr_admitted s @ (if r = Inr None then [(ip, now)] else [])\<rparr>)"
| "dos_apply cfg (DosRelease dt ip) s =
     s\<lparr>dr_data := dos_release ip (dr_data s), dr_clock := dr_clock s + dt\<rparr>"

definition dos_start :: dos_run where
  "dos_start = \<lparr>dr_data = [], dr_clock = 0, dr_admitted = []\<rparr>"

definition admitted_at :: "ip_addr \<Rightarrow> (ip_addr \<times> instant) list \<Rightarrow> instant list" where
  "admitted_at ip l = map snd (filter (\<lambda>x. fst x = ip) l)"

definition in_second :: "instant \<Rightarrow> instant list \<Rightarrow> instant list" where
  "in_second t l = filter (\<lambda>x. x \<le> t \<and> t < x + ns_per_sec) l"

text \<open>What the entry of an address remembers of its admitted checks.\<close>

definition entry_remembers :: "instant \<Rightarrow> dos_per_ip_data \<Rightarrow> instant list \<Rightarrow> bool" where
  "entry_remembers now e adm \<longleftrightarrow>
     (\<forall>x \<in> set adm. x \<le> now) \<and>
     (case dos_blocked_until e of
        Some until \<Rightarrow> \<forall>x \<in> set adm. x + ns_per_sec \<le> until
      | None \<Rightarrow> filter (\<lambda>x. now < x + ns_per_sec) adm = filter (\<lambda>x. now < x + ns_per_sec) (dos_recent e))"

definition dos_rate :: "acl_config \<Rightarrow> nat" where
  "dos_rate cfg = min (unat (ac_dos_max_cps_per_ip cfg)) (unat (ac_dos_scan_probe_threshold cfg))"

definition dos_inv :: "acl_config \<Rightarrow> dos_run \<Rightarrow> bool" where
  "dos_inv cfg s \<longleftrightarrow> (0 < ac_dos_scan_block_duration_secs cfg \<longrightarrow>
     (\<forall>ip. entry_remembers (dr_clock s) (case hm_get (dr_data s) ip of Some e \<Rightarrow> e | None \<Rightarrow> dos_new)
        (admitted_at ip (dr_admitted s)) \<and>
      (\<forall>t. length (in_second t (admitted_at ip (dr_admitted s))) \<le> dos_rate cfg)))"

lemma filter_later:
  "now \<le> (later :: nat) \<Longrightarrow> filter (\<lambda>x. now < x + d) l = filter (\<lambda>x. now < x + d) m \<Longrightarrow>
    filter (\<lambda>x. later < x + d) l = filter (\<lambda>x. later < x + d) m"
proof -
  assume le: "now \<le> later" and eq: "filter (\<lambda>x. now < x + d) l = filter (\<lambda>x. now < x + d) m"
  have "filter (\<lambda>x. later < x + d) k = filter (\<lambda>x. later < x + d) (filter (\<lambda>x. now < x + d) k)" for k
    using le by (auto simp: intro!: filter_cong)
  with eq show ?thesis by metis
qed

lemma entry_remembers_later:
  "entry_remembers now e adm \<Longrightarrow> now \<le> later \<Longrightarrow> entry_remembers later e adm"
  by (auto simp: entry_remembers_def split: option.splits intro: filter_later)

lemma entry_remembers_count:
  assumes "0 < ac_dos_scan_block_duration_secs cfg" "entry_remembers now e adm" "dos_blocked_until e = None"
    and "dos_count cfg now e = (r, e')"
  shows "entry_remembers now e' (adm @ (if r = Inr None then [now] else []))"
    and "r = Inr None \<Longrightarrow> length (in_second now adm) < dos_rate cfg"
proof -
  have sec: "ns_per_sec \<le> from_secs (unat (ac_dos_scan_block_duration_secs cfg))"
    using assms(1) by (simp add: from_secs_def word_gt_0 unat_gt_0 Suc_le_eq)
  show "entry_remembers now e' (adm @ (if r = Inr None then [now] else []))"
    using assms(2-4) sec
    by (fastforce simp: dos_count_def dos_block_def instant_add_def entry_remembers_def Let_def
        split: if_splits)
  assume "r = Inr None"
  with assms(4) have "length (filter (\<lambda>t. now < t + ns_per_sec) (dos_recent e)) < dos_rate cfg"
    by (auto simp: dos_count_def dos_block_def dos_rate_def Let_def split: if_splits sum.splits)
  moreover have "in_second now adm = filter (\<lambda>t. now < t + ns_per_sec) adm"
    using assms(2) by (auto simp: entry_remembers_def in_second_def intro!: filter_cong)
  moreover have "\<dots> = filter (\<lambda>t. now < t + ns_per_sec) (dos_recent e)"
    using assms(2,3) by (simp add: entry_remembers_def)
  ultimately show "length (in_second now adm) < dos_rate cfg" by simp
qed

lemma entry_remembers_check:
  assumes "0 < ac_dos_scan_block_duration_secs cfg" "entry_remembers now e adm" "dos_check cfg now e = (r, e')"
  shows "entry_remembers now e' (adm @ (if r = Inr None then [now] else []))"
    and "r = Inr None \<Longrightarrow> length (in_second now adm) < dos_rate cfg"
proof -
  have fresh: "entry_remembers now dos_new adm" if "dos_blocked_until e = Some until" "until \<le> now" for until
    using assms(2) that by (force simp: entry_remembers_def dos_new_def filter_empty_conv)
  have "(r \<noteq> Inr None \<and> e' = e) \<or>
      (\<exists>e0. entry_remembers now e0 adm \<and> dos_blocked_until e0 = None \<and> dos_count cfg now e0 = (r, e'))"
    using assms(2,3) fresh
    by (cases "dos_blocked_until e") (auto simp: dos_check_def dos_new_def split: if_splits)
  then consider "r \<noteq> Inr None" "e' = e"
    | e0 where "entry_remembers now e0 adm" "dos_blocked_until e0 = None" "dos_count cfg now e0 = (r, e')"
    by blast
  then have "entry_remembers now e' (adm @ (if r = Inr None then [now] else [])) \<and>
      (r = Inr None \<longrightarrow> length (in_second now adm) < dos_rate cfg)"
  proof cases
    case 1
    with assms(2) show ?thesis by simp
  next
    case 2
    from entry_remembers_count [OF assms(1) this] show ?thesis by blast
  qed
  then show "entry_remembers now e' (adm @ (if r = Inr None then [now] else []))"
    and "r = Inr None \<Longrightarrow> length (in_second now adm) < dos_rate cfg"
    by simp_all
qed

lemma in_second_snoc:
  assumes "\<forall>x \<in> set adm. x \<le> now" "length (in_second now adm) < k" "\<forall>t. length (in_second t adm) \<le> k"
  shows "length (in_second t (adm @ [now])) \<le> k"
proof (cases "now \<le> t \<and> t < now + ns_per_sec")
  case True
  then have "in_second t adm = filter (\<lambda>x. t < x + ns_per_sec) (in_second now adm)"
    using assms(1) by (auto simp: in_second_def intro!: filter_cong)
  then have "length (in_second t adm) \<le> length (in_second now adm)" by simp
  with assms(2) True show ?thesis by (simp add: in_second_def)
next
  case False
  then have "in_second t (adm @ [now]) = in_second t adm" by (auto simp: in_second_def)
  with assms(3) show ?thesis by simp
qed

lemma admitted_at_simps [simp]:
  "admitted_at ip [] = []"
  "admitted_at ip (l @ m) = admitted_at ip l @ admitted_at ip m"
  "admitted_at ip [(jp, t)] = (if jp = ip then [t] else [])"
  by (simp_all add: admitted_at_def)

lemma dos_check_inv:
  assumes "dos_inv cfg s"
  shows "dos_inv cfg (dos_apply cfg (DosCheck dt jp) s)"
  unfolding dos_inv_def
proof (intro impI allI)
  fix ip
  assume pos: "0 < ac_dos_scan_block_duration_secs cfg"
  let ?now = "dr_clock s + dt"
  let ?e = "\<lambda>ip. case hm_get (dr_data s) ip of Some e \<Rightarrow> e | None \<Rightarrow> dos_new"
  let ?adm = "\<lambda>ip. admitted_at ip (dr_admitted s)"
  obtain r e' where c: "dos_check cfg ?now (?e jp) = (r, e')" by fastforce
  have rem: "entry_remembers ?now (?e ip) (?adm ip)" "\<forall>t. length (in_second t (?adm ip)) \<le> dos_rate cfg" for ip
    using assms pos entry_remembers_later [of "dr_clock s" _ _ ?now] by (auto simp: dos_inv_def)
  have step: "dos_apply cfg (DosCheck dt jp) s = \<lparr>dr_data = hm_insert jp e' (dr_data s), dr_clock = ?now,
      dr_admitted = dr_admitted s @ (if r = Inr None then [(jp, ?now)] else [])\<rparr>"
    by (simp add: dos_check_and_track_def c Let_def)
  have "\<forall>x \<in> set (?adm ip). x \<le> ?now" using rem(1) by (simp add: entry_remembers_def)
  then have "\<forall>t. length (in_second t (?adm ip @ (if ip = jp \<and> r = Inr None then [?now] else []))) \<le> dos_rate cfg"
    using in_second_snoc [of "?adm ip" ?now "dos_rate cfg"] entry_remembers_check(2) [OF pos rem(1) c] rem(2) [of ip]
    by auto
  then show "entry_remembers (dr_clock (dos_apply cfg (DosCheck dt jp) s))
      (case hm_get (dr_data (dos_apply cfg (DosCheck dt jp) s)) ip of Some e \<Rightarrow> e | None \<Rightarrow> dos_new)
      (admitted_at ip (dr_admitted (dos_apply cfg (DosCheck dt jp) s))) \<and>
    (\<forall>t. length (in_second t (admitted_at ip (dr_admitted (dos_apply cfg (DosCheck dt jp) s)))) \<le> dos_rate cfg)"
    using entry_remembers_check(1) [OF pos rem(1) c] rem(1) [of ip]
    unfolding step by (cases "ip = jp"; cases "r = Inr None") simp_all
qed

lemma dos_release_get:
  "hm_get (dos_release jp d) ip =
     (if ip = jp then map_option (\<lambda>e. e\<lparr>dos_concurrent := dos_concurrent e - 1\<rparr>) (hm_get d ip) else hm_get d ip)"
  by (simp add: dos_release_def split: option.split)

lemma dos_release_inv:
  assumes "dos_inv cfg s"
  shows "dos_inv cfg (dos_apply cfg (DosRelease dt jp) s)"
proof -
  have same: "entry_remembers now (e\<lparr>dos_concurrent := c\<rparr>) adm = entry_remembers now e adm" for now e c adm
    by (simp add: entry_remembers_def split: option.split)
  have "entry_remembers (dr_clock s + dt)
      (case hm_get (dos_release jp (dr_data s)) ip of Some e \<Rightarrow> e | None \<Rightarrow> dos_new) adm"
    if "entry_remembers (dr_clock s) (case hm_get (dr_data s) ip of Some e \<Rightarrow> e | None \<Rightarrow> dos_new) adm" for ip adm
    using entry_remembers_later [OF that, of "dr_clock s + dt"]
    by (auto simp: dos_release_get same split: option.splits)
  with assms show ?thesis by (simp add: dos_inv_def)
qed

interpretation dos_machine: event_machine "dos_apply cfg" "dos_inv cfg" for cfg
proof
  fix e s
  assume "dos_inv cfg s"
  then show "dos_inv cfg (dos_apply cfg e s)"
    by (cases e) (simp_all only: dos_check_inv dos_release_inv)
qed


section \<open>The count of running requests\<close>

text \<open>The other modules neither touch the state of this one nor the request.\<close>

definition leaves_acl :: "'x proxy_module \<Rightarrow> bool" where
  "leaves_acl m \<longleftrightarrow> (\<forall>s. sv_acl (snd (pm_begin m s)) = sv_acl s \<and> sv_acl (pm_end m s) = sv_acl s)"

lemma fold_end_leaves:
  "(\<forall>m \<in> set ms. leaves_acl m) \<Longrightarrow> sv_acl (fold pm_end ms s) = sv_acl s"
  by (induction ms arbitrary: s) (simp_all add: leaves_acl_def)

lemma begin_leaves:
  "(\<forall>m \<in> set ms. leaves_acl m) \<Longrightarrow> begin_modules ms s = (r, s') \<Longrightarrow> sv_acl s' = sv_acl s"
proof (induction ms arbitrary: s)
  case Nil
  then show ?case by simp
next
  case (Cons m ms)
  obtain a t where m: "pm_begin m s = (a, t)" by fastforce
  with Cons.prems have t: "sv_acl t = sv_acl s" by (simp add: leaves_acl_def) (metis snd_conv)
  show ?case
    using Cons.prems Cons.IH [of t] m t
    by (auto split: sum.splits proxy_action.splits)
qed

text \<open>C27. A request that is turned away before it is counted still gives a slot back: with rate
  limiting on, a request with a blocked User-Agent lowers the count of running requests of its
  address by one, so an address that has reached its limit regains slots by sending such requests.\<close>

theorem rejected_request_frees_slot:
  assumes "ac_dos_enabled (av_config env)" "extract_ip env (sv_tx s) = Some ip"
    and "user_agent_header (tx_original (sv_tx s)) = Some ua" "match_ua (av_config env) ua = Some reason"
    and "hm_get (as_dos (sv_acl s)) ip = Some e" "\<forall>m \<in> set rest. leaves_acl m"
  shows "hm_get (as_dos (sv_acl (process_transaction (acl_module env now # rest) s))) ip
    = Some (e\<lparr>dos_concurrent := dos_concurrent e - 1\<rparr>)"
  using assms fold_end_leaves [OF assms(6)]
  by (simp add: process_transaction_def acl_module_def acl_on_transaction_begin_def
      acl_on_transaction_end_def dos_release_get mark_as_spam_def report_denied_def)

text \<open>The reverse drift: a request that was counted and passed on keeps its slot for good when
  a later module fails, since the server then skips the end of every module.\<close>

theorem failed_request_keeps_slot:
  assumes "ac_dos_enabled (av_config env)" "extract_ip env (sv_tx s) = Some ip"
    and "acl_on_transaction_begin env now (sv_tx s) (sv_acl s) = (Inr Continue, a)"
    and "begin_modules rest (s\<lparr>sv_acl := a\<rparr>) = (Inl err, s')" "\<forall>m \<in> set rest. leaves_acl m"
  shows "\<exists>e. hm_get (as_dos (sv_acl (process_transaction (acl_module env now # rest) s))) ip = Some e \<and>
    dos_concurrent e = Suc (case hm_get (as_dos (sv_acl s)) ip of
      Some e0 \<Rightarrow> (if dos_blocked_until e0 = None then dos_concurrent e0 else 0) | None \<Rightarrow> 0)"
proof -
  have "sv_acl s' = a" using begin_leaves [OF assms(5,4)] by simp
  then have after: "sv_acl (process_transaction (acl_module env now # rest) s) = a"
    using assms(3,4) by (cases err) (simp_all add: process_transaction_def acl_module_def)
  have cnt: "dos_concurrent e' = Suc (if dos_blocked_until e0 = None then dos_concurrent e0 else 0)"
    if "dos_check cfg now e0 = (Inr None, e')" for cfg e0 e'
    using that
    by (auto simp: dos_check_def dos_count_def dos_block_def dos_new_def Let_def split: if_splits option.splits sum.splits)
  obtain d where d: "dos_check_and_track (av_config env) now ip (as_dos (sv_acl s)) = (Inr None, d)" "as_dos a = d"
    using assms(1-3)
    by (auto simp: acl_on_transaction_begin_def acl_check_dos_def acl_check_ip_def Let_def
        split: option.splits if_splits prod.splits sum.splits bool.splits)
  then obtain e' where "dos_check (av_config env) now
      (case hm_get (as_dos (sv_acl s)) ip of Some e \<Rightarrow> e | None \<Rightarrow> dos_new) = (Inr None, e')" "hm_get d ip = Some e'"
    by (cases "dos_check (av_config env) now (case hm_get (as_dos (sv_acl s)) ip of Some e \<Rightarrow> e | None \<Rightarrow> dos_new)")
      (auto simp: dos_check_and_track_def)
  with cnt [OF this(1)] show ?thesis
    unfolding after d(2) by (auto simp: dos_new_def split: option.splits)
qed

section \<open>Witnesses\<close>

definition demo_acl_config :: acl_config where
  "demo_acl_config = \<lparr>ac_ua_white_list = None, ac_ua_black_list = Some [''bad''], ac_ua_block_scanners = True,
     ac_dos_enabled = True, ac_dos_max_cps_per_ip = 2, ac_dos_max_concurrent_per_ip = 1,
     ac_dos_scan_probe_threshold = 5, ac_dos_scan_block_duration_secs = 1, ac_trusted_proxies = [],
     ac_uri_max_length = 100, ac_uri_reject_malformed = False\<rparr>"

definition demo_acl_uri :: sip_uri where
  "demo_acl_uri = \<lparr>uri_scheme = Some Sip, uri_auth = None, uri_host_with_port = \<lparr>hp_host = ''h'', hp_port = None\<rparr>,
     uri_params = []\<rparr>"

definition demo_acl_env :: acl_env where
  "demo_acl_env = \<lparr>av_config = demo_acl_config, av_rules = [''allow all''],
     av_sip = \<lparr>sa_parse_uri = (\<lambda>_. None), sa_uri_str = (\<lambda>_. []), sa_parse_hostport = (\<lambda>_. None),
       sa_addr_str = (\<lambda>_. [])\<rparr>,
     av_from = (\<lambda>_. Inl FromMissing), av_to = (\<lambda>_. None), av_host_ip = (\<lambda>_. Some (IpV4 7)),
     av_via = (\<lambda>_. None), av_parse_net = (\<lambda>_. None), av_cover_values = (\<lambda>_. []), av_trunks = [],
     av_regex = \<lparr>rx_is_match = (\<lambda>_ _. None), rx_captures = (\<lambda>_ _. None)\<rparr>\<rparr>"

definition demo_acl_tx :: "string \<Rightarrow> transaction" where
  "demo_acl_tx ua = \<lparr>tx_original = \<lparr>rq_uri = demo_acl_uri, rq_headers = [HUserAgent ua]\<rparr>,
     tx_remote = Some \<lparr>sad_type = None, sad_addr = \<lparr>hp_host = ''h'', hp_port = None\<rparr>\<rparr>, tx_last_response = None\<rparr>"

definition demo_acl_state :: "dos_data \<Rightarrow> acl_state" where
  "demo_acl_state d = \<lparr>as_dos = d, as_cookie = \<lparr>ck_spam_result = Nice, ck_trunk = None\<rparr>, as_reports = []\<rparr>"

definition demo_server :: "string \<Rightarrow> dos_data \<Rightarrow> unit server_state" where
  "demo_server ua d = \<lparr>sv_tx = demo_acl_tx ua, sv_acl = demo_acl_state d, sv_other = ()\<rparr>"

definition demo_failing :: "unit proxy_module" where
  "demo_failing = \<lparr>pm_begin = (\<lambda>s. (Inl HandlerError, s)), pm_end = (\<lambda>s. s)\<rparr>"

lemma demo_extract_ip: "extract_ip demo_acl_env (demo_acl_tx ua) = Some (IpV4 7)"
  by (simp add: extract_ip_def extract_trusted_ip_def demo_acl_env_def demo_acl_config_def demo_acl_tx_def
      source_addr_ip_def map_filter_def)

lemma demo_ua_header: "user_agent_header (tx_original (demo_acl_tx ua)) = Some ua"
  by (simp add: user_agent_header_def demo_acl_tx_def map_filter_def)

lemma demo_ua_ok: "match_ua (av_config demo_acl_env) ''x'' = None"
  by code_simp

lemma demo_continue:
  "acl_on_transaction_begin demo_acl_env 9 (demo_acl_tx ''x'') (demo_acl_state [])
    = (Inr Continue, demo_acl_state
        [(IpV4 7, \<lparr>dos_recent = [9], dos_concurrent = 1, dos_blocked_until = None\<rparr>)])"
proof -
  have "is_ip_allowed (av_rules demo_acl_env) (IpV4 7) = Some True" by code_simp
  moreover have "check_uri_normalization demo_acl_env (demo_acl_tx ''x'') = None"
    by (simp add: check_uri_normalization_def demo_acl_env_def demo_acl_config_def)
  moreover have "is_from_trunk_context demo_acl_env (IpV4 7) rq = None" for rq
    by (simp add: is_from_trunk_context_def resolve_inbound_trunk_by_ip_def demo_acl_env_def)
  moreover have "dos_check_and_track (av_config demo_acl_env) 9 (IpV4 7) []
      = (Inr None, [(IpV4 7, \<lparr>dos_recent = [9], dos_concurrent = 1, dos_blocked_until = None\<rparr>)])"
    by (simp add: demo_acl_env_def demo_acl_config_def dos_check_and_track_def dos_check_def dos_count_def
        dos_new_def Let_def hm_insert_def)
  moreover have "ac_dos_enabled (av_config demo_acl_env)" by (simp add: demo_acl_env_def demo_acl_config_def)
  ultimately show ?thesis
    by (simp add: acl_on_transaction_begin_def acl_check_dos_def acl_check_ip_def demo_extract_ip demo_ua_header
        demo_ua_ok demo_acl_state_def)
qed

theorem acl_continue_sound_witness:
  "check_uri_normalization demo_acl_env (demo_acl_tx ''x'') = None \<and>
    (\<exists>ip. extract_ip demo_acl_env (demo_acl_tx ''x'') = Some ip \<and>
       (is_from_trunk_context demo_acl_env ip (tx_original (demo_acl_tx ''x'')) \<noteq> None \<or>
        is_ip_allowed (av_rules demo_acl_env) ip = Some True))"
  using acl_continue_sound [OF demo_continue] by blast


text \<open>The proviso on the block is needed: a block of zero seconds is over at once and clears the count, so of three
  requests at one instant two get past a limit of one.\<close>

lemma dos_zero_block:
  "length (in_second 2000000000 (admitted_at (IpV4 1) (dr_admitted (fold (dos_apply (demo_acl_config
     \<lparr>ac_dos_max_cps_per_ip := 1, ac_dos_max_concurrent_per_ip := 9, ac_dos_scan_block_duration_secs := 0\<rparr>))
     [DosCheck 2000000000 (IpV4 1), DosCheck 0 (IpV4 1), DosCheck 0 (IpV4 1)] dos_start)))) = 2"
  by (simp add: dos_start_def dos_check_and_track_def dos_check_def dos_count_def dos_block_def demo_acl_config_def Let_def
      dos_new_def instant_add_def instant_end_def in_second_def from_secs_def ns_per_sec_def hm_get_def hm_insert_def
      admitted_at_def)

theorem rejected_request_frees_slot_witness:
  "hm_get (as_dos (sv_acl (process_transaction [acl_module demo_acl_env 9, demo_failing] (demo_server ''bad''
      [(IpV4 7, \<lparr>dos_recent = [8], dos_concurrent = 1, dos_blocked_until = None\<rparr>)])))) (IpV4 7)
    = Some (\<lparr>dos_recent = [8], dos_concurrent = 1, dos_blocked_until = None\<rparr>
        \<lparr>dos_concurrent := dos_concurrent \<lparr>dos_recent = [8], dos_concurrent = 1, dos_blocked_until = None\<rparr> - 1\<rparr>)"
proof (rule rejected_request_frees_slot)
  show "match_ua (av_config demo_acl_env) ''bad'' = Some (Blacklisted ''bad'')" by code_simp
qed (simp_all add: demo_server_def demo_extract_ip demo_ua_header, simp_all add: demo_acl_env_def
    demo_acl_config_def demo_acl_state_def hm_get_def leaves_acl_def demo_failing_def)

end
