(* ===== verification/Locator.thy ===== *)
theory Locator
  imports Net_Addr Rust_Time Dial_Targets
begin

text \<open>
  The registration store, \<^verbatim>\<open>src/src/proxy/locator.rs\<close>: the in-memory locator with every operation of
  the \<^verbatim>\<open>Locator\<close> trait, the helpers its backends share, and the events of lost registrations. The
  locations of an identity are a hash map from binding key to location; an operation reads the clock
  once. A configured realm check is a parameter, as are the printed URIs (\<open>sip_api\<close>).
\<close>

section \<open>Events\<close>

datatype locator_offline_reason = TransportClosed | Expired

fun offline_reason_str :: "locator_offline_reason \<Rightarrow> string" where
  "offline_reason_str TransportClosed = ''offline''"
| "offline_reason_str Expired = ''expired''"

definition offline_reason_parse_wire :: "string option \<Rightarrow> locator_offline_reason option" where
  "offline_reason_parse_wire v =
     (if v = Some ''expired'' then Some Expired
      else if v = Some ''offline'' then Some TransportClosed
      else None)"

datatype locator_event =
    Registered location
  | Refreshed location
  | Unregistered location
  | Offline "location list" locator_offline_reason

section \<open>Realms and identities\<close>

definition host_without_port :: "string \<Rightarrow> string" where
  "host_without_port value =
     (let trimmed = trim value
      in case (if starts_with trimmed ''['' then split_once CHR '']'' trimmed else None) of
           Some (before, _) \<Rightarrow> drop 1 before
         | None \<Rightarrow>
             if 1 < length (filter (\<lambda>c. c = CHR '':'') trimmed) then trimmed
             else hd (split_on CHR '':'' trimmed))"

definition is_local_realm :: "string \<Rightarrow> bool" where
  "is_local_realm realm =
     (if trim realm = [] then False
      else let host = host_without_port realm
           in if to_ascii_lowercase host \<in> {''localhost'', ''127.0.0.1'', ''0.0.0.0'', ''::1''} then True
              else case parse_ip_addr host of
                     None \<Rightarrow> False
                   | Some ip \<Rightarrow> is_loopback ip \<or> is_unspecified ip \<or>
                       (case ip of IpV4 v \<Rightarrow> v4_is_private v | IpV6 _ \<Rightarrow> False))"

record memory_locator =
  ml_locations :: "(string, (string, location) hmap) hmap"
  ml_realm_checker :: "(string \<Rightarrow> bool) option"

definition memory_locator_new :: memory_locator where
  "memory_locator_new = \<lparr>ml_locations = [], ml_realm_checker = None\<rparr>"

definition set_realm_checker :: "(string \<Rightarrow> bool) \<Rightarrow> memory_locator \<Rightarrow> memory_locator" where
  "set_realm_checker f ml = ml\<lparr>ml_realm_checker := Some f\<rparr>"

definition ml_is_local_realm :: "memory_locator \<Rightarrow> string \<Rightarrow> bool" where
  "ml_is_local_realm ml realm =
     (case ml_realm_checker ml of Some f \<Rightarrow> f realm | None \<Rightarrow> is_local_realm realm)"

text \<open>\<^verbatim>\<open>get_identifier\<close> of the trait, for a realm check.\<close>

definition get_identifier :: "(string \<Rightarrow> bool) \<Rightarrow> string \<Rightarrow> string option \<Rightarrow> string" where
  "get_identifier local user realm =
     (let username = to_ascii_lowercase (trim user);
          realm = (case realm of
                     Some r \<Rightarrow> if trim r \<noteq> []
                               then Some (if local (trim r) then ''localhost'' else to_ascii_lowercase (trim r))
                               else None
                   | None \<Rightarrow> None)
      in if username = [] then []
         else case realm of Some r \<Rightarrow> username @ ''@'' @ r | None \<Rightarrow> username)"

abbreviation ml_identifier :: "memory_locator \<Rightarrow> string \<Rightarrow> string option \<Rightarrow> string" where
  "ml_identifier ml \<equiv> get_identifier (ml_is_local_realm ml)"

definition realm_matches :: "memory_locator \<Rightarrow> string \<Rightarrow> string \<Rightarrow> bool" where
  "realm_matches ml requested_realm candidate_realm =
     (let requested = trim requested_realm; candidate = trim candidate_realm
      in if requested = [] then True
         else if ml_is_local_realm ml requested \<and> ml_is_local_realm ml candidate then True
         else to_ascii_lowercase (host_without_port requested) = to_ascii_lowercase (host_without_port candidate))"

section \<open>Shared helpers of the backends\<close>

definition unregister_grace_secs :: nat where
  "unregister_grace_secs = 5"

definition is_location_expired :: "int \<Rightarrow> int \<Rightarrow> int \<Rightarrow> bool" where
  "is_location_expired expires last_modified now_epoch =
     (if expires \<le> 0 then False
      else expires + int locator_expire_grace_secs \<le> now_epoch - last_modified)"

definition is_within_unregister_grace :: "int \<Rightarrow> int \<Rightarrow> bool" where
  "is_within_unregister_grace last_modified now_epoch \<longleftrightarrow>
     now_epoch - int unregister_grace_secs \<le> last_modified"

definition is_webrtc_invalid_host :: "string \<Rightarrow> bool" where
  "is_webrtc_invalid_host host \<longleftrightarrow> ends_with host ''.invalid''"

definition uri_user_matches :: "sip_uri \<Rightarrow> string \<Rightarrow> bool" where
  "uri_user_matches uri user =
     (case uri_user_opt uri of Some u \<Rightarrow> eq_ignore_ascii_case u user | None \<Rightarrow> False)"

record invalid_host_fallback =
  ihf_user :: string
  ihf_host :: string

definition aor_like_pattern :: "invalid_host_fallback \<Rightarrow> string" where
  "aor_like_pattern fb = ''%'' @ ihf_user fb @ ''@'' @ ihf_host fb @ ''%''"

definition matches_aor :: "invalid_host_fallback \<Rightarrow> sip_uri \<Rightarrow> bool" where
  "matches_aor fb aor \<longleftrightarrow>
     (case uri_user_opt aor of Some u \<Rightarrow> to_ascii_lowercase (trim u) | None \<Rightarrow> []) = ihf_user fb \<and>
     eq_ignore_ascii_case (uri_host aor) (ihf_host fb)"

definition find_invalid_host_fallback :: "sip_uri \<Rightarrow> invalid_host_fallback option" where
  "find_invalid_host_fallback uri =
     (if \<not> is_webrtc_invalid_host (uri_host uri) then None
      else case uri_user_opt uri of
             None \<Rightarrow> None
           | Some u \<Rightarrow>
               let user = to_ascii_lowercase (trim u)
               in if user = [] then None else Some \<lparr>ihf_user = user, ihf_host = uri_host uri\<rparr>)"

definition fallback_registered_aor :: "sip_api \<Rightarrow> string \<Rightarrow> string \<Rightarrow> sip_uri \<Rightarrow> sip_uri" where
  "fallback_registered_aor api username realm fallback =
     (let user = trim username; host = trim realm
      in if user = [] \<or> host = [] then fallback
         else case sa_parse_uri api (''sip:'' @ user @ ''@'' @ host) of Some u \<Rightarrow> u | None \<Rightarrow> fallback)"

definition choose_registered_aor :: "sip_api \<Rightarrow> string \<Rightarrow> string \<Rightarrow> sip_uri \<Rightarrow> sip_uri option \<Rightarrow> sip_uri" where
  "choose_registered_aor api username realm contact_aor decoded =
     (let fallback = fallback_registered_aor api username realm contact_aor;
          strict_equals = (\<lambda>a b. eq_ignore_ascii_case (sa_uri_str api a) (sa_uri_str api b))
      in case decoded of
           Some registered \<Rightarrow>
             if strict_equals registered contact_aor \<and> \<not> strict_equals fallback contact_aor
             then fallback else registered
         | None \<Rightarrow> fallback)"

definition uri_matches :: "sip_api \<Rightarrow> sip_uri \<Rightarrow> sip_uri \<Rightarrow> bool" where
  "uri_matches api a b =
     (if a = b then True
      else if uri_user_opt a = uri_user_opt b \<and>
              (is_local_realm (uri_host a) \<and> is_local_realm (uri_host b) \<or>
               (ends_with (uri_host a) ''.invalid'' \<or> ends_with (uri_host b) ''.invalid'') \<and>
               eq_ignore_ascii_case (uri_host a) (uri_host b))
      then True
      else eq_ignore_ascii_case (sa_uri_str api a) (sa_uri_str api b))"

text \<open>\<^verbatim>\<open>sort_by(compare_location_recency)\<close> is a stable sort: latest first, undated last.\<close>

datatype rust_ordering = Less | Equal | Greater

definition compare_location_recency :: "location \<Rightarrow> location \<Rightarrow> rust_ordering" where
  "compare_location_recency a b =
     (case (loc_last_modified a, loc_last_modified b) of
        (Some a_ts, Some b_ts) \<Rightarrow> if b_ts < a_ts then Less else if a_ts < b_ts then Greater else Equal
      | (Some _, None) \<Rightarrow> Less
      | (None, Some _) \<Rightarrow> Greater
      | (None, None) \<Rightarrow> Equal)"

fun insert_by_recency :: "location \<Rightarrow> location list \<Rightarrow> location list" where
  "insert_by_recency l [] = [l]"
| "insert_by_recency l (m # ms) =
     (if compare_location_recency m l = Less then m # insert_by_recency l ms else l # m # ms)"

definition sort_by_recency :: "location list \<Rightarrow> location list" where
  "sort_by_recency ls = foldr insert_by_recency ls []"

fun retain_unseen :: "sip_api \<Rightarrow> string set \<Rightarrow> location list \<Rightarrow> location list" where
  "retain_unseen api seen [] = []"
| "retain_unseen api seen (l # ls) =
     (if binding_key api l \<in> seen then retain_unseen api seen ls
      else l # retain_unseen api (insert (binding_key api l) seen) ls)"

definition sort_locations_by_recency :: "sip_api \<Rightarrow> location list \<Rightarrow> location list" where
  "sort_locations_by_recency api ls = retain_unseen api {} (sort_by_recency ls)"

section \<open>The in-memory locator\<close>

definition live :: "instant \<Rightarrow> location \<Rightarrow> bool" where
  "live now l \<longleftrightarrow> \<not> is_expired_at l now"

definition all_bindings :: "memory_locator \<Rightarrow> (string \<times> string \<times> location) list" where
  "all_bindings ml = concat (map (\<lambda>(ident, m). map (\<lambda>(k, l). (ident, k, l)) m) (ml_locations ml))"

definition dump_registrations :: "memory_locator \<Rightarrow> instant \<Rightarrow> (string \<times> location) list" where
  "dump_registrations ml now =
     map (\<lambda>(ident, k, l). (ident, l)) (filter (\<lambda>(ident, k, l). live now l) (all_bindings ml))"

text \<open>\<^verbatim>\<open>get_mut\<close> on an identity, then removal of its entry if it has become empty.\<close>

definition update_bindings :: "((string, location) hmap \<Rightarrow> (string, location) hmap) \<Rightarrow> string \<Rightarrow>
    memory_locator \<Rightarrow> memory_locator" where
  "update_bindings f ident ml =
     (case hm_get (ml_locations ml) ident of
        None \<Rightarrow> ml
      | Some m \<Rightarrow>
          ml\<lparr>ml_locations := (if f m = [] then hm_remove ident (ml_locations ml)
                             else hm_insert ident (f m) (ml_locations ml))\<rparr>)"

text \<open>The rapid reconnect: the first live binding of the same instance under another key.\<close>

definition same_instance :: "sip_api \<Rightarrow> instant \<Rightarrow> string \<Rightarrow> string \<Rightarrow> location \<Rightarrow> bool" where
  "same_instance api now instance_id key l \<longleftrightarrow>
     loc_instance_id l = Some instance_id \<and> binding_key api l \<noteq> key \<and> live now l"

fun redirect_first :: "(location \<Rightarrow> bool) \<Rightarrow> sip_addr \<Rightarrow> (string, location) hmap \<Rightarrow> (string, location) hmap" where
  "redirect_first P dest [] = []"
| "redirect_first P dest ((k, l) # m) =
     (if P l then (k, l\<lparr>loc_destination := Some dest\<rparr>) # m else (k, l) # redirect_first P dest m)"

definition redirect_same_instance :: "sip_api \<Rightarrow> instant \<Rightarrow> string \<Rightarrow> location \<Rightarrow> (string, location) hmap \<Rightarrow>
    (string, location) hmap" where
  "redirect_same_instance api now key l m =
     (case (loc_instance_id l, loc_destination l) of
        (Some instance_id, Some dest) \<Rightarrow> redirect_first (same_instance api now instance_id key) dest m
      | _ \<Rightarrow> m)"

definition ml_register :: "sip_api \<Rightarrow> instant \<Rightarrow> string \<Rightarrow> string option \<Rightarrow> location \<Rightarrow> memory_locator \<Rightarrow>
    memory_locator" where
  "ml_register api now username realm location ml =
     (let ident = ml_identifier ml username realm
      in if ident = [] then ml
         else
           let location = location\<lparr>loc_registered_username := Some username, loc_registered_realm := realm\<rparr>;
               key = binding_key api location;
               ml = update_bindings (hm_retain (\<lambda>_ l. live now l)) ident ml
           in if loc_expires location = 0 then update_bindings (hm_remove key) ident ml
              else
                let ml = (case hm_get (ml_locations ml) ident of
                            None \<Rightarrow> ml
                          | Some m \<Rightarrow> ml\<lparr>ml_locations :=
                              hm_insert ident (redirect_same_instance api now key location m) (ml_locations ml)\<rparr>);
                    location = (if loc_last_modified location = None
                                then location\<lparr>loc_last_modified := Some now\<rparr> else location);
                    bindings = (case hm_get (ml_locations ml) ident of None \<Rightarrow> [] | Some m \<Rightarrow> m)
                in ml\<lparr>ml_locations := hm_insert ident (hm_insert key location bindings) (ml_locations ml)\<rparr>)"

definition ml_unregister :: "string \<Rightarrow> string option \<Rightarrow> memory_locator \<Rightarrow> memory_locator" where
  "ml_unregister username realm ml =
     (let ident = ml_identifier ml username realm
      in if ident = [] then ml else ml\<lparr>ml_locations := hm_remove ident (ml_locations ml)\<rparr>)"

definition has_active_bindings :: "memory_locator \<Rightarrow> instant \<Rightarrow> string \<Rightarrow> string option \<Rightarrow> bool" where
  "has_active_bindings ml now username realm =
     (let ident = ml_identifier ml username realm
      in if ident = [] then False
         else case hm_get (ml_locations ml) ident of
                None \<Rightarrow> False
              | Some m \<Rightarrow> \<exists>l \<in> set (map snd m). live now l)"

definition has_active_binding_for_user :: "memory_locator \<Rightarrow> instant \<Rightarrow> string \<Rightarrow> bool" where
  "has_active_binding_for_user ml now username =
     (let user = to_ascii_lowercase (trim username)
      in if user = [] then False
         else \<exists>(ident, k, l) \<in> set (all_bindings ml). live now l \<and>
                ((ident = user \<or> starts_with ident (user @ ''@'')) \<or>
                 uri_user_matches (loc_aor l) user \<or>
                 (case loc_registered_aor l of Some aor \<Rightarrow> uri_user_matches aor user | None \<Rightarrow> False)))"

definition closed_binding :: "instant \<Rightarrow> sip_addr \<Rightarrow> location \<Rightarrow> bool" where
  "closed_binding now addr l \<longleftrightarrow>
     loc_destination l = Some addr \<and>
     \<not> (case loc_last_modified l of
          Some lm \<Rightarrow> now \<le> lm + from_secs unregister_grace_secs
        | None \<Rightarrow> False)"

text \<open>\<^verbatim>\<open>retain\<close> over the identities: the bindings of which \<open>P\<close> holds are removed and collected, and an
  identity without bindings disappears.\<close>

definition remove_bindings :: "(location \<Rightarrow> bool) \<Rightarrow> memory_locator \<Rightarrow> location list \<times> memory_locator" where
  "remove_bindings P ml =
     (filter P (map (\<lambda>(ident, k, l). l) (all_bindings ml)),
      ml\<lparr>ml_locations := hm_retain (\<lambda>_ m. m \<noteq> [])
           (hm_map_values (\<lambda>_. hm_retain (\<lambda>_ l. \<not> P l)) (ml_locations ml))\<rparr>)"

definition unregister_with_address :: "instant \<Rightarrow> sip_addr \<Rightarrow> memory_locator \<Rightarrow>
    location list option \<times> memory_locator" where
  "unregister_with_address now addr ml =
     (case remove_bindings (closed_binding now addr) ml of
        (removed, ml') \<Rightarrow> (if removed = [] then None else Some removed, ml'))"

definition sweep_expired :: "instant \<Rightarrow> memory_locator \<Rightarrow> location list \<times> memory_locator" where
  "sweep_expired now ml = remove_bindings (\<lambda>l. is_expired_at l now) ml"

definition direct_hit :: "sip_api \<Rightarrow> sip_uri \<Rightarrow> location \<Rightarrow> bool" where
  "direct_hit api uri l \<longleftrightarrow>
     loc_aor l = uri \<or> uri_matches api (loc_aor l) uri \<or>
     (case loc_registered_aor l of Some r \<Rightarrow> r = uri \<or> uri_matches api r uri | None \<Rightarrow> False) \<or>
     (case loc_gruu l of
        Some gruu \<Rightarrow> gruu = sa_uri_str api uri \<or> eq_ignore_ascii_case gruu (sa_uri_str api uri)
      | None \<Rightarrow> False)"

definition user_realm_hit :: "memory_locator \<Rightarrow> string \<Rightarrow> string \<Rightarrow> sip_uri \<Rightarrow> bool" where
  "user_realm_hit ml username_lower realm aor \<longleftrightarrow>
     (case uri_user_opt aor of Some u \<Rightarrow> eq_ignore_ascii_case (trim u) username_lower | None \<Rightarrow> False) \<and>
     (ends_with realm ''.invalid'' \<or> realm_matches ml realm (trim (uri_host aor)))"

definition fallback_hit :: "memory_locator \<Rightarrow> string \<Rightarrow> string \<Rightarrow> location \<Rightarrow> bool" where
  "fallback_hit ml username_lower realm l \<longleftrightarrow>
     (case loc_registered_aor l of Some r \<Rightarrow> user_realm_hit ml username_lower realm r | None \<Rightarrow> False) \<or>
     user_realm_hit ml username_lower realm (loc_aor l)"

fun first_identity :: "memory_locator \<Rightarrow> string list \<Rightarrow> location list option" where
  "first_identity ml [] = None"
| "first_identity ml (ident # idents) =
     (case hm_get (ml_locations ml) ident of
        Some m \<Rightarrow> if m \<noteq> [] then Some (map snd m) else first_identity ml idents
      | None \<Rightarrow> first_identity ml idents)"

definition lookup_identifiers :: "memory_locator \<Rightarrow> string \<Rightarrow> string \<Rightarrow> string list" where
  "lookup_identifiers ml username realm =
     (if username = [] then []
      else (if realm \<noteq> [] then [ml_identifier ml username (Some realm)] else []) @
           [ml_identifier ml username (Some ''localhost''), ml_identifier ml username None])"

definition ml_lookup :: "sip_api \<Rightarrow> memory_locator \<Rightarrow> sip_uri \<Rightarrow> location list" where
  "ml_lookup api ml uri =
     (let locations = map (\<lambda>(ident, k, l). l) (all_bindings ml);
          direct_hits = filter (direct_hit api uri) locations;
          username = trim (case uri_user_opt uri of Some u \<Rightarrow> u | None \<Rightarrow> []);
          realm = trim (uri_host uri)
      in if direct_hits \<noteq> [] then sort_locations_by_recency api direct_hits
         else case first_identity ml (lookup_identifiers ml username realm) of
                Some results \<Rightarrow> sort_locations_by_recency api results
              | None \<Rightarrow>
                  if username = [] then []
                  else
                    let hits = filter (fallback_hit ml (to_ascii_lowercase username) realm) locations
                    in if hits \<noteq> [] then sort_locations_by_recency api hits else [])"

record locator_stats =
  lst_online_locations :: nat
  lst_online_users :: nat
  lst_by_transport :: "(transport, nat) hmap"
  lst_webrtc_locations :: nat
  lst_non_webrtc_locations :: nat

text \<open>The map of \<^verbatim>\<open>online_stats\<close> is keyed by the printed transport, here the transport itself.\<close>

definition count_location :: "location \<Rightarrow> locator_stats \<Rightarrow> locator_stats" where
  "count_location l st =
     (let st = st\<lparr>lst_online_locations := Suc (lst_online_locations st)\<rparr>;
          st = (case loc_transport l of
                  Some t \<Rightarrow> st\<lparr>lst_by_transport := hm_insert t
                    (Suc (case hm_get (lst_by_transport st) t of Some n \<Rightarrow> n | None \<Rightarrow> 0)) (lst_by_transport st)\<rparr>
                | None \<Rightarrow> st)
      in if loc_supports_webrtc l then st\<lparr>lst_webrtc_locations := Suc (lst_webrtc_locations st)\<rparr> else st)"

definition count_user :: "instant \<Rightarrow> (string, location) hmap \<Rightarrow> locator_stats \<Rightarrow> locator_stats" where
  "count_user now m st =
     (let online = filter (live now) (map snd m); st = fold count_location online st
      in if online \<noteq> [] then st\<lparr>lst_online_users := Suc (lst_online_users st)\<rparr> else st)"

definition online_stats :: "instant \<Rightarrow> memory_locator \<Rightarrow> locator_stats" where
  "online_stats now ml =
     (let st = fold (count_user now) (map snd (ml_locations ml))
            \<lparr>lst_online_locations = 0, lst_online_users = 0, lst_by_transport = [], lst_webrtc_locations = 0,
             lst_non_webrtc_locations = 0\<rparr>
      in st\<lparr>lst_non_webrtc_locations := lst_online_locations st - lst_webrtc_locations st\<rparr>)"

section \<open>Lost registrations\<close>

text \<open>\<^verbatim>\<open>locations_without_active_bindings\<close>: grouped by identity, in the order of the groups; a location
  without a registered user is skipped, and so is a group whose check fails (\<open>None\<close>).\<close>

definition group_location :: "location \<Rightarrow> ((string \<times> string option), location list) hmap \<Rightarrow>
    ((string \<times> string option), location list) hmap" where
  "group_location l g =
     (case loc_registered_username l of
        None \<Rightarrow> g
      | Some username \<Rightarrow>
          let key = (username, loc_registered_realm l)
          in hm_insert key ((case hm_get g key of Some ls \<Rightarrow> ls | None \<Rightarrow> []) @ [l]) g)"

definition locations_without_active_bindings :: "(string \<Rightarrow> string option \<Rightarrow> bool option) \<Rightarrow> location list \<Rightarrow>
    location list" where
  "locations_without_active_bindings active removed =
     concat (map (\<lambda>((username, realm), ls). if active username realm = Some False then ls else [])
       (fold group_location removed []))"

abbreviation ml_active :: "memory_locator \<Rightarrow> instant \<Rightarrow> string \<Rightarrow> string option \<Rightarrow> bool option" where
  "ml_active ml now u r \<equiv> Some (has_active_bindings ml now u r)"

definition sweep_offline_locations :: "instant \<Rightarrow> memory_locator \<Rightarrow> location list \<times> memory_locator" where
  "sweep_offline_locations now ml =
     (case sweep_expired now ml of
        (removed, ml') \<Rightarrow> (locations_without_active_bindings (ml_active ml' now) removed, ml'))"

text \<open>\<^verbatim>\<open>TransportInspectorLocator::handle\<close> on a closed connection, with the events it sends.\<close>

definition on_transport_closed :: "instant \<Rightarrow> sip_addr \<Rightarrow> memory_locator \<Rightarrow> locator_event list \<times> memory_locator" where
  "on_transport_closed now addr ml =
     (case unregister_with_address now addr ml of
        (Some removed, ml') \<Rightarrow>
          let offline = locations_without_active_bindings (ml_active ml' now) removed
          in (if offline \<noteq> [] then [Offline offline TransportClosed] else [], ml')
      | (None, ml') \<Rightarrow> ([], ml'))"

end
