(* ===== verification/Locator_Props.thy ===== *)
theory Locator_Props
  imports Locator
begin

text \<open>
  The in-memory locator as a map from identity and binding key to location: what each operation does
  to that map, the invariant of the store, and what a lookup returns.
\<close>

section \<open>Recency\<close>

definition recency_key :: "location \<Rightarrow> int" where
  "recency_key l = (case loc_last_modified l of Some t \<Rightarrow> - int t - 1 | None \<Rightarrow> 0)"

lemma compare_Less: "compare_location_recency a b = Less \<longleftrightarrow> recency_key a < recency_key b"
  by (simp add: compare_location_recency_def recency_key_def split: option.split)

lemma set_insert_by_recency [simp]: "set (insert_by_recency l ms) = insert l (set ms)"
  by (induction ms) auto

lemma set_sort_by_recency [simp]: "set (sort_by_recency ls) = set ls"
  by (induction ls) (simp_all add: sort_by_recency_def)

definition by_recency :: "location list \<Rightarrow> bool" where
  "by_recency ls \<longleftrightarrow> sorted_wrt (\<lambda>a b. recency_key a \<le> recency_key b) ls"

lemma by_recency_insert: "by_recency ms \<Longrightarrow> by_recency (insert_by_recency l ms)"
  by (induction ms) (auto simp: by_recency_def compare_Less)

lemma by_recency_sort: "by_recency (sort_by_recency ls)"
  by (induction ls) (simp_all add: sort_by_recency_def by_recency_insert, simp add: by_recency_def)

lemma retain_unseen_set: "set (retain_unseen api seen ls) \<subseteq> {l \<in> set ls. binding_key api l \<notin> seen}"
proof (induction ls arbitrary: seen)
  case (Cons l ls)
  from Cons [of seen] Cons [of "insert (binding_key api l) seen"] show ?case by auto
qed simp

lemma retain_unseen_distinct: "distinct (map (binding_key api) (retain_unseen api seen ls))"
  by (induction ls arbitrary: seen) (use retain_unseen_set in fastforce)+

lemma retain_unseen_sorted: "sorted_wrt R ls \<Longrightarrow> sorted_wrt R (retain_unseen api seen ls)"
  by (induction ls arbitrary: seen) (use retain_unseen_set in fastforce)+

lemma retain_unseen_covers:
  assumes "sorted_wrt (\<lambda>a b. recency_key a \<le> recency_key b) ls" "l \<in> set ls" "binding_key api l \<notin> seen"
  shows "\<exists>r \<in> set (retain_unseen api seen ls). binding_key api r = binding_key api l \<and> recency_key r \<le> recency_key l"
  using assms
proof (induction ls arbitrary: seen)
  case (Cons a ls)
  from Cons.IH [of seen] Cons.IH [of "insert (binding_key api a) seen"] Cons.prems show ?case
    by (cases "binding_key api a = binding_key api l") auto
qed simp

lemma sort_locations_props:
  "set (sort_locations_by_recency api ls) \<subseteq> set ls"
  "distinct (map (binding_key api) (sort_locations_by_recency api ls))"
  "by_recency (sort_locations_by_recency api ls)"
  "l \<in> set ls \<Longrightarrow> \<exists>r \<in> set (sort_locations_by_recency api ls).
     binding_key api r = binding_key api l \<and> recency_key r \<le> recency_key l"
  using by_recency_sort [of ls] retain_unseen_set [of api "{}" "sort_by_recency ls"]
    retain_unseen_covers [of "sort_by_recency ls" l api "{}"]
  by (auto simp: sort_locations_by_recency_def by_recency_def retain_unseen_distinct retain_unseen_sorted)

lemma sort_locations_latest:
  assumes "l \<in> set ls" "\<forall>m \<in> set ls. m = l \<or> recency_key l < recency_key m"
  shows "\<exists>rest. sort_locations_by_recency api ls = l # rest"
proof -
  have ne: "sort_by_recency ls \<noteq> []" using assms(1) by (metis empty_iff empty_set set_sort_by_recency)
  then obtain x xs where x: "sort_by_recency ls = x # xs" by (cases "sort_by_recency ls") auto
  have "x \<in> set ls" "l \<in> set (x # xs)" using x assms(1) by (metis set_sort_by_recency list.set_intros(1))+
  with by_recency_sort [of ls] x have "recency_key x \<le> recency_key l" by (auto simp: by_recency_def)
  with assms(2) \<open>x \<in> set ls\<close> have "x = l" by force
  with x show ?thesis by (simp add: sort_locations_by_recency_def)
qed

section \<open>The store as a map\<close>

definition binding :: "memory_locator \<Rightarrow> string \<Rightarrow> string \<Rightarrow> location option" where
  "binding ml ident key = Option.bind (hm_get (ml_locations ml) ident) (\<lambda>m. hm_get m key)"

definition store_ok :: "memory_locator \<Rightarrow> bool" where
  "store_ok ml \<longleftrightarrow> hm_ok (ml_locations ml) \<and>
     (\<forall>ident m. hm_get (ml_locations ml) ident = Some m \<longrightarrow> hm_ok m \<and> m \<noteq> [])"

lemma store_okD:
  "store_ok ml \<Longrightarrow> hm_ok (ml_locations ml)"
  "store_ok ml \<Longrightarrow> hm_get (ml_locations ml) ident = Some m \<Longrightarrow> hm_ok m"
  "store_ok ml \<Longrightarrow> hm_get (ml_locations ml) ident = Some m \<Longrightarrow> m \<noteq> []"
  by (simp_all add: store_ok_def)

lemma in_all_bindings:
  assumes "store_ok ml"
  shows "(ident, k, l) \<in> set (all_bindings ml) \<longleftrightarrow> binding ml ident k = Some l"
proof -
  have "(ident, k, l) \<in> set (all_bindings ml) \<longleftrightarrow> (\<exists>m. (ident, m) \<in> set (ml_locations ml) \<and> (k, l) \<in> set m)"
    by (force simp: all_bindings_def)
  also have "\<dots> \<longleftrightarrow> (\<exists>m. hm_get (ml_locations ml) ident = Some m \<and> hm_get m k = Some l)"
    using hm_in_get [OF store_okD(1) [OF assms]] hm_in_get [OF store_okD(2) [OF assms]] by metis
  finally show ?thesis by (auto simp: binding_def bind_eq_Some_conv)
qed

lemma in_stored:
  "store_ok ml \<Longrightarrow> l \<in> (\<lambda>(i, k, l). l) ` set (all_bindings ml) \<longleftrightarrow> (\<exists>i k. binding ml i k = Some l)"
  using in_all_bindings by force

lemma binding_update:
  "binding (update_bindings f i ml) j k =
     (if j = i then Option.bind (hm_get (ml_locations ml) i) (\<lambda>m. hm_get (f m) k) else binding ml j k)"
  by (auto simp: binding_def update_bindings_def split: option.split)

lemma store_ok_update:
  assumes "store_ok ml" "\<And>m. hm_ok m \<Longrightarrow> hm_ok (f m)"
  shows "store_ok (update_bindings f i ml)"
  using assms by (auto simp: store_ok_def update_bindings_def split: option.splits)

lemma store_ok_set:
  "store_ok ml \<Longrightarrow> hm_ok m \<Longrightarrow> m \<noteq> [] \<Longrightarrow> store_ok (ml\<lparr>ml_locations := hm_insert i m (ml_locations ml)\<rparr>)"
  by (simp add: store_ok_def)

lemma binding_set:
  "binding (ml\<lparr>ml_locations := hm_insert i m (ml_locations ml)\<rparr>) j k = (if j = i then hm_get m k else binding ml j k)"
  by (simp add: binding_def)

lemma hm_retain_Nil: "hm_retain P m = [] \<Longrightarrow> hm_get m k = Some v \<Longrightarrow> \<not> P k v"
  by (auto simp: hm_retain_def filter_empty_conv dest: hm_get_in)

lemma binding_remove:
  assumes "store_ok ml"
  shows "binding (snd (remove_bindings P ml)) i k =
    (case binding ml i k of Some l \<Rightarrow> if P l then None else Some l | None \<Rightarrow> None)"
proof -
  have "hm_ok (hm_map_values (\<lambda>_. hm_retain (\<lambda>_ l. \<not> P l)) (ml_locations ml))"
    using store_okD(1) [OF assms] by simp
  then show ?thesis
    using store_okD(2) [OF assms, of i]
    by (cases "hm_get (ml_locations ml) i")
      (auto simp: binding_def remove_bindings_def hm_get_retain hm_get_map_values
        dest: hm_retain_Nil split: option.splits)
qed

lemma store_ok_remove:
  assumes "store_ok ml"
  shows "store_ok (snd (remove_bindings P ml))"
proof -
  have "hm_ok (hm_map_values (\<lambda>_. hm_retain (\<lambda>_ l. \<not> P l)) (ml_locations ml))"
    using store_okD(1) [OF assms] by simp
  with assms show ?thesis
    by (auto simp: store_ok_def remove_bindings_def hm_get_retain hm_get_map_values split: option.splits if_splits)
qed

lemma removed_set:
  "store_ok ml \<Longrightarrow> l \<in> set (fst (remove_bindings P ml)) \<longleftrightarrow> P l \<and> (\<exists>i k. binding ml i k = Some l)"
  using in_stored [of ml l] by (auto simp: remove_bindings_def)

section \<open>Registration\<close>

lemma redirect_first_get:
  "hm_get (redirect_first P d m) k = Some l' \<Longrightarrow>
     \<exists>l. hm_get m k = Some l \<and> (l' = l \<or> l' = l\<lparr>loc_destination := Some d\<rparr>)"
  by (induction P d m rule: redirect_first.induct) (auto simp: hm_get_def split: if_splits)

lemma redirect_first_ok [simp]: "hm_ok (redirect_first P d m) = hm_ok m" "redirect_first P d m = [] \<longleftrightarrow> m = []"
proof -
  have "map fst (redirect_first P d m) = map fst m" by (induction P d m rule: redirect_first.induct) auto
  then show "hm_ok (redirect_first P d m) = hm_ok m" by (simp add: hm_ok_def)
  show "redirect_first P d m = [] \<longleftrightarrow> m = []" by (induction P d m rule: redirect_first.induct) auto
qed

lemma redirect_same_instance_get:
  "hm_get (redirect_same_instance api now key l0 m) k = Some l' \<Longrightarrow>
     \<exists>l. hm_get m k = Some l \<and> (l' = l \<or> l' = l\<lparr>loc_destination := loc_destination l0\<rparr>)"
  by (auto simp: redirect_same_instance_def split: option.splits dest: redirect_first_get)

lemma redirect_same_instance_ok [simp]:
  "hm_ok (redirect_same_instance api now key l m) = hm_ok m"
  "redirect_same_instance api now key l m = [] \<longleftrightarrow> m = []"
  by (simp_all add: redirect_same_instance_def split: option.split)

lemma update_checker [simp]:
  "ml_is_local_realm (update_bindings f i ml) = ml_is_local_realm ml"
  "ml_is_local_realm (ml\<lparr>ml_locations := x\<rparr>) = ml_is_local_realm ml"
  by (simp_all add: ml_is_local_realm_def update_bindings_def fun_eq_iff split: option.split)

text \<open>The location as a registration stores it.\<close>

definition stored_location :: "instant \<Rightarrow> string \<Rightarrow> string option \<Rightarrow> location \<Rightarrow> location" where
  "stored_location now username realm l =
     l\<lparr>loc_registered_username := Some username, loc_registered_realm := realm,
       loc_last_modified := Some (case loc_last_modified l of Some t \<Rightarrow> t | None \<Rightarrow> now)\<rparr>"

lemma binding_key_stored [simp]:
  "binding_key api (stored_location now username realm l) = binding_key api l"
  "binding_key api (l\<lparr>loc_registered_username := u, loc_registered_realm := r\<rparr>) = binding_key api l"
  "binding_key api (l\<lparr>loc_destination := d\<rparr>) = binding_key api l"
  by (simp_all add: binding_key_def stored_location_def split: option.split)

lemma stored_location_eq:
  "(if loc_last_modified l = None then l\<lparr>loc_registered_username := Some u, loc_registered_realm := r, loc_last_modified := Some now\<rparr>
    else l\<lparr>loc_registered_username := Some u, loc_registered_realm := r\<rparr>) = stored_location now u r l"
  by (cases l) (auto simp: stored_location_def)

definition pruned :: "instant \<Rightarrow> string \<Rightarrow> memory_locator \<Rightarrow> memory_locator" where
  "pruned now ident ml = update_bindings (hm_retain (\<lambda>_ l. live now l)) ident ml"

lemma pruned_ok [simp]: "store_ok ml \<Longrightarrow> store_ok (pruned now i ml)"
  unfolding pruned_def by (rule store_ok_update) simp_all

lemma binding_pruned:
  assumes "store_ok ml"
  shows "binding (pruned now i ml) j k = (case binding ml j k of
    None \<Rightarrow> None | Some l \<Rightarrow> if j = i \<and> \<not> live now l then None else Some l)"
  using store_okD(2) [OF assms, of i]
  by (cases "hm_get (ml_locations ml) i")
    (auto simp: pruned_def binding_update hm_get_retain, auto simp: binding_def split: option.splits)

lemma ml_register_unbinds:
  assumes "ml_identifier ml u r \<noteq> []" "loc_expires l = 0"
  shows "ml_register api now u r l ml
    = update_bindings (hm_remove (binding_key api l)) (ml_identifier ml u r) (pruned now (ml_identifier ml u r) ml)"
  using assms by (simp add: ml_register_def pruned_def Let_def)

definition redirected :: "sip_api \<Rightarrow> instant \<Rightarrow> string \<Rightarrow> location \<Rightarrow> memory_locator \<Rightarrow> memory_locator" where
  "redirected api now ident l ml =
     (case hm_get (ml_locations ml) ident of
        None \<Rightarrow> ml
      | Some m \<Rightarrow> ml\<lparr>ml_locations :=
          hm_insert ident (redirect_same_instance api now (binding_key api l) l m) (ml_locations ml)\<rparr>)"

lemma redirected_ok [simp]: "store_ok ml \<Longrightarrow> store_ok (redirected api now ident l ml)"
  by (auto simp: redirected_def store_ok_def split: option.split)

lemma binding_redirected:
  "binding (redirected api now ident l ml) j k = Some l' \<Longrightarrow>
     \<exists>l1. binding ml j k = Some l1 \<and> (l' = l1 \<or> j = ident \<and> l' = l1\<lparr>loc_destination := loc_destination l\<rparr>)"
  by (auto simp: redirected_def binding_def split: option.splits if_splits dest: redirect_same_instance_get)

lemma ml_register_binds:
  assumes "ml_identifier ml u r \<noteq> []" "loc_expires l \<noteq> 0"
  shows "ml_register api now u r l ml =
    (let ident = ml_identifier ml u r; ml1 = redirected api now ident l (pruned now ident ml)
     in ml1\<lparr>ml_locations := hm_insert ident (hm_insert (binding_key api l) (stored_location now u r l)
          (case hm_get (ml_locations ml1) ident of None \<Rightarrow> [] | Some m \<Rightarrow> m)) (ml_locations ml1)\<rparr>)"
proof -
  have inst: "redirect_same_instance api now key (l\<lparr>loc_registered_username := Some u, loc_registered_realm := r\<rparr>) m
      = redirect_same_instance api now key l m" for key m
    by (simp add: redirect_same_instance_def)
  show ?thesis
    using assms stored_location_eq [where l = l and u = u and r = r and now = now, symmetric]
    by (cases "hm_get (ml_locations (pruned now (ml_identifier ml u r) ml)) (ml_identifier ml u r)";
        cases "loc_last_modified l")
      (simp_all add: ml_register_def Let_def pruned_def [symmetric] redirected_def inst)
qed

lemma ml_register_checker: "ml_is_local_realm (ml_register api now u r l ml) = ml_is_local_realm ml"
  by (simp add: ml_register_def Let_def split: option.split)

lemma hm_insert_Nil [simp]: "hm_insert k v m \<noteq> []"
  by (cases m) (auto simp: hm_insert_def)

lemma ml_register_effect:
  assumes "store_ok ml" "ml_identifier ml u r \<noteq> []" "loc_expires l \<noteq> 0"
  shows "store_ok (ml_register api now u r l ml)"
    and "ml_is_local_realm (ml_register api now u r l ml) = ml_is_local_realm ml"
    and "binding (ml_register api now u r l ml) (ml_identifier ml u r) (binding_key api l)
      = Some (stored_location now u r l)"
    and "binding (ml_register api now u r l ml) j k = Some l' \<Longrightarrow>
      j = ml_identifier ml u r \<and> k = binding_key api l \<and> l' = stored_location now u r l \<or>
      (\<exists>l1. binding ml j k = Some l1 \<and> (l' = l1 \<or> l' = l1\<lparr>loc_destination := loc_destination l\<rparr>))"
proof -
  define ident where "ident = ml_identifier ml u r"
  define ml1 where "ml1 = redirected api now ident l (pruned now ident ml)"
  have ok: "store_ok ml1" using assms(1) by (simp add: ml1_def)
  have eq: "ml_register api now u r l ml = ml1\<lparr>ml_locations := hm_insert ident (hm_insert (binding_key api l)
      (stored_location now u r l) (case hm_get (ml_locations ml1) ident of None \<Rightarrow> [] | Some m \<Rightarrow> m)) (ml_locations ml1)\<rparr>"
    using ml_register_binds [OF assms(2,3), of api now] by (simp add: ident_def ml1_def Let_def)
  show "store_ok (ml_register api now u r l ml)"
    unfolding eq using store_okD(2) [OF ok, of ident] by (intro store_ok_set ok) (simp_all split: option.split)
  show "ml_is_local_realm (ml_register api now u r l ml) = ml_is_local_realm ml"
    by (rule ml_register_checker)
  show "binding (ml_register api now u r l ml) (ml_identifier ml u r) (binding_key api l)
      = Some (stored_location now u r l)"
    unfolding eq ident_def [symmetric] by (simp add: binding_set)
  show "j = ml_identifier ml u r \<and> k = binding_key api l \<and> l' = stored_location now u r l \<or>
      (\<exists>l1. binding ml j k = Some l1 \<and> (l' = l1 \<or> l' = l1\<lparr>loc_destination := loc_destination l\<rparr>))"
    if "binding (ml_register api now u r l ml) j k = Some l'"
  proof (cases "j = ident \<and> k = binding_key api l")
    case True
    with that show ?thesis unfolding eq ident_def [symmetric] by (simp add: binding_set)
  next
    case False
    with that have "binding ml1 j k = Some l'"
      unfolding eq by (auto simp: binding_set binding_def split: if_splits option.splits)
    from binding_redirected [OF this [unfolded ml1_def]] show ?thesis
      by (auto simp: binding_pruned [OF assms(1)] split: option.splits if_splits)
  qed
qed

section \<open>The invariant\<close>

definition bindings_ok :: "sip_api \<Rightarrow> memory_locator \<Rightarrow> bool" where
  "bindings_ok api ml \<longleftrightarrow>
     (\<forall>i k l. binding ml i k = Some l \<longrightarrow> k = binding_key api l \<and> loc_expires l \<noteq> 0 \<and>
        (\<exists>u. loc_registered_username l = Some u \<and> ml_identifier ml u (loc_registered_realm l) = i))"

definition locator_inv :: "sip_api \<Rightarrow> memory_locator \<Rightarrow> bool" where
  "locator_inv api ml \<longleftrightarrow> store_ok ml \<and> bindings_ok api ml"

lemma bindings_ok_subset:
  assumes "bindings_ok api ml" "ml_is_local_realm ml' = ml_is_local_realm ml"
    and "\<And>i k l. binding ml' i k = Some l \<Longrightarrow> binding ml i k = Some l"
  shows "bindings_ok api ml'"
  using assms unfolding bindings_ok_def by metis

datatype locator_op =
    OpRegister instant string "string option" location
  | OpUnregister string "string option"
  | OpClosed instant sip_addr
  | OpSweep instant

fun locator_apply :: "sip_api \<Rightarrow> locator_op \<Rightarrow> memory_locator \<Rightarrow> memory_locator" where
  "locator_apply api (OpRegister now u r l) ml = ml_register api now u r l ml"
| "locator_apply api (OpUnregister u r) ml = ml_unregister u r ml"
| "locator_apply api (OpClosed now addr) ml = snd (on_transport_closed now addr ml)"
| "locator_apply api (OpSweep now) ml = snd (sweep_offline_locations now ml)"

lemma register_inv:
  assumes "locator_inv api ml"
  shows "locator_inv api (ml_register api now u r l ml)"
proof -
  define ident where "ident = ml_identifier ml u r"
  have ok: "store_ok ml" "bindings_ok api ml" using assms by (simp_all add: locator_inv_def)
  consider "ident = []" | "ident \<noteq> []" "loc_expires l = 0" | "ident \<noteq> []" "loc_expires l \<noteq> 0" by blast
  then show ?thesis
  proof cases
    case 1
    with assms show ?thesis by (simp add: ml_register_def ident_def Let_def)
  next
    case 2
    let ?ml = "update_bindings (hm_remove (binding_key api l)) ident (pruned now ident ml)"
    have "store_ok ?ml" using ok(1) by (intro store_ok_update) simp_all
    moreover have "bindings_ok api ?ml"
    proof (rule bindings_ok_subset [OF ok(2)])
      show "ml_is_local_realm ?ml = ml_is_local_realm ml" by (simp add: pruned_def)
      show "binding ml i k = Some l'" if "binding ?ml i k = Some l'" for i k l'
      proof -
        from that have "binding (pruned now ident ml) i k = Some l'"
          unfolding binding_update by (auto simp: binding_def bind_eq_Some_conv split: if_splits)
        then show ?thesis by (auto simp: binding_pruned [OF ok(1)] split: option.splits if_splits)
      qed
    qed
    ultimately show ?thesis using ml_register_unbinds [of ml u r l] 2 by (simp add: locator_inv_def ident_def)
  next
    case 3
    note eff = ml_register_effect [OF ok(1) 3(1) [unfolded ident_def] 3(2), of api now]
    have "bindings_ok api (ml_register api now u r l ml)"
      unfolding bindings_ok_def eff(2)
    proof (intro allI impI)
      fix i k l'
      assume "binding (ml_register api now u r l ml) i k = Some l'"
      then consider "i = ident" "k = binding_key api l" "l' = stored_location now u r l"
        | l1 where "binding ml i k = Some l1" "l' = l1 \<or> l' = l1\<lparr>loc_destination := loc_destination l\<rparr>"
        using eff(4) unfolding ident_def by blast
      then show "k = binding_key api l' \<and> loc_expires l' \<noteq> 0 \<and>
          (\<exists>u. loc_registered_username l' = Some u \<and> ml_identifier ml u (loc_registered_realm l') = i)"
      proof cases
        case 1
        with 3 show ?thesis by (simp add: ident_def) (simp add: stored_location_def)
      next
        case 2
        with ok(2) show ?thesis by (auto simp: bindings_ok_def)
      qed
    qed
    with eff(1) show ?thesis by (simp add: locator_inv_def)
  qed
qed

lemma remove_checker [simp]: "ml_is_local_realm (snd (remove_bindings P ml)) = ml_is_local_realm ml"
  by (simp add: remove_bindings_def)

lemma remove_inv: "locator_inv api ml \<Longrightarrow> locator_inv api (snd (remove_bindings P ml))"
  unfolding locator_inv_def
  by (auto intro: store_ok_remove bindings_ok_subset simp: binding_remove split: option.splits if_splits)

lemma unregister_inv: "locator_inv api ml \<Longrightarrow> locator_inv api (ml_unregister u r ml)"
  unfolding locator_inv_def
  by (auto simp: ml_unregister_def Let_def store_ok_def elim!: bindings_ok_subset)
    (auto simp: binding_def split: if_splits)

lemma closed_store: "snd (on_transport_closed now addr ml) = snd (remove_bindings (closed_binding now addr) ml)"
  by (simp add: on_transport_closed_def unregister_with_address_def Let_def split: prod.split)

lemma sweep_store: "snd (sweep_offline_locations now ml) = snd (remove_bindings (\<lambda>l. is_expired_at l now) ml)"
  by (simp add: sweep_offline_locations_def sweep_expired_def split: prod.split)

interpretation locator_machine: event_machine "locator_apply api" "locator_inv api" for api
proof
  fix op ml
  assume "locator_inv api ml"
  then show "locator_inv api (locator_apply api op ml)"
    by (cases op) (simp_all add: register_inv unregister_inv closed_store sweep_store remove_inv)
qed

text \<open>C37. After any sequence of registrations, unregistrations, closed transports and sweeps, every
  identity in the store has a binding, every binding is filed once, under its own key and under the
  identity of the user and realm that registered it, and none has a zero expiry.\<close>

theorem locator_bindings_filed:
  assumes "hm_get (ml_locations (fold (locator_apply api) ops (memory_locator_new\<lparr>ml_realm_checker := check\<rparr>))) ident
    = Some m"
  shows "m \<noteq> [] \<and> distinct (map fst m) \<and>
    (\<forall>(k, l) \<in> set m. k = binding_key api l \<and> loc_expires l \<noteq> 0 \<and>
       (\<exists>u. loc_registered_username l = Some u \<and>
          ident = get_identifier (ml_is_local_realm (memory_locator_new\<lparr>ml_realm_checker := check\<rparr>)) u (loc_registered_realm l)))"
proof -
  let ?start = "memory_locator_new\<lparr>ml_realm_checker := check\<rparr>"
  let ?ml = "fold (locator_apply api) ops ?start"
  have "locator_inv api ?start"
    by (simp add: locator_inv_def store_ok_def bindings_ok_def memory_locator_new_def binding_def)
  then have inv: "store_ok ?ml" "bindings_ok api ?ml"
    using locator_machine.run_inv [where s = ?start and es = ops and api = api] by (simp_all only: locator_inv_def)
  have same: "ml_is_local_realm (fold (locator_apply api) ops ml) = ml_is_local_realm ml" for ml
  proof (induction ops arbitrary: ml)
    case (Cons op ops)
    have "ml_is_local_realm (locator_apply api op ml) = ml_is_local_realm ml"
      by (cases op) (simp_all add: closed_store sweep_store ml_unregister_def ml_register_checker Let_def)
    with Cons show ?case by simp
  qed simp
  have "binding ?ml ident k = Some l" if "(k, l) \<in> set m" for k l
    using that assms store_okD(2) [OF inv(1) assms] by (simp add: binding_def hm_in_get)
  with inv(2) store_okD(2,3) [OF inv(1) assms] show ?thesis
    unfolding bindings_ok_def same by (fastforce simp: hm_ok_def)
qed

section \<open>Lookup\<close>

definition stored :: "memory_locator \<Rightarrow> location set" where
  "stored ml = (\<lambda>(i, k, l). l) ` set (all_bindings ml)"

lemma stored_iff: "store_ok ml \<Longrightarrow> l \<in> stored ml \<longleftrightarrow> (\<exists>i k. binding ml i k = Some l)"
  unfolding stored_def by (rule in_stored)

lemma first_identity_stored:
  "first_identity ml ids = Some ls \<Longrightarrow> set ls \<subseteq> stored ml"
proof (induction ids)
  case (Cons i ids)
  have "set (map snd m) \<subseteq> stored ml" if "hm_get (ml_locations ml) i = Some m" for m
    using hm_get_in [OF that] by (force simp: all_bindings_def stored_def)
  with Cons show ?case by (auto split: option.splits if_splits)
qed simp

lemma lookup_sorts:
  "\<exists>ls. ml_lookup api ml uri = sort_locations_by_recency api ls \<and> set ls \<subseteq> stored ml \<and>
     {l \<in> stored ml. direct_hit api uri l} \<subseteq> set ls"
proof (cases "filter (direct_hit api uri) (map (\<lambda>(i, k, l). l) (all_bindings ml)) = []")
  case False
  then show ?thesis
    by (intro exI [of _ "filter (direct_hit api uri) (map (\<lambda>(i, k, l). l) (all_bindings ml))"])
      (auto simp: ml_lookup_def stored_def Let_def)
next
  case True
  then have none: "{l \<in> stored ml. direct_hit api uri l} = {}"
    by (auto simp: filter_empty_conv stored_def)
  define user where "user = trim (case uri_user_opt uri of Some u \<Rightarrow> u | None \<Rightarrow> [])"
  define hits where "hits = filter (fallback_hit ml (to_ascii_lowercase user) (trim (uri_host uri)))
    (map (\<lambda>(i, k, l). l) (all_bindings ml))"
  have nil: "sort_locations_by_recency api [] = []" by (simp add: sort_locations_by_recency_def sort_by_recency_def)
  have "ml_lookup api ml uri = (case first_identity ml (lookup_identifiers ml user (trim (uri_host uri))) of
      Some results \<Rightarrow> sort_locations_by_recency api results
    | None \<Rightarrow> if user = [] then [] else sort_locations_by_recency api hits)"
    using True nil by (simp add: ml_lookup_def Let_def user_def hits_def split: option.split)
  moreover have "set hits \<subseteq> stored ml" by (auto simp: hits_def stored_def)
  ultimately have "ml_lookup api ml uri = sort_locations_by_recency api ls \<and> set ls \<subseteq> stored ml"
    if "ls = (case first_identity ml (lookup_identifiers ml user (trim (uri_host uri))) of
      Some results \<Rightarrow> results | None \<Rightarrow> if user = [] then [] else hits)" for ls
    using that nil first_identity_stored [of ml "lookup_identifiers ml user (trim (uri_host uri))"]
    by (auto split: option.splits)
  from this [OF refl] none show ?thesis by (intro exI conjI) (assumption | blast)+
qed

text \<open>What a lookup returns: bindings of the store only, latest first, and no two with the same
  key. A binding whose contact, registered address or GRUU is the URI is among them, or is
  represented by an equally recent or later one with its key.\<close>

theorem lookup_results:
  "set (ml_lookup api ml uri) \<subseteq> stored ml \<and>
    distinct (map (binding_key api) (ml_lookup api ml uri)) \<and> by_recency (ml_lookup api ml uri) \<and>
    (\<forall>l \<in> stored ml. direct_hit api uri l \<longrightarrow>
      (\<exists>r \<in> set (ml_lookup api ml uri). binding_key api r = binding_key api l \<and> recency_key r \<le> recency_key l))"
proof -
  obtain ls where "ml_lookup api ml uri = sort_locations_by_recency api ls" "set ls \<subseteq> stored ml"
    "{l \<in> stored ml. direct_hit api uri l} \<subseteq> set ls"
    using lookup_sorts by blast
  with sort_locations_props [where api = api and ls = ls] show ?thesis by (metis (no_types, lifting) mem_Collect_eq subset_iff)
qed

lemma registered_leads:
  assumes "locator_inv api ml" "ml_identifier ml u r \<noteq> []" "loc_expires l \<noteq> 0"
    and "loc_last_modified l = None \<or> loc_last_modified l = Some now"
    and "\<And>old t. old \<in> stored ml \<Longrightarrow> loc_last_modified old = Some t \<Longrightarrow> t < now"
    and "direct_hit api uri (stored_location now u r l)"
  shows "\<exists>rest. ml_lookup api (ml_register api now u r l ml) uri
    = l\<lparr>loc_registered_username := Some u, loc_registered_realm := r, loc_last_modified := Some now\<rparr> # rest"
proof -
  define ml' where "ml' = ml_register api now u r l ml"
  define new where "new = stored_location now u r l"
  have ok: "store_ok ml" using assms(1) by (simp add: locator_inv_def)
  note eff = ml_register_effect [OF ok assms(2,3), of api now, folded ml'_def new_def]
  have new: "new = l\<lparr>loc_registered_username := Some u, loc_registered_realm := r, loc_last_modified := Some now\<rparr>"
    using assms(4) by (auto simp: new_def stored_location_def)
  have "new \<in> stored ml'" using eff(1,3) by (auto simp: stored_iff)
  moreover have "direct_hit api uri new" using assms(6) by (simp add: new_def)
  moreover have "m = new \<or> recency_key new < recency_key m" if m: "m \<in> stored ml'" for m
  proof -
    from m eff(1) obtain j k where "binding ml' j k = Some m" by (auto simp: stored_iff)
    from eff(4) [OF this] have "m = new \<or> (\<exists>old. binding ml j k = Some old \<and> loc_last_modified m = loc_last_modified old)"
      by auto
    then consider "m = new" | old where "old \<in> stored ml" "loc_last_modified m = loc_last_modified old"
      unfolding stored_iff [OF ok] by blast
    then show ?thesis
    proof cases
      case 2
      with assms(5) [of old] have "loc_last_modified m = Some t \<Longrightarrow> t < now" for t by simp
      then show ?thesis by (cases "loc_last_modified m") (simp_all add: recency_key_def new)
    qed simp
  qed
  moreover obtain ls where ls: "ml_lookup api ml' uri = sort_locations_by_recency api ls" "set ls \<subseteq> stored ml'"
    "{m \<in> stored ml'. direct_hit api uri m} \<subseteq> set ls"
    using lookup_sorts by blast
  ultimately have "\<exists>rest. sort_locations_by_recency api ls = new # rest"
    by (intro sort_locations_latest) auto
  with ls(1) new show ?thesis by (simp add: ml'_def)
qed

text \<open>A registration is found: once a user has registered a contact, a lookup of that contact
  returns the new binding first, if every binding stored before is dated earlier.\<close>

theorem register_found_first:
  assumes "locator_inv api ml" "ml_identifier ml u r \<noteq> []" "loc_expires l \<noteq> 0"
    and "loc_last_modified l = None \<or> loc_last_modified l = Some now"
    and "\<And>old t. old \<in> stored ml \<Longrightarrow> loc_last_modified old = Some t \<Longrightarrow> t < now"
  shows "\<exists>rest. ml_lookup api (ml_register api now u r l ml) (loc_aor l)
    = l\<lparr>loc_registered_username := Some u, loc_registered_realm := r, loc_last_modified := Some now\<rparr> # rest"
  using assms(4) by (intro registered_leads assms) (auto simp: direct_hit_def stored_location_def)

section \<open>Presence\<close>

lemma has_active_iff:
  assumes "store_ok ml"
  shows "has_active_bindings ml now u r \<longleftrightarrow> ml_identifier ml u r \<noteq> [] \<and>
    (\<exists>k l. binding ml (ml_identifier ml u r) k = Some l \<and> live now l)"
proof (cases "hm_get (ml_locations ml) (ml_identifier ml u r)")
  case None
  then show ?thesis by (simp add: has_active_bindings_def binding_def Let_def)
next
  case (Some m)
  with store_okD(2) [OF assms Some] have "(\<exists>l \<in> set (map snd m). live now l) \<longleftrightarrow> (\<exists>k l. hm_get m k = Some l \<and> live now l)"
    by (force simp: hm_in_get [symmetric])
  with Some show ?thesis by (simp add: has_active_bindings_def binding_def Let_def)
qed

text \<open>The offline watchdog never misses a live registration: a user who has an active binding
  under any realm is seen by the check across realms.\<close>

theorem active_user_seen:
  assumes "has_active_bindings ml now u r"
  shows "has_active_binding_for_user ml now u"
proof -
  define ident where "ident = ml_identifier ml u r"
  from assms obtain m k l where m: "ident \<noteq> []" "hm_get (ml_locations ml) ident = Some m" "(k, l) \<in> set m" "live now l"
    by (auto simp: has_active_bindings_def ident_def Let_def split: option.splits if_splits)
  then have "(ident, k, l) \<in> set (all_bindings ml)"
    using hm_get_in [OF m(2)] by (force simp: all_bindings_def)
  moreover have "to_ascii_lowercase (trim u) \<noteq> []" "ident = to_ascii_lowercase (trim u) \<or>
      starts_with ident (to_ascii_lowercase (trim u) @ ''@'')"
    using m(1) by (auto simp: ident_def get_identifier_def Let_def starts_with_def split: option.splits if_splits)
  ultimately show ?thesis using m(4) by (fastforce simp: has_active_binding_for_user_def Let_def)
qed

end
