(* ===== verification/Locator_Runs.thy ===== *)
theory Locator_Runs
  imports Locator_Props
begin

text \<open>
  Lost registrations: which bindings a closed transport and the expiry sweep remove, and for whom
  an offline event is sent.
\<close>

section \<open>Groups\<close>

definition owner_key :: "location \<Rightarrow> (string \<times> string option) option" where
  "owner_key l = map_option (\<lambda>u. (u, loc_registered_realm l)) (loc_registered_username l)"

lemma group_location_get:
  "(case hm_get (group_location l g) key of Some ls \<Rightarrow> ls | None \<Rightarrow> []) =
     (case hm_get g key of Some ls \<Rightarrow> ls | None \<Rightarrow> []) @ (if owner_key l = Some key then [l] else [])"
  by (cases "loc_registered_username l") (auto simp: group_location_def owner_key_def Let_def)

lemma fold_group_get:
  "(case hm_get (fold group_location ls g) key of Some x \<Rightarrow> x | None \<Rightarrow> []) =
     (case hm_get g key of Some x \<Rightarrow> x | None \<Rightarrow> []) @ filter (\<lambda>l. owner_key l = Some key) ls"
  by (induction ls arbitrary: g) (simp_all add: group_location_get)

lemma fold_group_ok: "hm_ok g \<Longrightarrow> hm_ok (fold group_location ls g)"
  by (induction ls arbitrary: g) (simp_all add: group_location_def Let_def split: option.split)

lemma in_concat_groups:
  "l \<in> set (concat (map (\<lambda>((u, r), ls). if P u r = Some False then ls else []) g)) \<longleftrightarrow>
     (\<exists>((u, r), ls) \<in> set g. l \<in> set ls \<and> P u r = Some False)"
  by (induction g) (auto split: if_splits)

text \<open>A location is reported exactly if it was removed and its user has no active binding.\<close>

lemma offline_iff:
  "l \<in> set (locations_without_active_bindings active removed) \<longleftrightarrow>
     l \<in> set removed \<and> (\<exists>u. loc_registered_username l = Some u \<and>
       active u (loc_registered_realm l) = Some False)"
proof -
  let ?g = "fold group_location removed []"
  have get: "ls = filter (\<lambda>l. owner_key l = Some key) removed" if "hm_get ?g key = Some ls" for key ls
    using fold_group_get [of removed "[]" key] that by simp
  have some: "\<exists>ls. hm_get ?g key = Some ls \<and> l \<in> set ls" if "owner_key l = Some key" "l \<in> set removed" for key l
  proof -
    have "l \<in> set (case hm_get ?g key of Some x \<Rightarrow> x | None \<Rightarrow> [])"
      using fold_group_get [of removed "[]" key] that by simp
    then show ?thesis by (cases "hm_get ?g key") auto
  qed
  have mem: "(key, ls) \<in> set ?g \<longleftrightarrow> hm_get ?g key = Some ls" for key ls
    by (rule hm_in_get [OF fold_group_ok]) simp
  have "l \<in> set (locations_without_active_bindings active removed) \<longleftrightarrow>
      (\<exists>((u, r), ls) \<in> set ?g. l \<in> set ls \<and> active u r = Some False)"
    unfolding locations_without_active_bindings_def by (rule in_concat_groups)
  also have "\<dots> \<longleftrightarrow> (\<exists>u r ls. hm_get ?g (u, r) = Some ls \<and> l \<in> set ls \<and> active u r = Some False)"
    by (auto simp: mem) blast
  also have "\<dots> \<longleftrightarrow> (\<exists>u r. l \<in> set removed \<and> owner_key l = Some (u, r) \<and> active u r = Some False)"
    (is "?L \<longleftrightarrow> ?R")
  proof
    assume ?L
    then obtain u r ls where "hm_get ?g (u, r) = Some ls" "l \<in> set ls" "active u r = Some False" by blast
    with get [OF this(1)] show ?R by auto
  next
    assume ?R
    with some show ?L by blast
  qed
  finally show ?thesis by (auto simp: owner_key_def)
qed

lemma offline_Nil: "locations_without_active_bindings active [] = []"
  by (simp add: locations_without_active_bindings_def)

section \<open>Closed transports\<close>

text \<open>C39. When a connection closes, exactly the bindings that reach their client through it and were
  registered more than the grace period ago are removed; every other binding stays. The event
  reports exactly the removed bindings whose user has no active binding left, and none is sent if
  there is no such user.\<close>

theorem closed_transport_exact:
  assumes "locator_inv api ml" "on_transport_closed now addr ml = (events, ml')"
  shows "binding ml' i k = (case binding ml i k of
        Some l \<Rightarrow> if loc_destination l = Some addr \<and>
            (\<forall>lm. loc_last_modified l = Some lm \<longrightarrow> lm + 5 * 10 ^ 9 < now) then None else Some l
      | None \<Rightarrow> None) \<and>
    (events = [] \<or> (\<exists>ls. ls \<noteq> [] \<and> events = [Offline ls TransportClosed])) \<and>
    ((\<exists>ls r. Offline ls r \<in> set events \<and> l \<in> set ls) \<longleftrightarrow>
      (\<exists>i k. binding ml i k = Some l \<and> binding ml' i k = None) \<and>
      (\<exists>u. loc_registered_username l = Some u \<and> \<not> has_active_bindings ml' now u (loc_registered_realm l)))"
proof -
  have ok: "store_ok ml" using assms(1) by (simp add: locator_inv_def)
  have ml': "ml' = snd (remove_bindings (closed_binding now addr) ml)"
    using assms(2) closed_store [of now addr ml] by simp
  obtain removed where pair: "remove_bindings (closed_binding now addr) ml = (removed, ml')"
    using ml' by (metis prod.collapse)
  have events: "events = (let ls = locations_without_active_bindings (ml_active ml' now) removed
      in if ls \<noteq> [] then [Offline ls TransportClosed] else [])"
    using assms(2) offline_Nil unfolding on_transport_closed_def unregister_with_address_def pair
    by (auto simp: Let_def split: if_splits)
  have closed: "closed_binding now addr x \<longleftrightarrow> loc_destination x = Some addr \<and>
      (\<forall>lm. loc_last_modified x = Some lm \<longrightarrow> lm + 5 * 10 ^ 9 < now)" for x
    by (auto simp: closed_binding_def unregister_grace_secs_def from_secs_def ns_per_sec_def split: option.splits)
  have bind: "binding ml' i k = (case binding ml i k of Some l \<Rightarrow> if closed_binding now addr l then None else Some l
      | None \<Rightarrow> None)" for i k
    by (simp add: ml' binding_remove [OF ok])
  have gone: "closed_binding now addr x \<and> (\<exists>i k. binding ml i k = Some x) \<longleftrightarrow>
      (\<exists>i k. binding ml i k = Some x \<and> binding ml' i k = None)" for x
  proof -
    have "binding ml' i k = None \<longleftrightarrow> closed_binding now addr x" if "binding ml i k = Some x" for i k
      using that by (simp add: bind)
    then show ?thesis by blast
  qed
  have "(\<exists>ls r. Offline ls r \<in> set events \<and> l \<in> set ls) \<longleftrightarrow>
      l \<in> set (locations_without_active_bindings (ml_active ml' now) removed)"
    by (auto simp: events Let_def)
  also have "\<dots> \<longleftrightarrow> (\<exists>i k. binding ml i k = Some l \<and> binding ml' i k = None) \<and>
      (\<exists>u. loc_registered_username l = Some u \<and> \<not> has_active_bindings ml' now u (loc_registered_realm l))"
    using removed_set [OF ok, where P = "closed_binding now addr"] gone [of l] by (simp add: offline_iff pair)
  finally have reported: "(\<exists>ls r. Offline ls r \<in> set events \<and> l \<in> set ls) \<longleftrightarrow>
      (\<exists>i k. binding ml i k = Some l \<and> binding ml' i k = None) \<and>
      (\<exists>u. loc_registered_username l = Some u \<and> \<not> has_active_bindings ml' now u (loc_registered_realm l))" .
  have "events = [] \<or> (\<exists>ls. ls \<noteq> [] \<and> events = [Offline ls TransportClosed])"
    by (simp add: events Let_def)
  with bind [of i k, unfolded closed] reported show ?thesis by (intro conjI)
qed

section \<open>Expiry\<close>

text \<open>The sweep removes exactly the expired bindings, reports exactly those of them whose user
  has no active binding, and changes no user's presence.\<close>

theorem sweep_exact:
  assumes "locator_inv api ml" "sweep_offline_locations now ml = (offline, ml')"
  shows "binding ml' i k = (case binding ml i k of
        Some l \<Rightarrow> if is_expired_at l now then None else Some l | None \<Rightarrow> None) \<and>
    (l \<in> set offline \<longleftrightarrow> (\<exists>i k. binding ml i k = Some l) \<and> is_expired_at l now \<and>
      (\<exists>u. loc_registered_username l = Some u \<and> \<not> has_active_bindings ml now u (loc_registered_realm l))) \<and>
    has_active_bindings ml' now u r = has_active_bindings ml now u r"
proof -
  have ok: "store_ok ml" using assms(1) by (simp add: locator_inv_def)
  have ml': "ml' = snd (remove_bindings (\<lambda>l. is_expired_at l now) ml)"
    using assms(2) sweep_store [of now ml] by simp
  have ok': "store_ok ml'" unfolding ml' by (rule store_ok_remove [OF ok])
  have bind: "binding ml' i k = (case binding ml i k of
        Some l \<Rightarrow> if is_expired_at l now then None else Some l | None \<Rightarrow> None)" for i k
    by (simp add: ml' binding_remove [OF ok])
  have same: "ml_is_local_realm ml' = ml_is_local_realm ml" by (simp add: ml')
  have active: "has_active_bindings ml' now u r = has_active_bindings ml now u r" for u r
    unfolding has_active_iff [OF ok] has_active_iff [OF ok']
    by (auto simp: bind same live_def split: option.splits if_splits)
  have "offline = locations_without_active_bindings (ml_active ml' now) (fst (remove_bindings (\<lambda>l. is_expired_at l now) ml))"
    using assms(2) ml' by (auto simp: sweep_offline_locations_def sweep_expired_def split: prod.splits)
  then have "l \<in> set offline \<longleftrightarrow> (\<exists>i k. binding ml i k = Some l) \<and> is_expired_at l now \<and>
      (\<exists>u. loc_registered_username l = Some u \<and> \<not> has_active_bindings ml now u (loc_registered_realm l))"
    by (auto simp: offline_iff removed_set [OF ok] active)
  with bind active show ?thesis by simp
qed

section \<open>Witnesses\<close>

definition demo_loc_api :: sip_api where
  "demo_loc_api = \<lparr>sa_parse_uri = (\<lambda>_. None), sa_uri_str = (\<lambda>u. uri_user u @ ''@'' @ uri_host u),
     sa_parse_hostport = (\<lambda>_. None), sa_addr_str = (\<lambda>h. hp_host h)\<rparr>"

definition demo_contact :: sip_uri where
  "demo_contact = \<lparr>uri_scheme = Some Sip, uri_auth = Some \<lparr>au_user = ''bob'', au_password = None\<rparr>,
     uri_host_with_port = \<lparr>hp_host = ''h'', hp_port = None\<rparr>, uri_params = []\<rparr>"

definition demo_dest :: sip_addr where
  "demo_dest = \<lparr>sad_type = None, sad_addr = \<lparr>hp_host = ''h'', hp_port = None\<rparr>\<rparr>"

definition demo_location :: location where
  "demo_location = (location_of demo_contact)\<lparr>loc_expires := 60, loc_destination := Some demo_dest\<rparr>"

definition demo_bound :: location where
  "demo_bound = demo_location\<lparr>loc_registered_username := Some ''bob'', loc_registered_realm := None,
     loc_last_modified := Some 7\<rparr>"

definition demo_store :: memory_locator where
  "demo_store = \<lparr>ml_locations = [(''bob'', [(''bob@h'', demo_bound)])], ml_realm_checker = None\<rparr>"

lemma demo_key: "binding_key demo_loc_api demo_bound = ''bob@h''" "binding_key demo_loc_api demo_location = ''bob@h''"
  by (simp_all add: binding_key_def demo_bound_def demo_location_def demo_loc_api_def demo_contact_def location_of_def
      uri_user_def)

lemma demo_identifier: "ml_identifier ml ''bob'' None = ''bob''"
  by (simp add: get_identifier_def trim_def trim_start_def trim_end_def is_white_def code_def to_ascii_lowercase_def
      ascii_lower_def)

lemma demo_registered: "ml_register demo_loc_api 7 ''bob'' None demo_location memory_locator_new = demo_store"
proof -
  have "stored_location 7 ''bob'' None demo_location = demo_bound"
    by (simp add: stored_location_def demo_bound_def demo_location_def location_of_def)
  moreover have "loc_expires demo_location \<noteq> 0" by (simp add: demo_location_def)
  ultimately show ?thesis
    by (subst ml_register_binds) (simp_all add: demo_identifier demo_key Let_def redirected_def pruned_def
        update_bindings_def memory_locator_new_def demo_store_def hm_insert_def)
qed

lemma demo_store_inv: "locator_inv demo_loc_api demo_store"
proof -
  have "locator_inv demo_loc_api memory_locator_new"
    by (simp add: locator_inv_def store_ok_def bindings_ok_def memory_locator_new_def binding_def)
  from register_inv [OF this, of 7 "''bob''" None demo_location] show ?thesis by (simp add: demo_registered)
qed

lemma demo_binding: "binding demo_store ''bob'' ''bob@h'' = Some demo_bound"
  by (simp add: binding_def demo_store_def hm_get_def)

theorem locator_bindings_filed_witness:
  "[(''bob@h'', demo_bound)] \<noteq> [] \<and> ''bob@h'' = binding_key demo_loc_api demo_bound \<and> loc_expires demo_bound \<noteq> 0"
proof -
  have "hm_get (ml_locations (fold (locator_apply demo_loc_api) [OpRegister 7 ''bob'' None demo_location]
      (memory_locator_new\<lparr>ml_realm_checker := None\<rparr>))) ''bob'' = Some [(''bob@h'', demo_bound)]"
    using demo_registered by (simp add: memory_locator_new_def demo_store_def hm_get_def)
  from locator_bindings_filed [OF this] show ?thesis by simp
qed

theorem closed_transport_exact_witness:
  "binding (snd (on_transport_closed 6000000007 demo_dest demo_store)) ''bob'' ''bob@h'' = None"
proof -
  obtain events ml' where e: "on_transport_closed 6000000007 demo_dest demo_store = (events, ml')" by fastforce
  have "loc_destination demo_bound = Some demo_dest" "loc_last_modified demo_bound = Some 7"
    by (simp_all add: demo_bound_def demo_location_def)
  with closed_transport_exact [OF demo_store_inv e, of "''bob''" "''bob@h''"] e demo_binding show ?thesis by simp
qed

end
