(* ===== verification/Dialog_Locator.thy ===== *)
theory Dialog_Locator
  imports Locator_Runs
begin

text \<open>
  Where an in-dialog request goes: \<^verbatim>\<open>DialogTargetLocator\<close> of \<^verbatim>\<open>src/src/proxy/locator.rs\<close>. The locator
  behind it is a parameter (any backend of the trait), as are the transport parameter and default
  port of a URI and its conversion to an address.
\<close>

record dialog_target_locator =
  dt_lookup :: "sip_uri \<Rightarrow> location list option"
  dt_local_addrs :: "sip_addr list"
  dt_cluster_enabled :: bool
  dt_addr_str :: "host_with_port \<Rightarrow> string"
  dt_uri_str :: "sip_uri \<Rightarrow> string"
  dt_uri_transport :: "sip_uri \<Rightarrow> transport option"
  dt_default_port :: "transport \<Rightarrow> u16"
  dt_uri_addr :: "sip_uri \<Rightarrow> sip_addr option"

definition is_local_home_proxy :: "dialog_target_locator \<Rightarrow> sip_addr \<Rightarrow> bool" where
  "is_local_home_proxy dt home_proxy \<longleftrightarrow>
     (\<exists>addr \<in> set (dt_local_addrs dt). dt_addr_str dt (sad_addr addr) = dt_addr_str dt (sad_addr home_proxy))"

definition is_exact_contact :: "location \<Rightarrow> sip_uri \<Rightarrow> bool" where
  "is_exact_contact l uri \<longleftrightarrow> loc_aor l = uri"

definition effective_port :: "dialog_target_locator \<Rightarrow> sip_uri \<Rightarrow> u16" where
  "effective_port dt uri =
     (case hp_port (uri_host_with_port uri) of
        Some p \<Rightarrow> p
      | None \<Rightarrow>
          dt_default_port dt (case dt_uri_transport dt uri of
              Some t \<Rightarrow> t
            | None \<Rightarrow> if uri_scheme uri = Some Sips then Tls else Udp))"

definition is_registered_aor :: "dialog_target_locator \<Rightarrow> location \<Rightarrow> sip_uri \<Rightarrow> bool" where
  "is_registered_aor dt l uri \<longleftrightarrow>
     (case loc_registered_aor l of
        None \<Rightarrow> False
      | Some r \<Rightarrow>
          uri_scheme r = uri_scheme uri \<and> uri_user_opt r = uri_user_opt uri \<and>
          eq_ignore_ascii_case (uri_host r) (uri_host uri) \<and> effective_port dt r = effective_port dt uri)"

definition is_gruu :: "dialog_target_locator \<Rightarrow> location \<Rightarrow> sip_uri \<Rightarrow> bool" where
  "is_gruu dt l uri \<longleftrightarrow>
     (case loc_gruu l of
        None \<Rightarrow> False
      | Some gruu \<Rightarrow> gruu = dt_uri_str dt uri \<or> eq_ignore_ascii_case gruu (dt_uri_str dt uri))"

definition is_home_proxy_target :: "location \<Rightarrow> sip_uri \<Rightarrow> bool" where
  "is_home_proxy_target l uri \<longleftrightarrow>
     (case (loc_home_proxy l, loc_registered_aor l) of
        (Some home_proxy, Some r) \<Rightarrow>
          uri_user_opt r = uri_user_opt uri \<and> sad_addr home_proxy = uri_host_with_port uri
      | _ \<Rightarrow> False)"

text \<open>The candidates: those of the best class that occurs.\<close>

definition dialog_candidates :: "dialog_target_locator \<Rightarrow> sip_uri \<Rightarrow> location list \<Rightarrow> location list" where
  "dialog_candidates dt uri locs =
     (let has_exact_contact = (\<exists>l \<in> set locs. is_exact_contact l uri);
          has_registered_aor = (\<not> has_exact_contact \<and> (\<exists>l \<in> set locs. is_registered_aor dt l uri));
          has_gruu = (\<not> has_exact_contact \<and> \<not> has_registered_aor \<and> (\<exists>l \<in> set locs. is_gruu dt l uri));
          is_invalid_contact = is_webrtc_invalid_host (uri_host uri)
      in filter (\<lambda>l.
           if has_exact_contact then is_exact_contact l uri
           else if has_registered_aor then is_registered_aor dt l uri
           else if has_gruu then is_gruu dt l uri
           else if is_invalid_contact then True
           else is_home_proxy_target l uri) locs)"

definition forwards_home :: "dialog_target_locator \<Rightarrow> sip_uri \<Rightarrow> location \<Rightarrow> bool" where
  "forwards_home dt uri l =
     (if \<not> dt_cluster_enabled dt then False
      else case (loc_home_proxy l, loc_registered_aor l) of
             (Some home_proxy, Some r) \<Rightarrow>
               if r = uri then True
               else uri_user_opt r = uri_user_opt uri \<and>
                    (uri_host_with_port uri = sad_addr home_proxy \<or> is_webrtc_invalid_host (uri_host uri))
           | _ \<Rightarrow> False)"

definition first_target :: "dialog_target_locator \<Rightarrow> location list \<Rightarrow> sip_addr option" where
  "first_target dt locs =
     (case locs of
        [] \<Rightarrow> None
      | l # _ \<Rightarrow>
          (case (if dt_cluster_enabled dt then loc_home_proxy l else None) of
             Some home_proxy \<Rightarrow>
               if \<not> is_local_home_proxy dt home_proxy then Some home_proxy else loc_destination l
           | None \<Rightarrow> loc_destination l))"

definition locate_in :: "dialog_target_locator \<Rightarrow> sip_uri \<Rightarrow> location list \<Rightarrow> sip_addr option" where
  "locate_in dt uri candidates =
     (case List.find (forwards_home dt uri) candidates of
        Some l \<Rightarrow>
          (case loc_home_proxy l of
             Some home_proxy \<Rightarrow>
               (case (is_local_home_proxy dt home_proxy, loc_destination l) of
                  (True, Some dest) \<Rightarrow> Some dest
                | _ \<Rightarrow> Some home_proxy)
           | None \<Rightarrow> first_target dt candidates)
      | None \<Rightarrow> first_target dt candidates)"

text \<open>\<^verbatim>\<open>locate_inner\<close>; \<open>None\<close> is the error of the conversion.\<close>

definition dialog_locate :: "dialog_target_locator \<Rightarrow> sip_uri \<Rightarrow> sip_addr option" where
  "dialog_locate dt uri =
     or_else
       (case dt_lookup dt uri of
          Some locs \<Rightarrow> if locs \<noteq> [] then locate_in dt uri (dialog_candidates dt uri locs) else None
        | None \<Rightarrow> None)
       (dt_uri_addr dt uri)"

lemma find_in: "List.find P xs = Some x \<Longrightarrow> x \<in> set xs \<and> P x"
  by (induction xs) (auto split: if_splits)

lemma candidates_subset: "set (dialog_candidates dt uri locs) \<subseteq> set locs"
  by (auto simp: dialog_candidates_def Let_def)

lemma first_target_from:
  "first_target dt locs = Some dest \<Longrightarrow> \<exists>l \<in> set locs.
     dt_cluster_enabled dt \<and> loc_home_proxy l = Some dest \<or>
     loc_destination l = Some dest \<and>
       (\<forall>h. dt_cluster_enabled dt \<and> loc_home_proxy l = Some h \<longrightarrow> is_local_home_proxy dt h)"
  by (cases locs) (auto simp: first_target_def split: option.splits if_splits)

lemma locate_in_from:
  "locate_in dt uri locs = Some dest \<Longrightarrow> \<exists>l \<in> set locs.
     dt_cluster_enabled dt \<and> loc_home_proxy l = Some dest \<or>
     loc_destination l = Some dest \<and>
       (\<forall>h. dt_cluster_enabled dt \<and> loc_home_proxy l = Some h \<longrightarrow> is_local_home_proxy dt h)"
proof (cases "List.find (forwards_home dt uri) locs")
  case None
  then show "locate_in dt uri locs = Some dest \<Longrightarrow> ?thesis"
    by (intro first_target_from) (simp add: locate_in_def)
next
  case (Some l)
  then have "l \<in> set locs" "dt_cluster_enabled dt" "loc_home_proxy l \<noteq> None"
    using find_in [OF Some] by (auto simp: forwards_home_def split: if_splits option.splits)
  with Some show "locate_in dt uri locs = Some dest \<Longrightarrow> ?thesis"
    by (intro bexI [of _ l]) (auto simp: locate_in_def split: option.splits bool.splits)
qed

text \<open>An in-dialog request goes to the address of a binding only if the binding lives on this
  node: in a cluster, a binding whose home is another node gives that node's address instead. With
  no usable binding the request goes where its URI says. A binding with exactly the requested
  contact is preferred to every other.\<close>

theorem dialog_target_owned:
  assumes "dialog_locate dt uri = Some dest" "dest \<noteq> the (dt_uri_addr dt uri)"
  shows "\<exists>locs l. dt_lookup dt uri = Some locs \<and> l \<in> set locs \<and>
    (dt_cluster_enabled dt \<and> loc_home_proxy l = Some dest \<or>
     loc_destination l = Some dest \<and>
       (\<forall>h. dt_cluster_enabled dt \<and> loc_home_proxy l = Some h \<longrightarrow> is_local_home_proxy dt h)) \<and>
    ((\<exists>x \<in> set locs. loc_aor x = uri) \<longrightarrow> loc_aor l = uri)"
proof -
  from assms obtain locs where locs: "dt_lookup dt uri = Some locs"
    "locate_in dt uri (dialog_candidates dt uri locs) = Some dest"
    by (auto simp: dialog_locate_def or_else_def split: option.splits if_splits)
  from locate_in_from [OF locs(2)] obtain l where l: "l \<in> set (dialog_candidates dt uri locs)"
    "dt_cluster_enabled dt \<and> loc_home_proxy l = Some dest \<or> loc_destination l = Some dest \<and>
       (\<forall>h. dt_cluster_enabled dt \<and> loc_home_proxy l = Some h \<longrightarrow> is_local_home_proxy dt h)" by blast
  have "loc_aor l = uri" if "\<exists>x \<in> set locs. loc_aor x = uri"
    using that l(1) by (auto simp: dialog_candidates_def is_exact_contact_def Let_def)
  with locs(1) l candidates_subset show ?thesis by blast
qed

definition demo_home :: sip_addr where
  "demo_home = \<lparr>sad_type = None, sad_addr = \<lparr>hp_host = ''node2'', hp_port = None\<rparr>\<rparr>"

definition demo_dialog_locator :: dialog_target_locator where
  "demo_dialog_locator = \<lparr>dt_lookup = (\<lambda>_. Some [demo_bound\<lparr>loc_home_proxy := Some demo_home\<rparr>]), dt_local_addrs = [],
     dt_cluster_enabled = True, dt_addr_str = hp_host, dt_uri_str = (\<lambda>_. []), dt_uri_transport = (\<lambda>_. None),
     dt_default_port = (\<lambda>_. 5060), dt_uri_addr = (\<lambda>_. Some demo_dest)\<rparr>"

end
