(* ===== verification/Contact_Header.thy ===== *)
theory Contact_Header
  imports Route_Functions
begin

text \<open>
  Contact headers of a REGISTER, \<^verbatim>\<open>src/src/proxy/registrar.rs\<close>: splitting into entries, parsing an entry
  with its parameters, and printing a contact with its granted expiry. Cuts at an ASCII character are
  cuts at a character boundary, so none of the slices can panic. The URI parser is a parameter.
\<close>

section \<open>Entries\<close>

record contact_param =
  cp_name :: string
  cp_value :: "string option"
  cp_quoted :: bool

record parsed_contact =
  pc_display_name :: "string option"
  pc_uri :: sip_uri
  pc_uri_string :: string
  pc_params :: "contact_param list"
  pc_wildcard :: bool
  pc_has_angle_brackets :: bool

definition param_matches :: "string \<Rightarrow> contact_param \<Rightarrow> bool" where
  "param_matches needle p \<longleftrightarrow> eq_ignore_ascii_case (cp_name p) needle"

definition param_rendered :: "contact_param \<Rightarrow> string" where
  "param_rendered p =
     (case cp_value p of
        Some v \<Rightarrow>
          if cp_quoted p \<or> str_contains CHR '' '' v \<or> str_contains CHR '';'' v \<or> str_contains CHR '','' v
          then cp_name p @ ''='' @ [CHR 0x22] @ v @ [CHR 0x22]
          else cp_name p @ ''='' @ v
      | None \<Rightarrow> cp_name p)"

definition empty_uri :: sip_uri where
  "empty_uri = \<lparr>uri_scheme = None, uri_auth = None, uri_host_with_port = \<lparr>hp_host = [], hp_port = None\<rparr>, uri_params = []\<rparr>"

definition contact_wildcard :: parsed_contact where
  "contact_wildcard = \<lparr>pc_display_name = None, pc_uri = empty_uri, pc_uri_string = [], pc_params = [],
     pc_wildcard = True, pc_has_angle_brackets = False\<rparr>"

definition contact_param_value :: "string \<Rightarrow> parsed_contact \<Rightarrow> string option" where
  "contact_param_value needle c = Option.bind (List.find (param_matches needle) (pc_params c)) cp_value"

definition contact_expires :: "parsed_contact \<Rightarrow> u32 option" where
  "contact_expires c =
     Option.bind (contact_param_value ''expires'' c) (\<lambda>v. map_option word_of_nat (parse_uint (2 ^ 32) v))"

definition contact_instance_id :: "parsed_contact \<Rightarrow> string option" where
  "contact_instance_id c = contact_param_value ''+sip.instance'' c"

definition contact_gruu :: "parsed_contact \<Rightarrow> string option" where
  "contact_gruu c = contact_param_value ''pub-gruu'' c"

definition contact_temp_gruu :: "parsed_contact \<Rightarrow> string option" where
  "contact_temp_gruu c = contact_param_value ''temp-gruu'' c"

definition contact_reg_id :: "parsed_contact \<Rightarrow> string option" where
  "contact_reg_id c = contact_param_value ''reg-id'' c"

text \<open>\<^verbatim>\<open>transport\<close>; \<open>uri_transport\<close> is the transport parameter of a URI.\<close>

definition contact_transport :: "(sip_uri \<Rightarrow> transport option) \<Rightarrow> parsed_contact \<Rightarrow> transport option" where
  "contact_transport uri_transport c =
     or_else (Option.bind (contact_param_value ''transport'' c) resolve_transport_from_str)
       (uri_transport (pc_uri c))"

definition destination_from_uri :: "(sip_uri \<Rightarrow> transport option) \<Rightarrow> parsed_contact \<Rightarrow> sip_addr option" where
  "destination_from_uri uri_transport c =
     Some \<lparr>sad_type = contact_transport uri_transport c, sad_addr = uri_host_with_port (pc_uri c)\<rparr>"

definition contact_value :: "parsed_contact \<Rightarrow> u32 \<Rightarrow> string" where
  "contact_value c expires =
     (if pc_wildcard c then ''*''
      else (case pc_display_name c of
              Some display \<Rightarrow> [CHR 0x22] @ escape_sip_quoted display @ [CHR 0x22, CHR '' '']
            | None \<Rightarrow> []) @
           (if pc_has_angle_brackets c then ''<'' @ pc_uri_string c @ ''>'' else pc_uri_string c) @
           concat (map (\<lambda>p. CHR '';'' # param_rendered p)
             (filter (\<lambda>p. \<not> param_matches ''expires'' p) (pc_params c))) @
           '';expires='' @ nat_to_string (unat expires))"

definition param_map :: "parsed_contact \<Rightarrow> (string, string) hmap" where
  "param_map c =
     fold (\<lambda>p m. hm_insert (to_ascii_lowercase (cp_name p)) (case cp_value p of Some v \<Rightarrow> v | None \<Rightarrow> []) m)
       (filter (\<lambda>p. \<not> param_matches ''expires'' p) (pc_params c)) []"

section \<open>Parsing\<close>

definition build_contact_param :: "string \<Rightarrow> contact_param option" where
  "build_contact_param value =
     (let cleaned = trim (dropWhile (\<lambda>c. c = CHR '';'') (trim value))
      in if cleaned = [] then None
         else case split_once CHR ''='' cleaned of
                Some (before, after) \<Rightarrow>
                  let name = trim before; raw_value = trim after
                  in if starts_with raw_value [CHR 0x22] \<and> ends_with raw_value [CHR 0x22] \<and> 2 \<le> length raw_value
                     then Some \<lparr>cp_name = name, cp_value = Some (butlast (tl raw_value)), cp_quoted = True\<rparr>
                     else Some \<lparr>cp_name = name, cp_value = Some raw_value, cp_quoted = False\<rparr>
              | None \<Rightarrow> Some \<lparr>cp_name = cleaned, cp_value = None, cp_quoted = False\<rparr>)"

definition push_param :: "string \<Rightarrow> contact_param list" where
  "push_param current =
     (if trim current = [] then []
      else case build_contact_param (trim current) of Some p \<Rightarrow> [p] | None \<Rightarrow> [])"

text \<open>The scan keeps the current parameter reversed.\<close>

fun params_scan :: "string \<Rightarrow> bool \<Rightarrow> string \<Rightarrow> contact_param list" where
  "params_scan current in_quotes [] = push_param (rev current)"
| "params_scan current in_quotes (ch # rest) =
     (if ch = CHR 0x22 then params_scan (ch # current) (\<not> in_quotes) rest
      else if ch = CHR '';'' \<and> \<not> in_quotes then push_param (rev current) @ params_scan [] in_quotes rest
      else params_scan (ch # current) in_quotes rest)"

definition parse_contact_params :: "string \<Rightarrow> contact_param list" where
  "parse_contact_params segment = params_scan [] False (trim segment)"

datatype contact_error = MissingAngleBracket | BadContactUri

text \<open>The display name and what follows it.\<close>

definition take_display_name :: "string \<Rightarrow> string option \<times> string" where
  "take_display_name remainder =
     (if starts_with remainder [CHR 0x22]
      then (case split_once CHR 0x22 (drop 1 remainder) of
              Some (display, rest) \<Rightarrow> (Some display, trim rest)
            | None \<Rightarrow> (None, remainder))
      else (case split_once CHR ''<'' remainder of
              Some (name, rest) \<Rightarrow>
                (if trim name \<noteq> [] then Some (trim_matches [CHR 0x22] (trim name)) else None,
                 trim (CHR ''<'' # rest))
            | None \<Rightarrow> (None, remainder)))"

definition parse_contact_entry :: "sip_api \<Rightarrow> string \<Rightarrow> contact_error + parsed_contact" where
  "parse_contact_entry api entry =
     (let trimmed = trim entry
      in if trimmed = ''*'' then Inr contact_wildcard
         else case take_display_name trimmed of (display_name, remainder) \<Rightarrow>
           let has_angle_brackets = starts_with remainder ''<'';
               parts = (if has_angle_brackets
                        then (case split_once CHR ''>'' remainder of
                                Some (before, after) \<Rightarrow> Some (trim (drop 1 before), trim after)
                              | None \<Rightarrow> None)
                        else (case split_once CHR '';'' remainder of
                                Some (uri, params) \<Rightarrow> Some (trim uri, params)
                              | None \<Rightarrow> Some (trim remainder, [])))
           in case parts of
                None \<Rightarrow> Inl MissingAngleBracket
              | Some (uri_part, param_part) \<Rightarrow>
                  if uri_part = ''*'' then Inr contact_wildcard
                  else case sa_parse_uri api uri_part of
                         None \<Rightarrow> Inl BadContactUri
                       | Some uri \<Rightarrow>
                           Inr \<lparr>pc_display_name = display_name, pc_uri = uri, pc_uri_string = uri_part,
                             pc_params = parse_contact_params param_part, pc_wildcard = False,
                             pc_has_angle_brackets = has_angle_brackets\<rparr>)"

text \<open>\<^verbatim>\<open>split_contact_entries\<close>: commas outside quotes and angle brackets.\<close>

fun contacts_scan :: "string \<Rightarrow> bool \<Rightarrow> nat \<Rightarrow> string \<Rightarrow> string list" where
  "contacts_scan current in_quotes angle_depth [] =
     (let last = trim (rev current) in if last = [] then [] else [last])"
| "contacts_scan current in_quotes angle_depth (ch # rest) =
     (if ch = CHR 0x22 then contacts_scan (ch # current) (\<not> in_quotes) angle_depth rest
      else if ch = CHR ''<'' \<and> \<not> in_quotes then contacts_scan (ch # current) in_quotes (Suc angle_depth) rest
      else if ch = CHR ''>'' \<and> \<not> in_quotes \<and> 0 < angle_depth
      then contacts_scan (ch # current) in_quotes (angle_depth - 1) rest
      else if ch = CHR '','' \<and> \<not> in_quotes \<and> angle_depth = 0
      then (let segment = trim (rev current) in if segment = [] then [] else [segment]) @
           contacts_scan [] in_quotes angle_depth rest
      else contacts_scan (ch # current) in_quotes angle_depth rest)"

definition split_contact_entries :: "string \<Rightarrow> string list" where
  "split_contact_entries value = contacts_scan [] False 0 value"

text \<open>\<^verbatim>\<open>collect_header_values\<close> reads the printed headers; the printer is a parameter.\<close>

definition collect_header_values :: "(sip_header \<Rightarrow> string) \<Rightarrow> sip_header list \<Rightarrow> string \<Rightarrow> string list" where
  "collect_header_values header_str headers name =
     List.map_filter (\<lambda>h.
       let (key, value) = (case split_once CHR '':'' (header_str h) of
                             Some (k, v) \<Rightarrow> (k, v) | None \<Rightarrow> (header_str h, []))
       in if to_ascii_lowercase (trim key) = to_ascii_lowercase name then Some (trim value) else None) headers"

fun parse_contacts :: "sip_api \<Rightarrow> string list \<Rightarrow> contact_error + parsed_contact list" where
  "parse_contacts api [] = Inr []"
| "parse_contacts api (entry # entries) =
     (if entry = [] then parse_contacts api entries
      else case parse_contact_entry api entry of
             Inl e \<Rightarrow> Inl e
           | Inr c \<Rightarrow> (case parse_contacts api entries of Inl e \<Rightarrow> Inl e | Inr cs \<Rightarrow> Inr (c # cs)))"

definition parse_contact_headers :: "sip_api \<Rightarrow> (sip_header \<Rightarrow> string) \<Rightarrow> sip_header list \<Rightarrow>
    contact_error + parsed_contact list" where
  "parse_contact_headers api header_str headers =
     parse_contacts api (concat (map split_contact_entries (collect_header_values header_str headers ''Contact'')))"

definition parse_route_header :: "sip_api \<Rightarrow> (sip_header \<Rightarrow> string) \<Rightarrow> sip_header list \<Rightarrow> string \<Rightarrow> sip_uri list" where
  "parse_route_header api header_str headers name =
     List.map_filter (\<lambda>entry.
       let trimmed = trim entry;
           stripped = trim (rev (dropWhile (\<lambda>c. c = CHR ''>'') (rev (dropWhile (\<lambda>c. c = CHR ''<'') trimmed))))
       in if trimmed = [] then None else sa_parse_uri api stripped)
     (concat (map split_contact_entries (collect_header_values header_str headers name)))"

section \<open>Printing and parsing\<close>

text \<open>A contact whose texts need no escape of their own.\<close>

definition plain_param :: "contact_param \<Rightarrow> bool" where
  "plain_param p \<longleftrightarrow>
     cp_name p \<noteq> [] \<and> (\<forall>c \<in> set (cp_name p). \<not> is_white c \<and> c \<noteq> CHR ''='' \<and> c \<noteq> CHR '';'' \<and> c \<noteq> CHR 0x22) \<and>
     (case cp_value p of
        None \<Rightarrow> \<not> cp_quoted p
      | Some v \<Rightarrow> (\<forall>c \<in> set v. c \<noteq> CHR 0x22) \<and>
          (cp_quoted p \<or> (\<forall>c \<in> set v. \<not> is_white c \<and> c \<noteq> CHR '';'' \<and> c \<noteq> CHR '','')))"

definition plain_contact :: "sip_api \<Rightarrow> parsed_contact \<Rightarrow> bool" where
  "plain_contact api c \<longleftrightarrow>
     \<not> pc_wildcard c \<and> pc_has_angle_brackets c \<and>
     (\<forall>d. pc_display_name c = Some d \<longrightarrow> (\<forall>x \<in> set d. x \<noteq> CHR 0x22 \<and> x \<noteq> CHR 0x5C)) \<and>
     pc_uri_string c \<noteq> ''*'' \<and> trim (pc_uri_string c) = pc_uri_string c \<and> CHR ''>'' \<notin> set (pc_uri_string c) \<and>
     sa_parse_uri api (pc_uri_string c) = Some (pc_uri c) \<and> (\<forall>p \<in> set (pc_params c). plain_param p)"

lemma replace_absent: "c \<notin> set s \<Longrightarrow> replace_char c t s = s"
  by (induction s) (auto simp: replace_char_def)

lemma escape_plain:
  assumes "\<forall>x \<in> set d. x \<noteq> CHR 0x22 \<and> x \<noteq> CHR 0x5C"
  shows "escape_sip_quoted d = d"
proof -
  have "CHR 0x22 \<notin> set d" "CHR 0x5C \<notin> set d" using assms by blast+
  then show ?thesis by (simp add: escape_sip_quoted_def replace_absent)
qed

text \<open>A parameter is scanned whole: its separators are inside quotes.\<close>

lemma params_scan_plain:
  "CHR '';'' \<notin> set s \<Longrightarrow> CHR 0x22 \<notin> set s \<Longrightarrow> params_scan cur q (s @ rest) = params_scan (rev s @ cur) q rest"
  by (induction s arbitrary: cur) auto

lemma params_scan_quoted:
  "CHR 0x22 \<notin> set s \<Longrightarrow> params_scan cur True (s @ rest) = params_scan (rev s @ cur) True rest"
  by (induction s arbitrary: cur) auto

lemma params_scan_rendered:
  assumes "plain_param p"
  shows "params_scan cur False (param_rendered p @ rest) = params_scan (rev (param_rendered p) @ cur) False rest"
proof -
  have name: "CHR '';'' \<notin> set (cp_name p)" "CHR 0x22 \<notin> set (cp_name p)" using assms by (auto simp: plain_param_def)
  show ?thesis
  proof (cases "cp_value p")
    case None
    with name show ?thesis by (simp add: param_rendered_def params_scan_plain)
  next
    case (Some v)
    then have v: "CHR 0x22 \<notin> set v" "cp_quoted p \<or> CHR '';'' \<notin> set v" using assms by (auto simp: plain_param_def)
    show ?thesis
    proof (cases "cp_quoted p \<or> str_contains CHR '' '' v \<or> str_contains CHR '';'' v \<or> str_contains CHR '','' v")
      case True
      with Some name v show ?thesis by (simp add: param_rendered_def params_scan_plain params_scan_quoted)
    next
      case False
      with Some name v show ?thesis
        using params_scan_plain [of "cp_name p @ ''='' @ v" cur False rest]
        by (simp add: param_rendered_def)
    qed
  qed
qed

lemma param_rendered_cases:
  assumes "plain_param p"
  obtains (flag) "cp_value p = None" "\<not> cp_quoted p" "param_rendered p = cp_name p"
  | (quoted) v where "cp_value p = Some v" "cp_quoted p" "param_rendered p = cp_name p @ CHR ''='' # CHR 0x22 # v @ [CHR 0x22]"
  | (bare) v where "cp_value p = Some v" "\<not> cp_quoted p" "\<forall>c \<in> set v. \<not> is_white c" "CHR 0x22 \<notin> set v"
      "param_rendered p = cp_name p @ CHR ''='' # v"
proof (cases "cp_value p")
  case None
  with assms show ?thesis by (intro flag) (simp_all add: param_rendered_def plain_param_def)
next
  case (Some v)
  show ?thesis
  proof (cases "cp_quoted p")
    case True
    with Some show ?thesis by (intro quoted) (simp_all add: param_rendered_def)
  next
    case False
    with Some assms have v: "\<forall>c \<in> set v. \<not> is_white c \<and> c \<noteq> CHR '';'' \<and> c \<noteq> CHR '',''" "CHR 0x22 \<notin> set v"
      by (auto simp: plain_param_def)
    moreover have "is_white CHR '' ''" by (simp add: is_white_def code_def)
    ultimately have "\<not> str_contains CHR '' '' v" "\<not> str_contains CHR '';'' v" "\<not> str_contains CHR '','' v"
      by (auto simp: str_contains_def)
    with Some False v show ?thesis by (intro bare) (simp_all add: param_rendered_def)
  qed
qed

lemma not_white_ascii [simp]: "\<not> is_white CHR 0x22" "\<not> is_white CHR ''=''" "\<not> is_white CHR ''<''" "\<not> is_white CHR ''>''"
  "\<not> is_white CHR '';''"
  by (simp_all add: is_white_def code_def)

lemma build_rendered:
  assumes "plain_param p"
  shows "trim (param_rendered p) = param_rendered p \<and> build_contact_param (param_rendered p) = Some p"
proof -
  have name: "cp_name p \<noteq> []" "\<forall>c \<in> set (cp_name p). \<not> is_white c" "CHR ''='' \<notin> set (cp_name p)"
    "CHR '';'' \<notin> set (cp_name p)"
    using assms by (auto simp: plain_param_def)
  then have hd: "\<not> is_white (hd (cp_name p))" "hd (cp_name p) \<noteq> CHR '';''"
    by (cases "cp_name p"; auto)+
  have tname: "trim (cp_name p) = cp_name p" using name(2) by (rule trim_id)
  have drop: "dropWhile (\<lambda>c. c = CHR '';'') (cp_name p @ after) = cp_name p @ after" for after
    using name(1) hd(2) by (cases "cp_name p") auto
  have eq: "split_once CHR ''='' (cp_name p @ CHR ''='' # after) = Some (cp_name p, after)" for after
    by (rule split_once_append [OF name(3)])
  from assms show ?thesis
  proof (cases rule: param_rendered_cases)
    case flag
    have "split_once CHR ''='' (cp_name p) = None" using name(3) by (simp add: split_once_None_iff)
    with flag tname drop [of "[]"] name(1) show ?thesis by (simp add: build_contact_param_def)
  next
    case (quoted v)
    let ?q = "CHR 0x22 # v @ [CHR 0x22]"
    have "trim (cp_name p @ CHR ''='' # ?q) = cp_name p @ CHR ''='' # ?q"
      using name(1) hd(1) by (intro trim_affix) simp_all
    moreover have "trim ?q = ?q" by (intro trim_affix) simp_all
    ultimately show ?thesis
      using quoted(1,2) name(1) by (simp add: quoted(3) build_contact_param_def drop eq tname starts_with_def ends_with_def Let_def)
  next
    case (bare v)
    have "trim (cp_name p @ CHR ''='' # v) = cp_name p @ CHR ''='' # v"
      using name(2) bare(3) by (intro trim_id) auto
    moreover have "trim v = v" using bare(3) by (rule trim_id)
    moreover have "\<not> starts_with v [CHR 0x22]" using bare(4) by (cases v) (auto simp: starts_with_def)
    ultimately show ?thesis
      using bare(1,2) name(1) by (simp add: bare(5) build_contact_param_def drop eq tname Let_def)
  qed
qed

definition expires_param :: "u32 \<Rightarrow> contact_param" where
  "expires_param e = \<lparr>cp_name = ''expires'', cp_value = Some (nat_to_string (unat e)), cp_quoted = False\<rparr>"

lemma digit_plain:
  "is_ascii_digit c \<Longrightarrow> c \<noteq> CHR 0x22 \<and> c \<noteq> CHR '','' \<and> c \<noteq> CHR '';'' \<and> c \<noteq> CHR '' '' \<and> \<not> is_white c"
  by (auto simp: is_ascii_digit_def is_white_def code_def)

lemma expires_param_plain: "plain_param (expires_param e)"
  using nat_to_string_digits [of "unat e"] digit_plain
  by (auto simp: plain_param_def expires_param_def is_white_def code_def)

lemma expires_param_rendered: "param_rendered (expires_param e) = ''expires='' @ nat_to_string (unat e)"
  using nat_to_string_digits [of "unat e"] digit_plain
  by (auto simp: param_rendered_def expires_param_def str_contains_def)

definition params_text :: "contact_param list \<Rightarrow> string" where
  "params_text ps = concat (map (\<lambda>p. CHR '';'' # param_rendered p) ps)"

lemma params_scan_text:
  "\<forall>p \<in> set ps. plain_param p \<Longrightarrow> params_scan cur False (params_text ps) = push_param (rev cur) @ ps"
proof (induction ps arbitrary: cur)
  case Nil
  show ?case by (simp add: params_text_def)
next
  case (Cons p ps)
  then have p: "plain_param p" by simp
  have "param_rendered p \<noteq> []" using p by (auto simp: param_rendered_def plain_param_def split: option.splits)
  then have "push_param (param_rendered p) = [p]" using build_rendered [OF p] by (simp add: push_param_def)
  with Cons show ?case by (simp add: params_text_def params_scan_rendered [OF p])
qed

lemma contact_value_text:
  assumes "plain_contact api c"
  shows "contact_value c e = (case pc_display_name c of Some d \<Rightarrow> CHR 0x22 # d @ [CHR 0x22, CHR '' ''] | None \<Rightarrow> []) @
    CHR ''<'' # pc_uri_string c @ CHR ''>'' #
    params_text (filter (\<lambda>p. \<not> param_matches ''expires'' p) (pc_params c) @ [expires_param e])"
  using assms escape_plain
  by (cases "pc_display_name c")
    (simp_all add: contact_value_def plain_contact_def params_text_def expires_param_rendered)

lemma find_no_match: "List.find P (filter (\<lambda>x. \<not> P x) xs @ [y]) = (if P y then Some y else None)"
  by (induction xs) auto

lemma expires_param_read:
  "contact_expires (c\<lparr>pc_params := filter (\<lambda>p. \<not> param_matches ''expires'' p) (pc_params c) @ [expires_param e]\<rparr>) = Some e"
proof -
  have "param_matches ''expires'' (expires_param e)"
    by (simp add: param_matches_def expires_param_def eq_ignore_ascii_case_def)
  then have "contact_param_value ''expires''
      (c\<lparr>pc_params := filter (\<lambda>p. \<not> param_matches ''expires'' p) (pc_params c) @ [expires_param e]\<rparr>)
    = Some (nat_to_string (unat e))"
    by (simp add: contact_param_value_def find_no_match expires_param_def)
  moreover have "unat e < 2 ^ 32" using unsigned_less [of e] by simp
  ultimately show ?thesis by (simp add: contact_expires_def parse_uint_nat_to_string)
qed


definition demo_uri_api :: sip_api where
  "demo_uri_api = \<lparr>sa_parse_uri = (\<lambda>s. if s = ''sip:a@h'' then Some \<lparr>uri_scheme = Some Sip,
       uri_auth = Some \<lparr>au_user = ''a'', au_password = None\<rparr>,
       uri_host_with_port = \<lparr>hp_host = ''h'', hp_port = None\<rparr>, uri_params = []\<rparr> else None),
     sa_uri_str = (\<lambda>_. []), sa_parse_hostport = (\<lambda>_. None), sa_addr_str = (\<lambda>_. [])\<rparr>"

definition demo_entry :: parsed_contact where
  "demo_entry = \<lparr>pc_display_name = Some ''Al'', pc_uri = the (sa_parse_uri demo_uri_api ''sip:a@h''),
     pc_uri_string = ''sip:a@h'',
     pc_params = [\<lparr>cp_name = ''Expires'', cp_value = Some ''9'', cp_quoted = False\<rparr>,
       \<lparr>cp_name = ''+sip.instance'', cp_value = Some ''<u;1>'', cp_quoted = True\<rparr>],
     pc_wildcard = False, pc_has_angle_brackets = True\<rparr>"

lemma demo_entry_plain: "plain_contact demo_uri_api demo_entry"
  by (simp add: plain_contact_def demo_entry_def demo_uri_api_def plain_param_def is_white_def code_def trim_def
      trim_start_def trim_end_def)

lemma demo_entry_params:
  "filter (\<lambda>p. \<not> param_matches ''expires'' p) (pc_params demo_entry)
    = [\<lparr>cp_name = ''+sip.instance'', cp_value = Some ''<u;1>'', cp_quoted = True\<rparr>]"
  by (simp add: demo_entry_def param_matches_def eq_ignore_ascii_case_def to_ascii_lowercase_def ascii_lower_def
      code_def) (simp add: char_of_def bit_0)


end
