(* ===== verification/Sip_User.thy ===== *)
theory Sip_User
  imports Route_Functions Net_Addr
begin

text \<open>
  The user of a request, \<^verbatim>\<open>src/src/call/user.rs\<close>: the record, merging, call forwarding settings and the
  identity read from a transaction. The typed headers, the target of a \<^verbatim>\<open>Via\<close> and the parser of
  authorization headers are parameters; so are the connection of the transaction and the addresses
  of its endpoint.
\<close>

section \<open>Users\<close>

record typed_contact =
  tc_display_name :: "string option"
  tc_uri :: sip_uri
  tc_params :: "string list"

record sip_user =
  su_id :: u64
  su_enabled :: bool
  su_username :: string
  su_password :: "string option"
  su_realm :: "string option"
  su_department_ids :: "int list"
  su_display_name :: "string option"
  su_email :: "string option"
  su_phone :: "string option"
  su_note :: "string option"
  su_allow_guest_calls :: bool
  su_voicemail_disabled :: bool
  su_call_forwarding_mode :: "string option"
  su_call_forwarding_destination :: "string option"
  su_call_forwarding_timeout :: "int option"
  su_origin_contact :: "typed_contact option"
  su_contact :: "typed_contact option"
  su_from :: "sip_uri option"
  su_destination :: "sip_addr option"
  su_is_support_webrtc :: bool
  su_ice_lite :: bool

definition user_default :: sip_user where
  "user_default = \<lparr>su_id = 0, su_enabled = True, su_username = [], su_password = None, su_realm = None,
     su_department_ids = [], su_display_name = None, su_email = None, su_phone = None, su_note = None,
     su_allow_guest_calls = False, su_voicemail_disabled = True, su_call_forwarding_mode = None,
     su_call_forwarding_destination = None, su_call_forwarding_timeout = None, su_origin_contact = None,
     su_contact = None, su_from = None, su_destination = None, su_is_support_webrtc = False,
     su_ice_lite = False\<rparr>"

definition user_display :: "sip_user \<Rightarrow> string" where
  "user_display u =
     (case su_realm u of Some realm \<Rightarrow> su_username u @ ''@'' @ realm | None \<Rightarrow> su_username u)"

definition get_contact_username :: "sip_user \<Rightarrow> string" where
  "get_contact_username u =
     (case su_origin_contact u of Some c \<Rightarrow> uri_user (tc_uri c) | None \<Rightarrow> su_username u)"

definition merge_with :: "sip_user \<Rightarrow> sip_user \<Rightarrow> sip_user" where
  "merge_with u other =
     u\<lparr>su_id := (if su_id u = 0 then su_id other else su_id u),
       su_password := or_else (su_password u) (su_password other),
       su_realm := or_else (su_realm u) (su_realm other),
       su_department_ids := (if su_department_ids u = [] then su_department_ids other else su_department_ids u),
       su_display_name := or_else (su_display_name u) (su_display_name other),
       su_email := or_else (su_email u) (su_email other),
       su_phone := or_else (su_phone u) (su_phone other),
       su_note := or_else (su_note u) (su_note other),
       su_allow_guest_calls := (su_allow_guest_calls u \<or> su_allow_guest_calls other),
       su_origin_contact := or_else (su_origin_contact u) (su_origin_contact other),
       su_contact := or_else (su_contact u) (su_contact other),
       su_from := or_else (su_from u) (su_from other),
       su_destination := or_else (su_destination u) (su_destination other),
       su_is_support_webrtc := (su_is_support_webrtc u \<or> su_is_support_webrtc other),
       su_ice_lite := (su_ice_lite u \<or> su_ice_lite other)\<rparr>"

lemma merge_with_simps [simp]:
  "su_username (merge_with u v) = su_username u"
  "su_enabled (merge_with u v) = su_enabled u"
  "su_password (merge_with u v) = or_else (su_password u) (su_password v)"
  "su_realm (merge_with u v) = or_else (su_realm u) (su_realm v)"
  "su_destination (merge_with u v) = or_else (su_destination u) (su_destination v)"
  by (simp_all add: merge_with_def)

lemma merge_with_assoc: "merge_with (merge_with u v) w = merge_with u (merge_with v w)"
  by (cases u) (auto simp: merge_with_def or_else_assoc)

section \<open>Call forwarding settings\<close>

definition forwarding_mode :: "string \<Rightarrow> call_forwarding_mode option" where
  "forwarding_mode mode_text =
     (if mode_text = ''always'' then Some CfAlways
      else if mode_text = ''when_busy'' \<or> mode_text = ''busy'' then Some CfWhenBusy
      else if mode_text = ''when_not_answered'' \<or> mode_text = ''no_answer'' then Some CfWhenNoAnswer
      else None)"

definition forwarding_config :: "sip_user \<Rightarrow> slice_panic + call_forwarding_config option" where
  "forwarding_config u =
     (case su_call_forwarding_mode u of
        None \<Rightarrow> Inr None
      | Some m \<Rightarrow>
          let mode_text = to_lowercase (trim m)
          in if mode_text = [] \<or> mode_text = ''none'' then Inr None
             else case su_call_forwarding_destination u of
                    None \<Rightarrow> Inr None
                  | Some d \<Rightarrow>
                      if trim d = [] then Inr None
                      else case endpoint_parse (trim d) of
                             Inl p \<Rightarrow> Inl p
                           | Inr None \<Rightarrow> Inr None
                           | Inr (Some endpoint) \<Rightarrow>
                               Inr (map_option (\<lambda>mode. call_forwarding_new mode endpoint
                                 (case su_call_forwarding_timeout u of Some v \<Rightarrow> clamp_timeout v | None \<Rightarrow> 30))
                               (forwarding_mode mode_text)))"

section \<open>The user of a transaction\<close>

record authorization =
  az_username :: string
  az_realm :: string

record sip_connection =
  cn_reliable :: bool
  cn_remote :: "sip_addr option"

record sip_transaction =
  st_method :: string
  st_original :: sip_request
  st_connection :: "sip_connection option"
  st_addrs :: "sip_addr list"

record user_api =
  ux_from :: "sip_request \<Rightarrow> sip_uri option"
  ux_from_display :: "sip_request \<Rightarrow> string option"
  ux_contact :: "sip_request \<Rightarrow> typed_contact option"
  ux_via_target :: "sip_request \<Rightarrow> (transport \<times> host_with_port) option"
  ux_authorization :: "string \<Rightarrow> authorization option"
  ux_host_ip :: "string \<Rightarrow> ip_addr option"
  ux_sip_scheme :: "transport \<Rightarrow> sip_scheme"
  ux_transport_param :: "transport \<Rightarrow> string"

datatype user_error = NoFrom | NoVia | BadAuthorization

text \<open>The first header of a standard name, \<^verbatim>\<open>sip_header_opt!\<close>.\<close>

definition standard_header :: "string \<Rightarrow> sip_header list \<Rightarrow> string option" where
  "standard_header name headers =
     (case List.map_filter (\<lambda>h. case h of HStandard n v \<Rightarrow> if n = name then Some v else None | _ \<Rightarrow> None) headers of
        [] \<Rightarrow> None | v # _ \<Rightarrow> Some v)"

definition authorized_user :: "user_api \<Rightarrow> string \<Rightarrow> user_error + (sip_user \<times> authorization) option" where
  "authorized_user api value =
     (case ux_authorization api value of
        None \<Rightarrow> Inl BadAuthorization
      | Some challenge \<Rightarrow>
          Inr (Some (user_default\<lparr>su_username := az_username challenge, su_realm := Some (az_realm challenge)\<rparr>,
            challenge)))"

definition check_authorization_headers :: "user_api \<Rightarrow> sip_request \<Rightarrow> user_error + (sip_user \<times> authorization) option" where
  "check_authorization_headers api rq =
     (case standard_header ''Authorization'' (rq_headers rq) of
        Some v \<Rightarrow> authorized_user api v
      | None \<Rightarrow>
          (case standard_header ''Proxy-Authorization'' (rq_headers rq) of
             Some v \<Rightarrow> authorized_user api v
           | None \<Rightarrow> Inr None))"

definition apply_flow_destination :: "user_api \<Rightarrow> sip_connection option \<Rightarrow> sip_addr \<Rightarrow> sip_addr" where
  "apply_flow_destination api connection destination =
     (case connection of
        None \<Rightarrow> destination
      | Some c \<Rightarrow>
          if \<not> cn_reliable c then destination
          else case cn_remote c of
                 None \<Rightarrow> destination
               | Some remote \<Rightarrow>
                   (case ux_host_ip api (hp_host (sad_addr remote)) of
                      Some ip \<Rightarrow> if is_unspecified ip then destination else destination\<lparr>sad_addr := sad_addr remote\<rparr>
                    | None \<Rightarrow> destination\<lparr>sad_addr := sad_addr remote\<rparr>))"

definition build_contact :: "user_api \<Rightarrow> sip_addr list \<Rightarrow> sip_user \<Rightarrow> sip_user" where
  "build_contact api addrs u =
     (case addrs of
        [] \<Rightarrow> u
      | addr # _ \<Rightarrow>
          u\<lparr>su_contact := Some \<lparr>tc_display_name = None,
              tc_uri = \<lparr>uri_scheme = map_option (ux_sip_scheme api) (sad_type addr),
                uri_auth = Some \<lparr>au_user = get_contact_username u, au_password = None\<rparr>,
                uri_host_with_port = sad_addr addr, uri_params = []\<rparr>,
              tc_params = (case sad_type addr of
                             None \<Rightarrow> [] | Some Udp \<Rightarrow> [] | Some t \<Rightarrow> [ux_transport_param api t])\<rparr>\<rparr>)"

text \<open>The name a request claims: of its credentials if it has any, else of its From header.\<close>

definition claimed_identity :: "user_api \<Rightarrow> sip_request \<Rightarrow> sip_uri \<Rightarrow> string \<times> string option" where
  "claimed_identity api rq from_uri =
     (case check_authorization_headers api rq of
        Inr (Some (user, _)) \<Rightarrow> (su_username user, su_realm user)
      | _ \<Rightarrow>
          (uri_user from_uri,
           Some (case hp_port (uri_host_with_port from_uri) of
                   Some port \<Rightarrow> uri_host from_uri @ '':'' @ nat_to_string (unat port)
                 | None \<Rightarrow> uri_host from_uri)))"

definition user_try_from :: "user_api \<Rightarrow> sip_transaction \<Rightarrow> user_error + sip_user" where
  "user_try_from api tx =
     (let rq = st_original tx
      in case ux_from api rq of
           None \<Rightarrow> Inl NoFrom
         | Some from_uri \<Rightarrow>
             (case ux_via_target api rq of
                None \<Rightarrow> Inl NoVia
              | Some (via_transport, destination_addr) \<Rightarrow>
                  let (username, realm) = claimed_identity api rq from_uri;
                      origin_contact = ux_contact api rq;
                      destination = apply_flow_destination api (st_connection tx)
                        \<lparr>sad_type = Some via_transport, sad_addr = destination_addr\<rparr>;
                      web = (via_transport = Wss \<or> via_transport = Ws);
                      contact_declares_ice =
                        (case origin_contact of
                           None \<Rightarrow> False
                         | Some c \<Rightarrow> \<exists>p \<in> set (tc_params c). eq_ignore_ascii_case p '';+sip.ice'')
                  in Inr (build_contact api (st_addrs tx)
                       (user_default\<lparr>su_username := username, su_realm := realm,
                          su_display_name := ux_from_display api rq, su_origin_contact := origin_contact,
                          su_from := Some from_uri, su_destination := Some destination,
                          su_is_support_webrtc := (web \<or> contact_declares_ice),
                          su_ice_lite := (contact_declares_ice \<and> \<not> web)\<rparr>))))"

lemma build_contact_simps [simp]:
  "su_username (build_contact api addrs u) = su_username u"
  "su_realm (build_contact api addrs u) = su_realm u"
  "su_destination (build_contact api addrs u) = su_destination u"
  by (simp_all add: build_contact_def split: list.split)

lemma user_try_from_claims:
  assumes "user_try_from api tx = Inr u"
  shows "\<exists>from. ux_from api (st_original tx) = Some from \<and>
    (su_username u, su_realm u) = claimed_identity api (st_original tx) from \<and> (\<exists>d. su_destination u = Some d)"
  using assms by (auto simp: user_try_from_def Let_def split: option.splits prod.splits)

end
