(* ===== verification/Registrar.thy ===== *)
theory Registrar
  imports Acl_Module Contact_Header Locator_Runs Sip_User
begin

text \<open>
  The registrar module, \<^verbatim>\<open>src/src/proxy/registrar.rs\<close>: a REGISTER from its headers to the location store,
  the presence events and the reply. The store is behind its trait, here a record of operations; the
  memory store is one of its implementations. One reading of the clock stands for those of a request;
  the counters of the metrics are left out.
\<close>

section \<open>The store behind its trait\<close>

record 's locator_api =
  la_register :: "string \<Rightarrow> string option \<Rightarrow> location \<Rightarrow> 's \<Rightarrow> bool \<times> 's"
  la_unregister :: "string \<Rightarrow> string option \<Rightarrow> 's \<Rightarrow> 's"
  la_active :: "'s \<Rightarrow> string \<Rightarrow> string option \<Rightarrow> bool option"

definition memory_api :: "sip_api \<Rightarrow> instant \<Rightarrow> memory_locator locator_api" where
  "memory_api api now =
     \<lparr>la_register = (\<lambda>u r l ml. (True, ml_register api now u r l ml)),
      la_unregister = ml_unregister,
      la_active = (\<lambda>ml u r. Some (has_active_bindings ml now u r))\<rparr>"

section \<open>The module\<close>

record 's registrar_env =
  rv_sip :: sip_api
  rv_users :: user_api
  rv_header_str :: "sip_header \<Rightarrow> string"
  rv_uri_transport :: "sip_uri \<Rightarrow> transport option"
  rv_to :: "sip_request \<Rightarrow> sip_uri option"
  rv_registrar_expires :: "u32 option"
  rv_max_registrar_expires :: "u32 option"
  rv_hook :: "(string \<Rightarrow> sip_header list option) option"
  rv_locator :: "'s locator_api"
  rv_events :: bool
  rv_cluster_self_addr :: "sip_addr option"
  rv_default_contact :: "sip_addr option"
  rv_allows :: "string list option"
  rv_reply_ok :: bool
  rv_now :: instant

record 's registrar_state =
  rs_store :: 's
  rs_events :: "locator_event list"
  rs_replies :: "(u16 \<times> sip_header list) list"

definition reg_reply :: "u16 \<Rightarrow> sip_header list \<Rightarrow> 's registrar_state \<Rightarrow>
    (module_error + proxy_action) \<times> 's registrar_state" where
  "reg_reply status headers s = (Inr Abort, s\<lparr>rs_replies := rs_replies s @ [(status, headers)]\<rparr>)"

definition send_event :: "'s registrar_env \<Rightarrow> locator_event \<Rightarrow> 's registrar_state \<Rightarrow> 's registrar_state" where
  "send_event env e s = (if rv_events env then s\<lparr>rs_events := rs_events s @ [e]\<rparr> else s)"

text \<open>\<^verbatim>\<open>Unregistered\<close>, if the owner of the location has no binding left.\<close>

definition send_unregistered :: "'s registrar_env \<Rightarrow> location \<Rightarrow> 's registrar_state \<Rightarrow> 's registrar_state" where
  "send_unregistered env l s =
     (case locations_without_active_bindings (la_active (rv_locator env) (rs_store s)) [l] of
        [] \<Rightarrow> s
      | l' # _ \<Rightarrow> send_event env (Unregistered l') s)"

definition register_user :: "'s registrar_env \<Rightarrow> sip_user option \<Rightarrow> sip_transaction \<Rightarrow> sip_user option" where
  "register_user env cookie_user tx =
     (let tx_user = user_try_from (rv_users env) tx;
          user = (case cookie_user of Some u \<Rightarrow> Some u
                  | None \<Rightarrow> (case tx_user of Inr u \<Rightarrow> Some u | Inl _ \<Rightarrow> None))
      in map_option (\<lambda>u. case tx_user of Inr v \<Rightarrow> merge_with u v | Inl _ \<Rightarrow> u) user)"

definition global_expires :: "sip_request \<Rightarrow> u32 option" where
  "global_expires rq =
     Option.bind (standard_header ''Expires'' (rq_headers rq)) (\<lambda>v. map_option word_of_nat (parse_uint (2 ^ 32) v))"

definition granted_expires :: "'s registrar_env \<Rightarrow> sip_request \<Rightarrow> parsed_contact \<Rightarrow> u32" where
  "granted_expires env rq entry =
     min (case or_else (contact_expires entry) (global_expires rq) of
            Some e \<Rightarrow> e
          | None \<Rightarrow> (case rv_registrar_expires env of Some e \<Rightarrow> e | None \<Rightarrow> 30))
         (case rv_max_registrar_expires env of Some e \<Rightarrow> e | None \<Rightarrow> 50)"

definition dialog_header :: "sip_header \<Rightarrow> bool" where
  "dialog_header h =
     (case h of
        HStandard n _ \<Rightarrow> n \<in> set [''From'', ''To'', ''Call-ID'', ''CSeq'', ''Via'']
      | _ \<Rightarrow> False)"

definition web_transport :: "transport option \<Rightarrow> bool" where
  "web_transport t \<longleftrightarrow> t = Some Ws \<or> t = Some Wss"

definition contact_location :: "'s registrar_env \<Rightarrow> sip_request \<Rightarrow> sip_user \<Rightarrow> sip_uri \<Rightarrow> sip_addr \<Rightarrow> u32 \<Rightarrow>
    parsed_contact \<Rightarrow> location" where
  "contact_location env rq user aor destination expires entry =
     (let transport = contact_transport (rv_uri_transport env) entry;
          path_uris = parse_route_header (rv_sip env) (rv_header_str env) (rq_headers rq) ''Path'';
          service_routes = parse_route_header (rv_sip env) (rv_header_str env) (rq_headers rq) ''Service-Route''
      in \<lparr>loc_aor = pc_uri entry, loc_expires = expires, loc_destination = Some destination,
          loc_last_modified = Some (rv_now env),
          loc_supports_webrtc =
            (web_transport transport \<and> str_contains_str ''.invalid'' (uri_host (pc_uri entry)) \<or>
             web_transport (sad_type destination) \<or> su_is_support_webrtc user),
          loc_credential = None,
          loc_headers = Some (filter (\<lambda>h. \<not> dialog_header h) (rq_headers rq)),
          loc_registered_username = Some (su_username user), loc_registered_realm = su_realm user,
          loc_registered_aor = Some aor, loc_contact_raw = Some (contact_value entry expires),
          loc_contact_params = Some (param_map entry),
          loc_path = (if path_uris \<noteq> [] then Some path_uris else None),
          loc_service_route = (if service_routes \<noteq> [] then Some service_routes else None),
          loc_instance_id = contact_instance_id entry, loc_gruu = contact_gruu entry,
          loc_temp_gruu = contact_temp_gruu entry, loc_reg_id = contact_reg_id entry,
          loc_transport = or_else transport (sad_type destination),
          loc_user_agent = user_agent_header rq,
          loc_home_proxy = or_else (rv_cluster_self_addr env) (rv_default_contact env)\<rparr>)"

text \<open>One contact of the loop; \<open>None\<close> is the exit with 503.\<close>

definition register_contact :: "'s registrar_env \<Rightarrow> sip_request \<Rightarrow> sip_user \<Rightarrow> sip_uri \<Rightarrow> parsed_contact \<Rightarrow>
    's registrar_state \<Rightarrow> (u32 \<times> sip_header) option \<times> 's registrar_state" where
  "register_contact env rq user aor entry s =
     (let expires = granted_expires env rq entry
      in case or_else (su_destination user) (destination_from_uri (rv_uri_transport env) entry) of
           None \<Rightarrow> (None, s)
         | Some destination \<Rightarrow>
             let location = contact_location env rq user aor destination expires entry;
                 username = su_username user; realm = su_realm user
             in case (if expires = 0 then Some False else la_active (rv_locator env) (rs_store s) username realm) of
                  None \<Rightarrow> (None, s)
                | Some is_refresh \<Rightarrow>
                    (case la_register (rv_locator env) username realm location (rs_store s) of
                       (False, store) \<Rightarrow> (None, s\<lparr>rs_store := store\<rparr>)
                     | (True, store) \<Rightarrow>
                         (Some (expires, HOther ''Contact'' (contact_value entry expires)),
                          (if expires = 0 then send_unregistered env location (s\<lparr>rs_store := store\<rparr>)
                           else send_event env (if is_refresh then Refreshed location else Registered location)
                             (s\<lparr>rs_store := store\<rparr>)))))"

fun register_contacts :: "'s registrar_env \<Rightarrow> sip_request \<Rightarrow> sip_user \<Rightarrow> sip_uri \<Rightarrow> parsed_contact list \<Rightarrow> u32 \<Rightarrow>
    sip_header list \<Rightarrow> 's registrar_state \<Rightarrow> (u32 \<times> sip_header list) option \<times> 's registrar_state" where
  "register_contacts env rq user aor [] max_expires headers s = (Some (max_expires, headers), s)"
| "register_contacts env rq user aor (entry # entries) max_expires headers s =
     (case register_contact env rq user aor entry s of
        (None, s) \<Rightarrow> (None, s)
      | (Some (expires, header), s) \<Rightarrow>
          register_contacts env rq user aor entries (max max_expires expires) (headers @ [header]) s)"

definition register_wildcard :: "'s registrar_env \<Rightarrow> sip_request \<Rightarrow> sip_user \<Rightarrow> sip_uri \<Rightarrow> parsed_contact list \<Rightarrow>
    sip_header list \<Rightarrow> 's registrar_state \<Rightarrow> (module_error + proxy_action) \<times> 's registrar_state" where
  "register_wildcard env rq user aor entries headers s =
     (if 1 < length (filter pc_wildcard entries) \<or> 1 < length entries then reg_reply 400 [] s
      else if (case or_else (contact_expires (hd entries)) (global_expires rq) of Some e \<Rightarrow> e | None \<Rightarrow> 0) \<noteq> 0
      then reg_reply 400 [] s
      else
        let s = s\<lparr>rs_store := la_unregister (rv_locator env) (su_username user) (su_realm user) (rs_store s)\<rparr>;
            s = send_unregistered env ((location_of aor)\<lparr>loc_registered_username := Some (su_username user),
                  loc_registered_realm := su_realm user, loc_registered_aor := Some aor\<rparr>) s
        in reg_reply 200 headers s)"

definition allow_header :: "'s registrar_env \<Rightarrow> sip_header list" where
  "allow_header env =
     (case rv_allows env of
        Some (m # ms) \<Rightarrow> [HStandard ''Allow'' (m @ concat (map (\<lambda>x. '','' @ x) ms))]
      | _ \<Rightarrow> [])"

definition registrar_begin :: "'s registrar_env \<Rightarrow> sip_user option \<Rightarrow> sip_transaction \<Rightarrow> 's registrar_state \<Rightarrow>
    (module_error + proxy_action) \<times> 's registrar_state" where
  "registrar_begin env cookie_user tx s =
     (let rq = st_original tx
      in if st_method tx \<noteq> ''REGISTER'' then (Inr Continue, s)
         else case register_user env cookie_user tx of
                None \<Rightarrow> reg_reply 400 [] s
              | Some user \<Rightarrow>
                  (case rv_to env rq of
                     None \<Rightarrow> reg_reply 400 [] s
                   | Some aor \<Rightarrow>
                       (case parse_contact_headers (rv_sip env) (rv_header_str env) (rq_headers rq) of
                          Inl _ \<Rightarrow> reg_reply 400 [] s
                        | Inr [] \<Rightarrow> reg_reply 400 [] s
                        | Inr entries \<Rightarrow>
                            (case (case rv_hook env of None \<Rightarrow> Some [] | Some hook \<Rightarrow> hook (uri_user aor)) of
                               None \<Rightarrow>
                                 if rv_reply_ok env then reg_reply 503 [] s
                                 else (Inl HandlerError, s)
                             | Some headers \<Rightarrow>
                                 if filter pc_wildcard entries \<noteq> []
                                 then register_wildcard env rq user aor entries headers s
                                 else case register_contacts env rq user aor entries 0 headers s of
                                        (None, s) \<Rightarrow> reg_reply 503 [] s
                                      | (Some (max_expires, headers), s) \<Rightarrow>
                                          reg_reply 200 (headers @ allow_header env @
                                            [HStandard ''Expires'' (nat_to_string (unat max_expires))]) s))))"

end
