(* ===== verification/Registrar_Props.thy ===== *)
theory Registrar_Props
  imports Registrar
begin

text \<open>
  Properties of the registrar: the reply of every REGISTER, the agreement of presence events with the
  store for any store that keeps the laws of the trait, and who receives the calls of an address of
  record.
\<close>

section \<open>The reply\<close>

lemma send_event_simps [simp]:
  "rs_store (send_event env e s) = rs_store s"
  "rs_replies (send_event env e s) = rs_replies s"
  "rs_store (send_unregistered env l s) = rs_store s"
  "rs_replies (send_unregistered env l s) = rs_replies s"
  by (simp_all add: send_event_def send_unregistered_def split: list.split)

definition contact_header :: "'s registrar_env \<Rightarrow> sip_request \<Rightarrow> parsed_contact \<Rightarrow> sip_header" where
  "contact_header env rq e = HOther ''Contact'' (contact_value e (granted_expires env rq e))"

lemma register_contact_replies:
  assumes "register_contact env rq user aor entry s = (r, s')"
  shows "rs_replies s' = rs_replies s"
    and "r = Some x \<Longrightarrow> x = (granted_expires env rq entry, contact_header env rq entry)"
  using assms
  by (auto simp: register_contact_def contact_header_def Let_def split: option.splits prod.splits bool.splits if_splits)

lemma register_contacts_replies:
  "register_contacts env rq user aor entries m headers s = (r, s') \<Longrightarrow>
     rs_replies s' = rs_replies s \<and>
     (r = None \<or> r = Some (foldl max m (map (granted_expires env rq) entries), headers @ map (contact_header env rq) entries))"
proof (induction entries arbitrary: m headers s)
  case (Cons e es)
  obtain x s1 where x: "register_contact env rq user aor e s = (x, s1)" by fastforce
  note one = register_contact_replies [OF x]
  show ?case
  proof (cases x)
    case None
    with Cons.prems x one(1) show ?thesis by simp
  next
    case (Some y)
    from one(2) [OF this] Some Cons.prems x
    have "register_contacts env rq user aor es (max m (granted_expires env rq e)) (headers @ [contact_header env rq e]) s1 = (r, s')"
      by simp
    from Cons.IH [OF this] one(1) show ?thesis by simp
  qed
qed simp

lemma foldl_max: "foldl max (m :: 'a :: linorder) xs = Max (insert m (set xs))"
proof (induction xs arbitrary: m)
  case (Cons x xs)
  have "Max (insert (max m x) (set xs)) = Max (insert m (insert x (set xs)))"
    by (cases "set xs = {}") (simp_all add: ac_simps)
  with Cons show ?case by (simp add: insert_commute)
qed simp

lemma registrar_begin_cases:
  assumes "registrar_begin env cookie tx s = (Inr Abort, s')"
  obtains (refused) status where "status = 400 \<or> status = 503" "reg_reply status [] s = (Inr Abort, s')"
    | (wildcard) user aor entries hook where "register_user env cookie tx = Some user" "rv_to env (st_original tx) = Some aor"
        "parse_contact_headers (rv_sip env) (rv_header_str env) (rq_headers (st_original tx)) = Inr entries"
        "filter pc_wildcard entries \<noteq> []"
        "register_wildcard env (st_original tx) user aor entries hook s = (Inr Abort, s')"
    | (contacts) user aor entries hook r s1 where "register_user env cookie tx = Some user" "rv_to env (st_original tx) = Some aor"
        "parse_contact_headers (rv_sip env) (rv_header_str env) (rq_headers (st_original tx)) = Inr entries"
        "entries \<noteq> []" "filter pc_wildcard entries = []"
        "register_contacts env (st_original tx) user aor entries 0 hook s = (r, s1)"
        "(case r of None \<Rightarrow> reg_reply 503 [] s1
          | Some (m, hs) \<Rightarrow> reg_reply 200 (hs @ allow_header env @ [HStandard ''Expires'' (nat_to_string (unat m))]) s1)
         = (Inr Abort, s')"
proof -
  define rq where "rq = st_original tx"
  have "st_method tx = ''REGISTER''" using assms by (auto simp: registrar_begin_def Let_def split: if_splits)
  note run = assms [unfolded registrar_begin_def Let_def, folded rq_def, simplified this, simplified]
  show ?thesis
  proof (cases "register_user env cookie tx")
    case None
    with run show ?thesis by (intro refused [of 400]) simp_all
  next
    case user: (Some user)
    show ?thesis
    proof (cases "rv_to env rq")
      case None
      with run user show ?thesis by (intro refused [of 400]) simp_all
    next
      case aor: (Some aor)
      show ?thesis
      proof (cases "parse_contact_headers (rv_sip env) (rv_header_str env) (rq_headers rq)")
        case (Inl e)
        with run user aor show ?thesis by (intro refused [of 400]) simp_all
      next
        case parsed: (Inr entries)
        show ?thesis
        proof (cases "entries = []")
          case True
          with run user aor parsed show ?thesis by (intro refused [of 400]) simp_all
        next
          case False
          then have ne: "(case entries of [] \<Rightarrow> X | _ # _ \<Rightarrow> Y) = Y" for X Y :: "(module_error + proxy_action) \<times> 'a registrar_state"
            by (cases entries) simp_all
          have "\<exists>hook. (case rv_hook env of None \<Rightarrow> Some [] | Some hook \<Rightarrow> hook (uri_user aor)) = hook" by simp
          then obtain hook where hook: "(case rv_hook env of None \<Rightarrow> Some [] | Some hook \<Rightarrow> hook (uri_user aor)) = hook" ..
          show ?thesis
          proof (cases hook)
            case None
            with run user aor parsed ne hook show ?thesis
              by (intro refused [of 503]) (auto split: if_splits list.splits)
          next
            case (Some headers)
            with run user aor parsed hook False
            have run': "(if filter pc_wildcard entries \<noteq> [] then register_wildcard env rq user aor entries headers s
                else case register_contacts env rq user aor entries 0 headers s of
                  (None, s) \<Rightarrow> reg_reply 503 [] s
                | (Some (m, hs), s) \<Rightarrow> reg_reply 200 (hs @ allow_header env @ [HStandard ''Expires'' (nat_to_string (unat m))]) s)
              = (Inr Abort, s')"
              by (cases entries) (simp_all del: filter.simps register_contacts.simps split: if_splits)
            obtain r s1 where "register_contacts env rq user aor entries 0 headers s = (r, s1)" by fastforce
            with run' user aor parsed False show ?thesis
              by (cases "filter pc_wildcard entries = []")
                (auto simp: rq_def split: option.splits prod.splits intro: wildcard contacts)
          qed
        qed
      qed
    qed
  qed
qed

definition max_granted :: "'s registrar_env \<Rightarrow> u32" where
  "max_granted env = (case rv_max_registrar_expires env of Some e \<Rightarrow> e | None \<Rightarrow> 50)"

lemma granted_le: "granted_expires env rq e \<le> max_granted env"
  by (simp add: granted_expires_def max_granted_def)

text \<open>C9. A REGISTER that is handled is answered exactly once. A 400 leaves bindings and presence
  untouched. A 200 to listed contacts carries one Contact per contact, in order, each with the
  expiry it was granted, none of them above the configured maximum, and an Expires header that is
  the largest of them.\<close>

theorem register_reply_exact:
  assumes "registrar_begin env cookie tx s = (Inr Abort, s')"
  shows "\<exists>status headers. rs_replies s' = rs_replies s @ [(status, headers)] \<and> status \<in> {200, 400, 503} \<and>
    (status = 400 \<longrightarrow> rs_store s' = rs_store s \<and> rs_events s' = rs_events s) \<and>
    (status = 200 \<longrightarrow> (\<exists>entries hook.
       parse_contact_headers (rv_sip env) (rv_header_str env) (rq_headers (st_original tx)) = Inr entries \<and>
       entries \<noteq> [] \<and>
       ((\<exists>c. entries = [c] \<and> pc_wildcard c) \<or>
        headers = hook @ map (contact_header env (st_original tx)) entries @ allow_header env @
          [HStandard ''Expires'' (nat_to_string (unat (Max (granted_expires env (st_original tx) ` set entries))))] \<and>
        (\<forall>e \<in> set entries. granted_expires env (st_original tx) e \<le> max_granted env))))"
using assms
proof (cases rule: registrar_begin_cases)
  case (refused status)
  then show ?thesis by (auto simp: reg_reply_def)
next
  case (wildcard user aor entries hook)
  have len: "length entries \<le> 1 \<Longrightarrow> \<exists>c. entries = [c] \<and> pc_wildcard c"
    using wildcard(4) by (cases entries) (auto split: if_splits)
  from wildcard(5) show ?thesis
    using wildcard(3,4) len
    by (auto simp: register_wildcard_def reg_reply_def Let_def split: if_splits)
next
  case (contacts user aor entries hook r s1)
  let ?g = "granted_expires env (st_original tx)"
  note rep = register_contacts_replies [OF contacts(6)]
  have "foldl max 0 (map ?g entries) = Max (?g ` set entries)"
    using contacts(4) by (simp add: foldl_max Max_insert)
  with rep contacts show ?thesis
    by (cases r) (auto simp: reg_reply_def granted_le)
qed

section \<open>Presence\<close>

text \<open>A subscriber that follows the events of one user.\<close>

fun presence_after :: "locator_event \<Rightarrow> bool \<Rightarrow> bool" where
  "presence_after (Registered l) p = True"
| "presence_after (Refreshed l) p = True"
| "presence_after (Unregistered l) p = False"
| "presence_after (Offline ls reason) p = False"

lemma offline_one:
  "loc_registered_username l = Some u \<Longrightarrow>
     locations_without_active_bindings active [l] = (if active u (loc_registered_realm l) = Some False then [l] else [])"
  by (simp add: locations_without_active_bindings_def group_location_def hm_insert_def Let_def)

text \<open>What the registrar relies on of a store: registering makes a named user active, unbinding a
  contact never does, unregistering leaves the user inactive, a refused registration changes nothing
  and what is kept for the others stays as it is.\<close>

locale presence_store =
  fixes la :: "'s locator_api" and now :: instant and inv :: "'s \<Rightarrow> bool" and named :: "string \<Rightarrow> bool"
    and others :: "string \<Rightarrow> string option \<Rightarrow> 's \<Rightarrow> 'v"
  assumes register_keeps: "inv st \<Longrightarrow> inv (snd (la_register la u r l st))"
    and unregister_keeps: "inv st \<Longrightarrow> inv (la_unregister la u r st)"
    and active_known: "inv st \<Longrightarrow> la_active la st u r \<noteq> None"
    and register_refused: "inv st \<Longrightarrow> la_register la u r l st = (False, st') \<Longrightarrow> st' = st"
    and register_activates: "inv st \<Longrightarrow> named u \<Longrightarrow> loc_last_modified l = Some now \<Longrightarrow> loc_expires l \<noteq> 0 \<Longrightarrow>
      la_register la u r l st = (True, st') \<Longrightarrow> la_active la st' u r = Some True"
    and unbind_keeps_inactive: "inv st \<Longrightarrow> loc_expires l = 0 \<Longrightarrow> la_register la u r l st = (True, st') \<Longrightarrow>
      la_active la st u r = Some False \<Longrightarrow> la_active la st' u r = Some False"
    and unregister_deactivates: "inv st \<Longrightarrow> la_active la (la_unregister la u r st) u r = Some False"
    and register_others: "inv st \<Longrightarrow> others u r (snd (la_register la u r l st)) = others u r st"
    and unregister_others: "inv st \<Longrightarrow> others u r (la_unregister la u r st) = others u r st"
begin

definition agrees :: "sip_user \<Rightarrow> 's registrar_state \<Rightarrow> 's registrar_state \<Rightarrow> bool" where
  "agrees user s s' \<longleftrightarrow> inv (rs_store s') \<and>
     others (su_username user) (su_realm user) (rs_store s') = others (su_username user) (su_realm user) (rs_store s) \<and>
     (\<exists>evs. rs_events s' = rs_events s @ evs \<and>
       (\<forall>p. la_active la (rs_store s) (su_username user) (su_realm user) = Some p \<longrightarrow>
         la_active la (rs_store s') (su_username user) (su_realm user) = Some (fold presence_after evs p)))"

lemma agrees_refl: "inv (rs_store s) \<Longrightarrow> agrees user s s"
  by (auto simp: agrees_def intro: exI [of _ "[]"])

lemma agrees_trans:
  assumes "agrees user s1 s2" "agrees user s2 s3"
  shows "agrees user s1 s3"
proof -
  obtain e1 where e1: "rs_events s2 = rs_events s1 @ e1"
    "\<forall>p. la_active la (rs_store s1) (su_username user) (su_realm user) = Some p \<longrightarrow>
       la_active la (rs_store s2) (su_username user) (su_realm user) = Some (fold presence_after e1 p)"
    using assms(1) by (auto simp: agrees_def)
  obtain e2 where e2: "rs_events s3 = rs_events s2 @ e2"
    "\<forall>p. la_active la (rs_store s2) (su_username user) (su_realm user) = Some p \<longrightarrow>
       la_active la (rs_store s3) (su_username user) (su_realm user) = Some (fold presence_after e2 p)"
    using assms(2) by (auto simp: agrees_def)
  show ?thesis
    using assms e1 e2 unfolding agrees_def by (intro conjI exI [of _ "e1 @ e2"]) auto
qed

lemma agrees_reply: "agrees user s (s'\<lparr>rs_replies := x\<rparr>) = agrees user s s'"
  by (simp add: agrees_def)

lemma unregistered_agrees:
  assumes "inv (rs_store s')" "rv_locator env = la" "rv_events env" "rs_events s' = rs_events s"
    and "others (su_username user) (su_realm user) (rs_store s') = others (su_username user) (su_realm user) (rs_store s)"
    and "loc_registered_username l = Some (su_username user)" "loc_registered_realm l = su_realm user"
    and "la_active la (rs_store s) (su_username user) (su_realm user) = Some False \<Longrightarrow>
      la_active la (rs_store s') (su_username user) (su_realm user) = Some False"
  shows "agrees user s (send_unregistered env l s')"
proof -
  obtain b where b: "la_active la (rs_store s') (su_username user) (su_realm user) = Some b"
    using active_known [OF assms(1)] by blast
  have one: "locations_without_active_bindings (la_active la (rs_store s')) [l] = (if b then [] else [l])"
    using offline_one [OF assms(6)] assms(7) b by simp
  show ?thesis
  proof (cases b)
    case True
    with assms(8) b have "\<forall>p. la_active la (rs_store s) (su_username user) (su_realm user) = Some p \<longrightarrow> p"
      by (metis (full_types) option.inject)
    with True one assms b have "send_unregistered env l s' = s'" "agrees user s s'"
      by (simp_all add: agrees_def send_unregistered_def)
    then show ?thesis by simp
  next
    case False
    with one assms b show ?thesis
      by (auto simp: agrees_def send_unregistered_def send_event_def intro!: exI [of _ "[Unregistered l]"])
  qed
qed

lemma contact_agrees:
  assumes "inv (rs_store s)" "named (su_username user)" "rv_locator env = la" "rv_events env" "rv_now env = now"
    and "register_contact env rq user aor entry s = (res, s')"
  shows "agrees user s s'"
proof -
  let ?u = "su_username user" and ?r = "su_realm user"
  obtain d where d: "or_else (su_destination user) (destination_from_uri (rv_uri_transport env) entry) = Some d"
    by (cases "su_destination user") (auto simp: destination_from_uri_def)
  define e where "e = granted_expires env rq entry"
  define l where "l = contact_location env rq user aor d e entry"
  have l: "loc_expires l = e" "loc_last_modified l = Some now"
    "loc_registered_username l = Some ?u" "loc_registered_realm l = ?r"
    using assms(5) by (simp_all add: l_def contact_location_def Let_def)
  obtain b where b: "la_active la (rs_store s) ?u ?r = Some b" using active_known [OF assms(1)] by blast
  obtain ok st where reg: "la_register la ?u ?r l (rs_store s) = (ok, st)" by fastforce
  have keeps: "inv st" "others ?u ?r st = others ?u ?r (rs_store s)"
    using register_keeps [OF assms(1), of ?u ?r l] register_others [OF assms(1), of ?u ?r l] reg by simp_all
  note run = assms(6) [unfolded register_contact_def Let_def d option.case assms(3), folded e_def, folded l_def, unfolded b reg]
  show ?thesis
  proof (cases ok)
    case False
    with register_refused [OF assms(1)] reg have "st = rs_store s" by simp
    with run False have "s' = s" by (cases "e = 0") (auto simp: b)
    with assms(1) show ?thesis by (simp add: agrees_refl)
  next
    case True
    show ?thesis
    proof (cases "e = 0")
      case zero: True
      with run True have "s' = send_unregistered env l (s\<lparr>rs_store := st\<rparr>)" by simp
      moreover have "agrees user s (send_unregistered env l (s\<lparr>rs_store := st\<rparr>))"
        using unbind_keeps_inactive [OF assms(1), of l ?u ?r st] reg True zero keeps l assms(3,4)
        by (intro unregistered_agrees) simp_all
      ultimately show ?thesis by simp
    next
      case False
      with run True have "s' = send_event env (if b then Refreshed l else Registered l) (s\<lparr>rs_store := st\<rparr>)" by simp
      moreover have "la_active la st ?u ?r = Some True"
        using register_activates [OF assms(1,2) l(2)] l(1) False reg True by simp
      ultimately show ?thesis using keeps assms(4)
        by (auto simp: agrees_def send_event_def intro!: exI [of _ "[if b then Refreshed l else Registered l]"])
    qed
  qed
qed

lemma contacts_agree:
  assumes "named (su_username user)" "rv_locator env = la" "rv_events env" "rv_now env = now"
  shows "inv (rs_store s) \<Longrightarrow> register_contacts env rq user aor entries m headers s = (res, s') \<Longrightarrow> agrees user s s'"
proof (induction entries arbitrary: m headers s)
  case (Cons e es)
  obtain x s1 where x: "register_contact env rq user aor e s = (x, s1)" by fastforce
  from contact_agrees [OF Cons.prems(1) assms this] have one: "agrees user s s1" .
  then have "inv (rs_store s1)" by (simp add: agrees_def)
  with Cons.IH Cons.prems(2) x one show ?case
    by (auto split: option.splits prod.splits intro: agrees_trans)
qed (simp add: agrees_refl)

lemma register_agrees:
  assumes "inv (rs_store s)" "rv_locator env = la" "rv_events env" "rv_now env = now"
    and "register_user env cookie tx = Some user" "named (su_username user)"
    and "registrar_begin env cookie tx s = (Inr Abort, s')"
  shows "agrees user s s'"
  using assms(7)
proof (cases rule: registrar_begin_cases)
  case (refused status)
  with assms(1) show ?thesis by (auto simp: reg_reply_def agrees_reply agrees_refl)
next
  case (wildcard user' aor entries hook)
  let ?l = "(location_of aor)\<lparr>loc_registered_username := Some (su_username user),
    loc_registered_realm := su_realm user, loc_registered_aor := Some aor\<rparr>"
  let ?s = "s\<lparr>rs_store := la_unregister la (su_username user) (su_realm user) (rs_store s)\<rparr>"
  have "agrees user s (send_unregistered env ?l ?s)"
    using assms(1-3) unregister_keeps unregister_others unregister_deactivates by (intro unregistered_agrees) simp_all
  moreover have "user' = user" using wildcard(1) assms(5) by simp
  then have "s' = s\<lparr>rs_replies := rs_replies s @ [(400, [])]\<rparr> \<or>
      s' = (send_unregistered env ?l ?s)\<lparr>rs_replies := rs_replies s @ [(200, hook)]\<rparr>"
    using wildcard(5) by (simp add: register_wildcard_def reg_reply_def Let_def assms(2) split: if_splits)
  ultimately show ?thesis using agrees_refl [OF assms(1), of user] agrees_reply by metis
next
  case (contacts user' aor entries hook r s1)
  with assms(5) have "agrees user s s1" by (auto intro: contacts_agree [OF assms(6,2,3,4,1)])
  with contacts(7) show ?thesis by (cases r) (auto simp: reg_reply_def agrees_reply)
qed

end

lemma identifier_named: "get_identifier check u r = [] \<longleftrightarrow> trim u = []"
  by (simp add: get_identifier_def to_ascii_lowercase_def Let_def split: option.split)

lemma live_fresh: "loc_last_modified l = Some now \<Longrightarrow> loc_expires l \<noteq> 0 \<Longrightarrow> live now l"
  by (simp add: live_def is_expired_at_def unat_eq_0)

lemma unbind_subset:
  assumes "store_ok ml" "loc_expires l = 0" "binding (ml_register api now u r l ml) i k = Some l'"
  shows "binding ml i k = Some l'"
proof (cases "ml_identifier ml u r = []")
  case True
  with assms(3) show ?thesis by (simp add: ml_register_def Let_def)
next
  case False
  let ?i = "ml_identifier ml u r"
  from assms(3) have "binding (update_bindings (hm_remove (binding_key api l)) ?i (pruned now ?i ml)) i k = Some l'"
    by (simp add: ml_register_unbinds [OF False assms(2)])
  then have "binding (pruned now ?i ml) i k = Some l'"
    unfolding binding_update by (auto simp: binding_def bind_eq_Some_conv split: if_splits)
  then show ?thesis by (auto simp: binding_pruned [OF assms(1)] split: option.splits if_splits)
qed

lemma register_other_identity:
  assumes "store_ok ml" "j \<noteq> ml_identifier ml u r"
  shows "binding (ml_register api now u r l ml) j k = binding ml j k"
proof (cases "ml_identifier ml u r = []")
  case True
  then show ?thesis by (simp add: ml_register_def Let_def)
next
  case False
  let ?i = "ml_identifier ml u r"
  have pruned: "binding (pruned now ?i ml) j k = binding ml j k"
    using assms by (simp add: binding_pruned split: option.split)
  show ?thesis
  proof (cases "loc_expires l = 0")
    case True
    with pruned assms(2) show ?thesis by (simp add: ml_register_unbinds [OF False] binding_update)
  next
    case nz: False
    have "binding (redirected api now ?i l (pruned now ?i ml)) j k = binding (pruned now ?i ml) j k"
      using assms(2) by (simp add: redirected_def binding_set split: option.split)
    with pruned assms(2) show ?thesis by (simp add: ml_register_binds [OF False nz] Let_def binding_set)
  qed
qed

lemma unregister_effect:
  assumes "store_ok ml"
  shows "\<not> has_active_bindings (ml_unregister u r ml) now u r"
    and "ml_is_local_realm (ml_unregister u r ml) = ml_is_local_realm ml"
    and "j \<noteq> ml_identifier ml u r \<Longrightarrow> binding (ml_unregister u r ml) j k = binding ml j k"
  by (simp_all add: ml_unregister_def has_active_bindings_def binding_def Let_def)

interpretation memory_presence: presence_store "memory_api api now" now "locator_inv api" "\<lambda>u. trim u \<noteq> []"
    "\<lambda>u r ml. (ml_is_local_realm ml, \<lambda>j k. if j = ml_identifier ml u r then None else binding ml j k)" for api now
proof
  fix ml ml' u r l
  assume inv: "locator_inv api ml"
  then have ok: "store_ok ml" by (simp add: locator_inv_def)
  let ?f = "\<lambda>u r ml. (ml_is_local_realm ml, \<lambda>j k. if j = ml_identifier ml u r then None else binding ml j k)"
  show "locator_inv api (snd (la_register (memory_api api now) u r l ml))"
    "locator_inv api (la_unregister (memory_api api now) u r ml)"
    "la_active (memory_api api now) ml u r \<noteq> None"
    using inv by (simp_all add: memory_api_def register_inv unregister_inv)
  show "ml' = ml" if "la_register (memory_api api now) u r l ml = (False, ml')"
    using that by (simp add: memory_api_def)
  show "la_active (memory_api api now) (la_unregister (memory_api api now) u r ml) u r = Some False"
    using unregister_effect(1) [OF ok] by (simp add: memory_api_def)
  show "?f u r (snd (la_register (memory_api api now) u r l ml)) = ?f u r ml"
    by (auto simp: memory_api_def ml_register_checker register_other_identity [OF ok] fun_eq_iff)
  show "?f u r (la_unregister (memory_api api now) u r ml) = ?f u r ml"
    by (auto simp: memory_api_def unregister_effect [OF ok] fun_eq_iff)
  show "la_active (memory_api api now) ml' u r = Some True"
    if "trim u \<noteq> []" "loc_last_modified l = Some now" "loc_expires l \<noteq> 0"
      "la_register (memory_api api now) u r l ml = (True, ml')"
  proof -
    have ident: "ml_identifier ml u r \<noteq> []" using that(1) by (simp add: identifier_named)
    note eff = ml_register_effect [OF ok ident that(3), of api now]
    have "ml' = ml_register api now u r l ml" using that(4) by (simp add: memory_api_def)
    moreover have "live now (stored_location now u r l)"
      using that(2,3) by (intro live_fresh) (simp_all add: stored_location_def)
    ultimately show ?thesis using eff(1-3) ident by (auto simp: memory_api_def has_active_iff)
  qed
  show "la_active (memory_api api now) ml' u r = Some False"
    if "loc_expires l = 0" "la_register (memory_api api now) u r l ml = (True, ml')"
      "la_active (memory_api api now) ml u r = Some False"
  proof -
    have eq: "ml' = ml_register api now u r l ml" using that(2) by (simp add: memory_api_def)
    with register_inv [OF inv] have "store_ok ml'" by (simp add: locator_inv_def)
    with that(3) unbind_subset [OF ok that(1)] show ?thesis
      by (simp add: memory_api_def has_active_iff ok eq ml_register_checker) blast
  qed
qed

text \<open>C8. Presence events never drift from the store: a subscriber that agrees with the memory store
  about a user before a REGISTER of that user agrees with it afterwards, whatever the contacts of the
  request and however it ends, and the bindings of every other identity stay as they are.\<close>

theorem register_presence_agrees:
  assumes "rv_locator env = memory_api (rv_sip env) (rv_now env)" "rv_events env"
    and "locator_inv (rv_sip env) (rs_store s)"
    and "register_user env cookie tx = Some user" "trim (su_username user) \<noteq> []"
    and "registrar_begin env cookie tx s = (Inr Abort, s')"
  shows "\<exists>evs. rs_events s' = rs_events s @ evs \<and>
    has_active_bindings (rs_store s') (rv_now env) (su_username user) (su_realm user)
      = fold presence_after evs (has_active_bindings (rs_store s) (rv_now env) (su_username user) (su_realm user)) \<and>
    (\<forall>j k. j \<noteq> ml_identifier (rs_store s) (su_username user) (su_realm user) \<longrightarrow>
      binding (rs_store s') j k = binding (rs_store s) j k)"
proof -
  let ?u = "su_username user" and ?r = "su_realm user"
  have "memory_presence.agrees (rv_sip env) (rv_now env) user s s'"
    using assms by (intro memory_presence.register_agrees) simp_all
  then obtain evs where evs: "rs_events s' = rs_events s @ evs"
    "has_active_bindings (rs_store s') (rv_now env) ?u ?r
      = fold presence_after evs (has_active_bindings (rs_store s) (rv_now env) ?u ?r)"
    "ml_is_local_realm (rs_store s') = ml_is_local_realm (rs_store s)"
    "(\<lambda>j k. if j = ml_identifier (rs_store s') ?u ?r then None else binding (rs_store s') j k)
      = (\<lambda>j k. if j = ml_identifier (rs_store s) ?u ?r then None else binding (rs_store s) j k)"
    unfolding memory_presence.agrees_def by (auto simp: memory_api_def)
  have "binding (rs_store s') j k = binding (rs_store s) j k" if "j \<noteq> ml_identifier (rs_store s) ?u ?r" for j k
    using fun_cong [OF fun_cong [OF evs(4), of j], of k] evs(3) that by simp
  with evs(1,2) show ?thesis by blast
qed

section \<open>Delivery\<close>

lemma register_one_contact:
  assumes "rv_locator env = memory_api (rv_sip env) (rv_now env)"
    and "st_method tx = ''REGISTER''" "register_user env cookie tx = Some user"
    and "rv_to env (st_original tx) = Some aor" "rv_hook env = None"
    and "parse_contact_headers (rv_sip env) (rv_header_str env) (rq_headers (st_original tx)) = Inr [entry]"
    and "\<not> pc_wildcard entry" "granted_expires env (st_original tx) entry \<noteq> 0"
  shows "\<exists>s' headers l. registrar_begin env cookie tx s = (Inr Abort, s') \<and>
    rs_replies s' = rs_replies s @ [(200, headers)] \<and>
    rs_store s' = ml_register (rv_sip env) (rv_now env) (su_username user) (su_realm user) l (rs_store s) \<and>
    loc_expires l \<noteq> 0 \<and> loc_last_modified l = Some (rv_now env) \<and> loc_registered_aor l = Some aor \<and>
    loc_aor l = pc_uri entry"
proof -
  let ?u = "su_username user" and ?r = "su_realm user" and ?rq = "st_original tx"
  let ?e = "granted_expires env ?rq entry"
  obtain d where d: "or_else (su_destination user) (destination_from_uri (rv_uri_transport env) entry) = Some d"
    by (cases "su_destination user") (auto simp: destination_from_uri_def)
  define l where "l = contact_location env ?rq user aor d ?e entry"
  define b where "b = has_active_bindings (rs_store s) (rv_now env) ?u ?r"
  define ml' where "ml' = ml_register (rv_sip env) (rv_now env) ?u ?r l (rs_store s)"
  have l: "loc_expires l = ?e" "loc_last_modified l = Some (rv_now env)" "loc_registered_aor l = Some aor"
    "loc_aor l = pc_uri entry"
    by (simp_all add: l_def contact_location_def Let_def)
  have contact: "register_contact env ?rq user aor entry s
      = (Some (?e, contact_header env ?rq entry),
         send_event env (if b then Refreshed l else Registered l) (s\<lparr>rs_store := ml'\<rparr>))"
    using assms(8) by (simp add: register_contact_def d assms(1) memory_api_def Let_def contact_header_def
        l_def [symmetric] b_def [symmetric] ml'_def [symmetric])
  have "\<exists>s' headers. registrar_begin env cookie tx s = (Inr Abort, s') \<and>
      rs_replies s' = rs_replies s @ [(200, headers)] \<and> rs_store s' = ml'"
    using assms(2-7) contact by (simp add: registrar_begin_def reg_reply_def Let_def)
  with l assms(8) show ?thesis unfolding ml'_def by metis
qed

lemma register_one_active:
  assumes "locator_inv api ml" "trim u \<noteq> []" "loc_expires l \<noteq> 0" "loc_last_modified l = Some now"
  shows "has_active_bindings (ml_register api now u r l ml) now u r"
  using memory_presence.register_activates [OF assms(1,2,4,3), where r = r and st' = "ml_register api now u r l ml"]
  by (simp add: memory_api_def)

text \<open>C10. A registration takes the calls of the address in its To header: after a REGISTER of one
  contact, a lookup of that address returns the contact first. Nothing relates the address to the
  user the request was accepted for, so this holds for the address of any other user.\<close>

theorem register_takes_calls:
  assumes "rv_locator env = memory_api (rv_sip env) (rv_now env)" "locator_inv (rv_sip env) (rs_store s)"
    and "st_method tx = ''REGISTER''" "register_user env cookie tx = Some user" "trim (su_username user) \<noteq> []"
    and "rv_to env (st_original tx) = Some aor" "rv_hook env = None"
    and "parse_contact_headers (rv_sip env) (rv_header_str env) (rq_headers (st_original tx)) = Inr [entry]"
    and "\<not> pc_wildcard entry" "granted_expires env (st_original tx) entry \<noteq> 0"
    and "\<And>old t. old \<in> stored (rs_store s) \<Longrightarrow> loc_last_modified old = Some t \<Longrightarrow> t < rv_now env"
  shows "\<exists>s' headers l rest. registrar_begin env cookie tx s = (Inr Abort, s') \<and>
    rs_replies s' = rs_replies s @ [(200, headers)] \<and>
    ml_lookup (rv_sip env) (rs_store s') aor = l # rest \<and>
    loc_aor l = pc_uri entry \<and> loc_registered_username l = Some (su_username user)"
proof -
  obtain s' headers l where run: "registrar_begin env cookie tx s = (Inr Abort, s')"
    "rs_replies s' = rs_replies s @ [(200, headers)]"
    "rs_store s' = ml_register (rv_sip env) (rv_now env) (su_username user) (su_realm user) l (rs_store s)"
    "loc_expires l \<noteq> 0" "loc_last_modified l = Some (rv_now env)" "loc_registered_aor l = Some aor" "loc_aor l = pc_uri entry"
    using register_one_contact [OF assms(1,3,4,6-10), of s] by blast
  have "\<exists>rest. ml_lookup (rv_sip env) (rs_store s') aor = l\<lparr>loc_registered_username := Some (su_username user),
      loc_registered_realm := su_realm user, loc_last_modified := Some (rv_now env)\<rparr> # rest"
    unfolding run(3) using assms(5,11) run(4-6)
    by (intro registered_leads assms(2)) (simp_all add: identifier_named direct_hit_def stored_location_def)
  with run(1,2,7) show ?thesis by fastforce
qed

end
