(* ===== verification/Registrar_Runs.thy ===== *)
theory Registrar_Runs
  imports Registrar_Props
begin

text \<open>Concrete runs of the registrar.\<close>

definition demo_users :: user_api where
  "demo_users = \<lparr>ux_from = (\<lambda>_. None), ux_from_display = (\<lambda>_. None), ux_contact = (\<lambda>_. None),
     ux_via_target = (\<lambda>_. None), ux_authorization = (\<lambda>_. None), ux_host_ip = (\<lambda>_. None),
     ux_sip_scheme = (\<lambda>_. Sip), ux_transport_param = (\<lambda>_. [])\<rparr>"

definition demo_header_str :: "sip_header \<Rightarrow> string" where
  "demo_header_str h = (case h of HContact v \<Rightarrow> ''Contact:'' @ v | _ \<Rightarrow> [])"

definition demo_bob :: sip_uri where
  "demo_bob = \<lparr>uri_scheme = Some Sip, uri_auth = Some \<lparr>au_user = ''bob'', au_password = None\<rparr>,
     uri_host_with_port = \<lparr>hp_host = ''x'', hp_port = None\<rparr>, uri_params = []\<rparr>"

definition demo_registrar :: "memory_locator registrar_env" where
  "demo_registrar = \<lparr>rv_sip = demo_uri_api, rv_users = demo_users, rv_header_str = demo_header_str,
     rv_uri_transport = (\<lambda>_. None), rv_to = (\<lambda>_. Some demo_bob), rv_registrar_expires = None,
     rv_max_registrar_expires = None, rv_hook = None, rv_locator = memory_api demo_uri_api 7, rv_events = True,
     rv_cluster_self_addr = None, rv_default_contact = None, rv_allows = None, rv_reply_ok = True, rv_now = 7\<rparr>"

definition demo_register :: sip_transaction where
  "demo_register = \<lparr>st_method = ''REGISTER'', st_original = \<lparr>rq_uri = demo_bob, rq_headers = [HContact ''sip:a@h'']\<rparr>,
     st_connection = None, st_addrs = []\<rparr>"

definition demo_alice :: sip_user where
  "demo_alice = user_default\<lparr>su_username := ''alice''\<rparr>"

definition demo_start :: "memory_locator registrar_state" where
  "demo_start = \<lparr>rs_store = memory_locator_new, rs_events = [], rs_replies = []\<rparr>"

lemma demo_register_user: "register_user demo_registrar (Some demo_alice) demo_register = Some demo_alice"
  by (simp add: register_user_def user_try_from_def demo_registrar_def demo_users_def)

lemma demo_alice_named: "trim (su_username demo_alice) \<noteq> []"
  by (simp add: demo_alice_def trim_def trim_start_def trim_end_def is_white_def code_def)

lemma demo_start_inv: "locator_inv api (rs_store demo_start)"
  by (simp add: demo_start_def locator_inv_def store_ok_def bindings_ok_def memory_locator_new_def binding_def)

lemma register_handled:
  assumes "st_method tx = ''REGISTER''" "rv_hook env = None"
  shows "\<exists>s'. registrar_begin env cookie tx s = (Inr Abort, s')"
  using assms by (simp add: registrar_begin_def reg_reply_def register_wildcard_def Let_def
      split: option.split sum.split list.split prod.split)

definition demo_bound_contact :: parsed_contact where
  "demo_bound_contact = \<lparr>pc_display_name = None, pc_uri = the (sa_parse_uri demo_uri_api ''sip:a@h''),
     pc_uri_string = ''sip:a@h'', pc_params = [], pc_wildcard = False, pc_has_angle_brackets = False\<rparr>"

lemma demo_contacts:
  "parse_contact_headers demo_uri_api demo_header_str [HContact ''sip:a@h''] = Inr [demo_bound_contact]"
proof -
  have "collect_header_values demo_header_str [HContact ''sip:a@h''] ''Contact'' = [''sip:a@h'']"
    by (simp add: collect_header_values_def demo_header_str_def map_filter_def trim_def trim_start_def trim_end_def is_white_def
      code_def)
  moreover have "split_contact_entries ''sip:a@h'' = [''sip:a@h'']"
    by (simp add: split_contact_entries_def trim_def trim_start_def trim_end_def is_white_def code_def)
  moreover have "parse_contact_entry demo_uri_api ''sip:a@h'' = Inr demo_bound_contact"
    by (simp add: parse_contact_entry_def demo_bound_contact_def take_display_name_def starts_with_def parse_contact_params_def
      push_param_def trim_def trim_start_def trim_end_def is_white_def code_def demo_uri_api_def Let_def)
  ultimately show ?thesis by (simp add: parse_contact_headers_def)
qed

theorem register_reply_exact_witness:
  "\<exists>s' status headers. registrar_begin demo_registrar (Some demo_alice) demo_register demo_start = (Inr Abort, s') \<and>
     rs_replies s' = [(status, headers)] \<and> status \<in> {200, 400, 503}"
proof -
  obtain s' where "registrar_begin demo_registrar (Some demo_alice) demo_register demo_start = (Inr Abort, s')"
    using register_handled [of demo_register demo_registrar] by (auto simp: demo_register_def demo_registrar_def)
  with register_reply_exact [OF this] show ?thesis by (auto simp: demo_start_def)
qed

theorem register_presence_agrees_witness:
  "\<exists>s' evs. registrar_begin demo_registrar (Some demo_alice) demo_register demo_start = (Inr Abort, s') \<and>
     rs_events s' = evs \<and>
     has_active_bindings (rs_store s') 7 ''alice'' None
       = fold presence_after evs (has_active_bindings memory_locator_new 7 ''alice'' None)"
proof -
  obtain s' where run: "registrar_begin demo_registrar (Some demo_alice) demo_register demo_start = (Inr Abort, s')"
    using register_handled [of demo_register demo_registrar] by (auto simp: demo_register_def demo_registrar_def)
  have "rv_locator demo_registrar = memory_api (rv_sip demo_registrar) (rv_now demo_registrar)" "rv_events demo_registrar"
    "rv_now demo_registrar = 7" by (simp_all add: demo_registrar_def)
  with register_presence_agrees [OF this(1,2) demo_start_inv demo_register_user demo_alice_named run] run
  show ?thesis by (auto simp: demo_start_def demo_alice_def user_default_def)
qed

theorem register_takes_calls_witness:
  "\<exists>s' l rest. registrar_begin demo_registrar (Some demo_alice) demo_register demo_start = (Inr Abort, s') \<and>
     ml_lookup demo_uri_api (rs_store s') demo_bob = l # rest \<and> loc_registered_username l = Some ''alice''"
proof -
  have "\<exists>s' headers l rest. registrar_begin demo_registrar (Some demo_alice) demo_register demo_start = (Inr Abort, s') \<and>
    rs_replies s' = rs_replies demo_start @ [(200, headers)] \<and>
    ml_lookup (rv_sip demo_registrar) (rs_store s') demo_bob = l # rest \<and>
    loc_aor l = pc_uri demo_bound_contact \<and> loc_registered_username l = Some (su_username demo_alice)"
  proof (rule register_takes_calls [OF _ demo_start_inv _ demo_register_user demo_alice_named])
    show "parse_contact_headers (rv_sip demo_registrar) (rv_header_str demo_registrar)
        (rq_headers (st_original demo_register)) = Inr [demo_bound_contact]"
      using demo_contacts by (simp add: demo_registrar_def demo_register_def)
    show "granted_expires demo_registrar (st_original demo_register) demo_bound_contact \<noteq> 0"
      by (simp add: granted_expires_def contact_expires_def contact_param_value_def demo_bound_contact_def global_expires_def
        demo_register_def standard_header_def map_filter_def demo_registrar_def)
  qed (simp_all add: demo_registrar_def demo_register_def demo_bound_contact_def demo_start_def stored_def all_bindings_def
      memory_locator_new_def)
  then show ?thesis by (auto simp: demo_registrar_def demo_alice_def)
qed

end
