(* ===== verification/Security_Bans.thy ===== *)
theory Security_Bans
  imports Route_Functions Net_Addr Rust_Time Interfaces
begin

text \<open>
  The ban list, \<^verbatim>\<open>src/src/security/mod.rs\<close>: failures per address, bans in memory and in their table, release
  and reload. The table is a parameter with the operations the code calls. The readings of both clocks
  are arguments, and a ban stays within the range of the monotonic clock; alerts are left out. Signed integers
  are words read with \<open>sint\<close>, and their arithmetic wraps as in a release build.
\<close>

type_synonym i32 = "32 word"
type_synonym i64 = "64 word"

record ban_config =
  bc_enabled :: bool
  bc_max_failures :: u32
  bc_window_secs :: u64
  bc_ban_durations_secs :: "u64 list"
  bc_protected_cidrs :: "string list"

record ban_record =
  br_reason :: string
  br_last_username :: "string option"
  br_last_method :: "string option"
  br_offense_count :: i32
  br_banned_until :: i64
  br_created_at :: i64
  br_released_at :: "i64 option"
  br_released_by :: "string option"

text \<open>Queries of the table, \<open>None\<close> on a database error. \<open>bd_upsert key row update\<close> inserts the row, or
  on a conflict of keys applies the update to the row that is there.\<close>

record 'd ban_db =
  bd_find :: "'d \<Rightarrow> string \<Rightarrow> ban_record option option"
  bd_upsert :: "string \<Rightarrow> ban_record \<Rightarrow> (ban_record \<Rightarrow> ban_record) \<Rightarrow> 'd \<Rightarrow> 'd option"
  bd_update :: "string \<Rightarrow> ban_record \<Rightarrow> 'd \<Rightarrow> 'd option"
  bd_select :: "(ban_record \<Rightarrow> bool) \<Rightarrow> 'd \<Rightarrow> (string \<times> ban_record) list option"

record ban_clock =
  bk_now :: instant
  bk_unix :: i64

record 'd ban_store =
  bs_banned :: "(ip_addr, instant) hmap"
  bs_failures :: "(ip_addr, instant list) hmap"
  bs_table :: 'd

section \<open>Looking up\<close>

definition instant_from_unix :: "ban_clock \<Rightarrow> i64 \<Rightarrow> instant" where
  "instant_from_unix clk ts = bk_now clk + from_secs (nat (max 0 (sint (ts - bk_unix clk))))"

definition is_banned :: "instant \<Rightarrow> ip_addr \<Rightarrow> 'd ban_store \<Rightarrow> bool" where
  "is_banned now ip s = (case hm_get (bs_banned s) ip of Some t \<Rightarrow> now < t | None \<Rightarrow> False)"

definition ban_active :: "i64 \<Rightarrow> ban_record \<Rightarrow> bool" where
  "ban_active now_ts rec \<longleftrightarrow> sint now_ts < sint (br_banned_until rec) \<and> br_released_at rec = None"

definition ban_reload :: "'d ban_db \<Rightarrow> ban_clock \<Rightarrow> 'd ban_store \<Rightarrow> 'd ban_store option" where
  "ban_reload db clk s =
     map_option (\<lambda>active. s\<lparr>bs_banned :=
       fold (\<lambda>(ip, rec) m. case parse_ip_addr ip of
               Some a \<Rightarrow> hm_insert a (instant_from_unix clk (br_banned_until rec)) m | None \<Rightarrow> m) active []\<rparr>)
     (bd_select db (ban_active (bk_unix clk)) (bs_table s))"

definition ban_list_active :: "'d ban_db \<Rightarrow> ban_clock \<Rightarrow> 'd ban_store \<Rightarrow> (string \<times> ban_record) list option" where
  "ban_list_active db clk s = bd_select db (ban_active (bk_unix clk)) (bs_table s)"

definition cidr_protects :: "ip_addr \<Rightarrow> string \<Rightarrow> bool" where
  "cidr_protects ip cidr =
     (case split_once CHR ''/'' cidr of
        None \<Rightarrow> False
      | Some (net, bits) \<Rightarrow>
          (case (parse_ip_addr net, parse_uint (2 ^ 32) bits, ip) of
             (Some (IpV4 net_u), Some bits, IpV4 peer_u) \<Rightarrow>
               0 < bits \<and> bits \<le> 32 \<and> drop_bit (32 - bits) net_u = drop_bit (32 - bits) peer_u
           | _ \<Rightarrow> False))"

definition is_protected :: "ban_config \<Rightarrow> ip_addr \<Rightarrow> bool" where
  "is_protected cfg ip \<longleftrightarrow> (\<exists>cidr \<in> set (bc_protected_cidrs cfg). cidr_protects ip cidr)"

section \<open>Banning\<close>

text \<open>A negative index becomes a huge one in the cast to \<^verbatim>\<open>usize\<close>, and the last duration is taken.\<close>

definition ban_durations :: "ban_config \<Rightarrow> u64 list" where
  "ban_durations cfg =
     (if bc_ban_durations_secs cfg = [] then [3600, 86400, 604800] else bc_ban_durations_secs cfg)"

definition ban_duration :: "ban_config \<Rightarrow> i32 \<Rightarrow> u64" where
  "ban_duration cfg offense_count =
     (let ds = ban_durations cfg; last_index = length ds - 1; index = sint (offense_count - 1)
      in ds ! (if index < 0 then last_index else min (nat index) last_index))"

text \<open>The columns an existing row takes over on a conflict.\<close>

definition ban_update_columns :: "ban_record \<Rightarrow> ban_record \<Rightarrow> ban_record" where
  "ban_update_columns new old =
     old\<lparr>br_reason := br_reason new, br_last_username := br_last_username new, br_last_method := br_last_method new,
       br_offense_count := br_offense_count new, br_banned_until := br_banned_until new\<rparr>"

definition apply_ban :: "ban_config \<Rightarrow> 'd ban_db \<Rightarrow> ban_clock \<Rightarrow> ip_addr \<Rightarrow> string \<Rightarrow> string \<Rightarrow> 'd ban_store \<Rightarrow>
    'd ban_store option" where
  "apply_ban cfg db clk ip username m s =
     (case bd_find db (bs_table s) (ip_addr_str ip) of
        None \<Rightarrow> None
      | Some prior \<Rightarrow>
          let offense_count = (case prior of Some existing \<Rightarrow> br_offense_count existing + 1 | None \<Rightarrow> 1);
              created_at = (case prior of Some existing \<Rightarrow> br_created_at existing | None \<Rightarrow> bk_unix clk);
              until_ts = bk_unix clk + ban_duration cfg offense_count;
              row = \<lparr>br_reason = ''auth_failures'', br_last_username = Some username, br_last_method = Some m,
                br_offense_count = offense_count, br_banned_until = until_ts, br_created_at = created_at,
                br_released_at = None, br_released_by = None\<rparr>
          in map_option (\<lambda>table. s\<lparr>bs_table := table,
               bs_banned := hm_insert ip (instant_from_unix clk until_ts) (bs_banned s)\<rparr>)
             (bd_upsert db (ip_addr_str ip) row (ban_update_columns row) (bs_table s)))"

definition record_auth_failure :: "ban_config \<Rightarrow> 'd ban_db \<Rightarrow> ban_clock \<Rightarrow> ip_addr \<Rightarrow> string \<Rightarrow> string \<Rightarrow> 'd ban_store \<Rightarrow>
    'd ban_store" where
  "record_auth_failure cfg db clk ip username m s =
     (if \<not> bc_enabled cfg \<or> is_protected cfg ip then s
      else
        let now = bk_now clk;
            window = from_secs (unat (bc_window_secs cfg));
            queue = (case hm_get (bs_failures s) ip of Some q \<Rightarrow> q | None \<Rightarrow> []);
            queue = dropWhile (\<lambda>front. window < now - front) queue @ [now];
            reached = (bc_max_failures cfg \<le> word_of_nat (length queue))
        in if reached
           then let s = s\<lparr>bs_failures := hm_remove ip (bs_failures s)\<rparr>
                in (case apply_ban cfg db clk ip username m s of Some s' \<Rightarrow> s' | None \<Rightarrow> s)
           else s\<lparr>bs_failures := hm_insert ip queue (bs_failures s)\<rparr>)"

section \<open>Releasing\<close>

definition ban_release :: "'d ban_db \<Rightarrow> ban_clock \<Rightarrow> string \<Rightarrow> string \<Rightarrow> 'd ban_store \<Rightarrow> bool option \<times> 'd ban_store" where
  "ban_release db clk ip released_by s =
     (case bd_find db (bs_table s) ip of
        None \<Rightarrow> (None, s)
      | Some None \<Rightarrow> (Some False, s)
      | Some (Some existing) \<Rightarrow>
          if br_released_at existing \<noteq> None \<or> sint (br_banned_until existing) \<le> sint (bk_unix clk) then (Some False, s)
          else case bd_update db ip (existing\<lparr>br_released_at := Some (bk_unix clk), br_released_by := Some released_by\<rparr>)
                      (bs_table s) of
                 None \<Rightarrow> (None, s)
               | Some table \<Rightarrow>
                   let s = s\<lparr>bs_table := table\<rparr>
                   in (Some True, case parse_ip_addr ip of
                                    Some a \<Rightarrow> s\<lparr>bs_banned := hm_remove a (bs_banned s)\<rparr> | None \<Rightarrow> s))"

definition ip_from_source :: "string \<Rightarrow> ip_addr option" where
  "ip_from_source source =
     (let trimmed = trim source;
          host_port = (case rsplit_once CHR '':'' trimmed of Some (h, _) \<Rightarrow> h | None \<Rightarrow> trimmed);
          host = (case rsplit_once CHR '' '' host_port of Some (_, h) \<Rightarrow> h | None \<Rightarrow> host_port);
          host = rev (dropWhile (\<lambda>c. c = CHR '']'') (rev (dropWhile (\<lambda>c. c = CHR ''['') host)))
      in parse_ip_addr host)"

end
