(* ===== verification/Auth_Module.thy ===== *)
theory Auth_Module
  imports Acl_Module Sip_User Security_Bans
begin

text \<open>
  Authentication of requests, \<^verbatim>\<open>src/src/proxy/auth.rs\<close> with the cache of authenticated dialogs
  (\<^verbatim>\<open>src/src/proxy/dialog_auth_cache.rs\<close>) and the realms of the server. The digest check, the LRU cache,
  the typed headers, the user backend and the authentication backends are parameters.
\<close>

section \<open>The cache of authenticated dialogs\<close>

type_synonym auth_cache_key = "string \<times> string"

record auth_cache_entry =
  ce_source_addr :: sip_addr
  ce_authenticated_at :: instant
  ce_ttl :: duration

record 'c lru_api =
  lr_new :: "nat \<Rightarrow> 'c"
  lr_put :: "auth_cache_key \<Rightarrow> auth_cache_entry \<Rightarrow> 'c \<Rightarrow> 'c"
  lr_get :: "auth_cache_key \<Rightarrow> 'c \<Rightarrow> auth_cache_entry option \<times> 'c"
  lr_pop :: "auth_cache_key \<Rightarrow> 'c \<Rightarrow> 'c"
  lr_len :: "'c \<Rightarrow> nat"

record 'c dialog_auth_cache =
  dc_inner :: 'c
  dc_ttl :: duration

definition dialog_cache_new :: "'c lru_api \<Rightarrow> nat \<Rightarrow> u64 \<Rightarrow> 'c dialog_auth_cache" where
  "dialog_cache_new lru cache_size ttl_seconds =
     \<lparr>dc_inner = lr_new lru (if cache_size = 0 then 10000 else cache_size), dc_ttl = from_secs (unat ttl_seconds)\<rparr>"

definition cache_entry_expired :: "instant \<Rightarrow> auth_cache_entry \<Rightarrow> bool" where
  "cache_entry_expired now e \<longleftrightarrow> ce_ttl e < now - ce_authenticated_at e"

definition cache_put :: "'c lru_api \<Rightarrow> instant \<Rightarrow> auth_cache_key \<Rightarrow> sip_addr \<Rightarrow> 'c dialog_auth_cache \<Rightarrow>
    'c dialog_auth_cache" where
  "cache_put lru now key source_addr c =
     c\<lparr>dc_inner := lr_put lru key
         \<lparr>ce_source_addr = source_addr, ce_authenticated_at = now, ce_ttl = dc_ttl c\<rparr> (dc_inner c)\<rparr>"

definition cache_is_authenticated :: "'c lru_api \<Rightarrow> instant \<Rightarrow> auth_cache_key \<Rightarrow> sip_addr \<Rightarrow> 'c dialog_auth_cache \<Rightarrow>
    bool \<times> 'c dialog_auth_cache" where
  "cache_is_authenticated lru now key source_addr c =
     (case lr_get lru key (dc_inner c) of
        (found, inner) \<Rightarrow>
          (case found of
             Some e \<Rightarrow> \<not> cache_entry_expired now e \<and> ce_source_addr e = source_addr
           | None \<Rightarrow> False,
           c\<lparr>dc_inner := inner\<rparr>))"

definition cache_remove :: "'c lru_api \<Rightarrow> auth_cache_key \<Rightarrow> 'c dialog_auth_cache \<Rightarrow> 'c dialog_auth_cache" where
  "cache_remove lru key c = c\<lparr>dc_inner := lr_pop lru key (dc_inner c)\<rparr>"

definition cache_is_empty :: "'c lru_api \<Rightarrow> 'c dialog_auth_cache \<Rightarrow> bool" where
  "cache_is_empty lru c \<longleftrightarrow> lr_len lru (dc_inner c) = 0"

section \<open>Realms\<close>

definition normalize_realm :: "string \<Rightarrow> string" where
  "normalize_realm realm =
     (let realm = (case split_once CHR '':'' realm of Some (host, _) \<Rightarrow> host | None \<Rightarrow> realm)
      in if realm = [] \<or> realm = ''*'' \<or> realm = ''127.0.0.1'' \<or> realm = ''::1'' then ''localhost'' else realm)"

definition select_realm :: "string list option \<Rightarrow> string \<Rightarrow> string" where
  "select_realm realms request_host =
     (let requested = trim request_host;
          normalized = normalize_realm requested;
          fallback = (if requested = [] then normalized else requested)
      in case realms of
           None \<Rightarrow> fallback
         | Some rs \<Rightarrow>
             (case List.find (\<lambda>r. r = requested \<or> r = normalized) rs of
                Some existing \<Rightarrow> existing
              | None \<Rightarrow> (case rs of first # _ \<Rightarrow> if first \<noteq> [] then first else fallback | [] \<Rightarrow> fallback)))"

record realm_config =
  rc_ports :: "u16 list"
  rc_external_ip :: "string option"
  rc_realms :: "string list option"
  rc_listen_addrs :: "(string \<times> u16 option) list"
  rc_backend_same_realm :: "string \<Rightarrow> bool"

definition realm_matches_listen_addrs :: "string \<Rightarrow> u16 option \<Rightarrow> (string \<times> u16 option) list \<Rightarrow> bool \<Rightarrow> bool" where
  "realm_matches_listen_addrs host port listen_addrs realms_empty \<longleftrightarrow>
     (\<exists>(addr_host, addr_port) \<in> set listen_addrs.
        (addr_host = host \<or> realms_empty \<and> (addr_host = ''0.0.0.0'' \<or> addr_host = ''::'')) \<and>
        (case port of Some p \<Rightarrow> addr_port = Some p | None \<Rightarrow> True))"

fun realm_listed :: "string \<Rightarrow> string \<Rightarrow> bool \<Rightarrow> string list \<Rightarrow> bool option" where
  "realm_listed callee_realm host port_ok [] = None"
| "realm_listed callee_realm host port_ok (item # items) =
     (if item = callee_realm then Some True
      else if item = host then Some port_ok
      else realm_listed callee_realm host port_ok items)"

definition is_same_realm :: "realm_config \<Rightarrow> string \<Rightarrow> bool" where
  "is_same_realm cfg callee_realm =
     (let (host, port) = (case split_once CHR '':'' callee_realm of
                            Some (h, p) \<Rightarrow> (h, map_option word_of_nat (parse_uint (2 ^ 16) p))
                          | None \<Rightarrow> (callee_realm, None));
          my_port = (case port of Some p \<Rightarrow> p \<in> set (rc_ports cfg) | None \<Rightarrow> True)
      in if host = ''localhost'' \<or> host = ''127.0.0.1'' \<or> host = ''::1'' then my_port
         else if rc_external_ip cfg = Some host then my_port
         else case Option.bind (rc_realms cfg) (realm_listed callee_realm host my_port) of
                Some b \<Rightarrow> b
              | None \<Rightarrow>
                  realm_matches_listen_addrs host port (rc_listen_addrs cfg)
                    (case rc_realms cfg of None \<Rightarrow> True | Some rs \<Rightarrow> rs = []) \<or>
                  rc_backend_same_realm cfg callee_realm)"

section \<open>Credentials\<close>

datatype auth_error = AeNotFound | AeDisabled | AeInvalidCredentials | AeSpamDetected | AePaymentRequired | AeOther

datatype auth_outcome = NoCredentials | Success | UnknownUser | Disabled | RealmMismatch | BadCredentials

definition outcome_is_failure :: "auth_outcome \<Rightarrow> bool" where
  "outcome_is_failure r \<longleftrightarrow> r \<noteq> Success"

record auth_attempt =
  at_username :: string
  at_realm :: "string option"
  at_method :: string
  at_source :: "string option"
  at_outcome :: auth_outcome

record ('c, 'd) auth_env =
  aw_users :: user_api
  aw_lru :: "'c lru_api"
  aw_ban_config :: ban_config
  aw_ban_db :: "'d ban_db"
  aw_clock :: ban_clock
  aw_addr_str :: "sip_addr \<Rightarrow> string"
  aw_has_to_tag :: "sip_request \<Rightarrow> bool"
  aw_call_id :: "sip_request \<Rightarrow> string option"
  aw_from_tag :: "sip_request \<Rightarrow> string option"
  aw_to :: "sip_request \<Rightarrow> sip_uri option"
  aw_verify_digest :: "authorization \<Rightarrow> string \<Rightarrow> string \<Rightarrow> string \<Rightarrow> bool"
  aw_get_user :: "string \<Rightarrow> string option \<Rightarrow> sip_request \<Rightarrow> auth_error + sip_user option"
  aw_backends :: "(sip_request \<Rightarrow> transaction_cookie \<Rightarrow> auth_error + sip_user option) list"
  aw_realms :: realm_config
  aw_cluster_peer_ips :: "ip_addr list"
  aw_ensure_user :: bool
  aw_registry :: bool
  aw_nonce :: string

record ('c, 'd) auth_state =
  as_cache :: "'c dialog_auth_cache option"
  as_bans :: "'d ban_store option"
  as_user :: "sip_user option"
  as_cookie_of :: transaction_cookie
  as_callee_display :: "string option"
  as_attempts :: "auth_attempt list"
  as_auth_replies :: "(u16 \<times> sip_header list) list"

text \<open>The first authorization header of either kind decides; a malformed one counts as none.\<close>

definition first_credentials :: "user_api \<Rightarrow> sip_header list \<Rightarrow> (authorization \<times> string) option" where
  "first_credentials api headers =
     (case List.map_filter (\<lambda>h. case h of
              HStandard n v \<Rightarrow> if n = ''Authorization'' \<or> n = ''Proxy-Authorization'' then Some v else None
            | _ \<Rightarrow> None) headers of
        [] \<Rightarrow> None
      | v # _ \<Rightarrow> map_option (\<lambda>a. (a, v)) (ux_authorization api v))"

definition get_source_addr :: "sip_transaction \<Rightarrow> sip_addr option" where
  "get_source_addr tx = Option.bind (st_connection tx) cn_remote"

definition verify_credentials :: "('c, 'd) auth_env \<Rightarrow> sip_user \<Rightarrow> string \<Rightarrow> authorization \<Rightarrow> string \<Rightarrow> bool" where
  "verify_credentials env user m auth raw =
     aw_verify_digest env auth (case su_password user of Some p \<Rightarrow> p | None \<Rightarrow> []) m raw"

definition authenticate_request_inner :: "('c, 'd) auth_env \<Rightarrow> sip_transaction \<Rightarrow>
    auth_error + (sip_user option \<times> auth_outcome \<times> string \<times> string option)" where
  "authenticate_request_inner env tx =
     (case first_credentials (aw_users env) (rq_headers (st_original tx)) of
        None \<Rightarrow> Inr (None, NoCredentials, [], None)
      | Some (auth, raw) \<Rightarrow>
          (case user_try_from (aw_users env) tx of
             Inl _ \<Rightarrow> Inl AeOther
           | Inr user \<Rightarrow>
               (case aw_get_user env (su_username user) (su_realm user) (st_original tx) of
                  Inl e \<Rightarrow> Inl e
                | Inr None \<Rightarrow> Inr (None, UnknownUser, su_username user, su_realm user)
                | Inr (Some stored) \<Rightarrow>
                    if \<not> su_enabled stored then Inr (None, Disabled, su_username user, su_realm user)
                    else if (case su_realm user of Some r \<Rightarrow> \<not> is_same_realm (aw_realms env) r | None \<Rightarrow> False)
                    then Inr (None, RealmMismatch, su_username user, su_realm user)
                    else if verify_credentials env (merge_with stored user) (st_method tx) auth raw
                    then Inr (Some (merge_with stored user), Success, su_username user, su_realm user)
                    else Inr (None, BadCredentials, su_username user, su_realm user))))"

definition report_attempt :: "('c, 'd) auth_env \<Rightarrow> sip_transaction \<Rightarrow> auth_outcome \<Rightarrow> string \<Rightarrow> string option \<Rightarrow>
    ('c, 'd) auth_state \<Rightarrow> ('c, 'd) auth_state" where
  "report_attempt env tx r username realm s =
     (if r \<noteq> NoCredentials \<and> aw_registry env
      then s\<lparr>as_attempts := as_attempts s @ [\<lparr>at_username = username, at_realm = realm, at_method = st_method tx,
             at_source = map_option (aw_addr_str env) (get_source_addr tx), at_outcome = r\<rparr>]\<rparr>
      else s)"

section \<open>The module\<close>

definition extract_auth_cache_key :: "('c, 'd) auth_env \<Rightarrow> sip_transaction \<Rightarrow> auth_cache_key option" where
  "extract_auth_cache_key env tx =
     (case (aw_call_id env (st_original tx), aw_from_tag env (st_original tx)) of
        (Some call_id, Some from_tag) \<Rightarrow> Some (call_id, from_tag)
      | _ \<Rightarrow> None)"

definition source_ip :: "('c, 'd) auth_env \<Rightarrow> sip_transaction \<Rightarrow> ip_addr option" where
  "source_ip env tx = Option.bind (get_source_addr tx) (\<lambda>a. ip_from_source (aw_addr_str env a))"

definition is_cluster_peer_source :: "('c, 'd) auth_env \<Rightarrow> sip_transaction \<Rightarrow> bool" where
  "is_cluster_peer_source env tx =
     (case get_source_addr tx of
        None \<Rightarrow> False
      | Some source \<Rightarrow>
          (case ux_host_ip (aw_users env) (hp_host (sad_addr source)) of
             None \<Rightarrow> False
           | Some ip \<Rightarrow> ip \<noteq> IpV4 0 \<and> ip \<in> set (aw_cluster_peer_ips env)))"

definition source_banned :: "('c, 'd) auth_env \<Rightarrow> sip_transaction \<Rightarrow> ('c, 'd) auth_state \<Rightarrow> bool" where
  "source_banned env tx s =
     (case (as_bans s, source_ip env tx) of
        (Some bans, Some ip) \<Rightarrow> is_banned (bk_now (aw_clock env)) ip bans
      | _ \<Rightarrow> False)"

definition cached_dialog :: "('c, 'd) auth_env \<Rightarrow> sip_transaction \<Rightarrow> ('c, 'd) auth_state \<Rightarrow> bool \<times> ('c, 'd) auth_state" where
  "cached_dialog env tx s =
     (case (as_cache s, extract_auth_cache_key env tx, get_source_addr tx) of
        (Some cache, Some key, Some source) \<Rightarrow>
          (case cache_is_authenticated (aw_lru env) (bk_now (aw_clock env)) key source cache of
             (hit, cache) \<Rightarrow> (hit, s\<lparr>as_cache := Some cache\<rparr>))
      | _ \<Rightarrow> (False, s))"

definition accept_user :: "sip_user \<Rightarrow> ('c, 'd) auth_state \<Rightarrow> (module_error + proxy_action) \<times> ('c, 'd) auth_state" where
  "accept_user user s = (Inr Continue, s\<lparr>as_user := Some user\<rparr>)"

definition remember_dialog :: "('c, 'd) auth_env \<Rightarrow> sip_transaction \<Rightarrow> ('c, 'd) auth_state \<Rightarrow> ('c, 'd) auth_state" where
  "remember_dialog env tx s =
     (case (as_cache s, get_source_addr tx, extract_auth_cache_key env tx) of
        (Some cache, Some source, Some key) \<Rightarrow>
          s\<lparr>as_cache := Some (cache_put (aw_lru env) (bk_now (aw_clock env)) key source cache)\<rparr>
      | _ \<Rightarrow> s)"

definition spam_mark :: "('c, 'd) auth_state \<Rightarrow> ('c, 'd) auth_state" where
  "spam_mark s = s\<lparr>as_cookie_of := (as_cookie_of s)\<lparr>ck_spam_result := Spam\<rparr>\<rparr>"

text \<open>The backends in order; \<open>Some\<close> user is the first that authenticates.\<close>

fun try_backends :: "(sip_request \<Rightarrow> transaction_cookie \<Rightarrow> auth_error + sip_user option) list \<Rightarrow> sip_request \<Rightarrow>
    ('c, 'd) auth_state \<Rightarrow> sip_user option \<times> ('c, 'd) auth_state" where
  "try_backends [] rq s = (None, s)"
| "try_backends (backend # backends) rq s =
     (case backend rq (as_cookie_of s) of
        Inr (Some user) \<Rightarrow> (Some user, s)
      | Inr None \<Rightarrow> try_backends backends rq s
      | Inl e \<Rightarrow> try_backends backends rq (if e = AeSpamDetected then spam_mark s else s))"

definition count_failure :: "('c, 'd) auth_env \<Rightarrow> sip_transaction \<Rightarrow> auth_outcome \<Rightarrow> string \<Rightarrow> ('c, 'd) auth_state \<Rightarrow>
    ('c, 'd) auth_state" where
  "count_failure env tx r username s =
     (case (as_bans s, source_ip env tx) of
        (Some bans, Some ip) \<Rightarrow>
          if r \<noteq> NoCredentials \<and> outcome_is_failure r
          then s\<lparr>as_bans := Some (record_auth_failure (aw_ban_config env) (aw_ban_db env) (aw_clock env) ip username
                 (st_method tx) bans)\<rparr>
          else s
      | _ \<Rightarrow> s)"

definition digest_challenge :: "('c, 'd) auth_env \<Rightarrow> string \<Rightarrow> string" where
  "digest_challenge env realm =
     ''Digest realm='' @ [CHR 0x22] @ realm @ [CHR 0x22] @ '', nonce='' @ [CHR 0x22] @ aw_nonce env @ [CHR 0x22] @
     '', algorithm=MD5''"

definition send_challenge :: "('c, 'd) auth_env \<Rightarrow> sip_transaction \<Rightarrow> sip_uri \<Rightarrow> ('c, 'd) auth_state \<Rightarrow>
    (module_error + proxy_action) \<times> ('c, 'd) auth_state" where
  "send_challenge env tx from_uri s =
     (let realm = select_realm (rc_realms (aw_realms env)) (uri_host (rq_uri (st_original tx)))
      in if aw_ensure_user env \<and>
            \<not> (\<exists>u. aw_get_user env (uri_user from_uri) (Some realm) (st_original tx) = Inr (Some u))
         then (Inr Abort, spam_mark s)
         else (Inr Abort, s\<lparr>as_auth_replies := as_auth_replies s @
           [if st_method tx = ''REGISTER'' then (401, [HStandard ''WWW-Authenticate'' (digest_challenge env realm)])
            else (407, [HStandard ''Proxy-Authenticate'' (digest_challenge env realm)])]\<rparr>))"

definition guest_callee :: "('c, 'd) auth_env \<Rightarrow> sip_transaction \<Rightarrow> sip_uri \<Rightarrow> sip_user option" where
  "guest_callee env tx to_uri =
     (if st_method tx \<noteq> ''INVITE'' then None
      else case aw_get_user env (uri_user to_uri) (Some (uri_host to_uri)) (st_original tx) of
             Inr (Some callee) \<Rightarrow> if su_allow_guest_calls callee then Some callee else None
           | _ \<Rightarrow> None)"

definition unauthenticated :: "('c, 'd) auth_env \<Rightarrow> sip_transaction \<Rightarrow> sip_user \<Rightarrow> ('c, 'd) auth_state \<Rightarrow>
    (module_error + proxy_action) \<times> ('c, 'd) auth_state" where
  "unauthenticated env tx tx_user s =
     (case aw_to env (st_original tx) of
        None \<Rightarrow> (Inl HandlerError, s)
      | Some to_uri \<Rightarrow>
          (case guest_callee env tx to_uri of
             Some callee \<Rightarrow>
               accept_user tx_user (case su_display_name callee of
                   Some name \<Rightarrow> s\<lparr>as_callee_display := Some name\<rparr> | None \<Rightarrow> s)
           | None \<Rightarrow>
               (case ux_from (aw_users env) (st_original tx) of
                  None \<Rightarrow> (Inl HandlerError, s)
                | Some from_uri \<Rightarrow> send_challenge env tx from_uri s)))"

definition digest_step :: "('c, 'd) auth_env \<Rightarrow> sip_transaction \<Rightarrow> sip_user \<Rightarrow> ('c, 'd) auth_state \<Rightarrow>
    (module_error + proxy_action) \<times> ('c, 'd) auth_state" where
  "digest_step env tx tx_user s =
     (case authenticate_request_inner env tx of
        Inl e \<Rightarrow> (Inl HandlerError, if e = AeSpamDetected then spam_mark s else s)
      | Inr (authenticated, r, username, realm) \<Rightarrow>
          let s = report_attempt env tx r username realm s
          in (case authenticated of
                Some user \<Rightarrow>
                  (case accept_user user s of (res, s) \<Rightarrow> (res, remember_dialog env tx s))
              | None \<Rightarrow> unauthenticated env tx tx_user (count_failure env tx r username s)))"

definition authenticate_step :: "('c, 'd) auth_env \<Rightarrow> sip_transaction \<Rightarrow> sip_user \<Rightarrow> ('c, 'd) auth_state \<Rightarrow>
    (module_error + proxy_action) \<times> ('c, 'd) auth_state" where
  "authenticate_step env tx tx_user s =
     (case try_backends (aw_backends env) (st_original tx) s of
        (Some user, s) \<Rightarrow>
          (case accept_user (merge_with user tx_user) s of (res, s) \<Rightarrow> (res, remember_dialog env tx s))
      | (None, s) \<Rightarrow>
          if ck_spam_result (as_cookie_of s) \<noteq> Nice then (Inr Abort, s)
          else if ck_trunk (as_cookie_of s) \<noteq> None then accept_user tx_user s
          else if is_cluster_peer_source env tx \<and>
                  is_same_realm (aw_realms env) (uri_host (rq_uri (st_original tx)))
          then accept_user tx_user s
          else digest_step env tx tx_user s)"

definition auth_begin :: "('c, 'd) auth_env \<Rightarrow> sip_transaction \<Rightarrow> ('c, 'd) auth_state \<Rightarrow>
    (module_error + proxy_action) \<times> ('c, 'd) auth_state" where
  "auth_begin env tx s =
     (case user_try_from (aw_users env) tx of
        Inl _ \<Rightarrow> (Inl HandlerError, s)
      | Inr tx_user \<Rightarrow>
          if source_banned env tx s then (Inr Abort, s)
          else
            let (hit, s) = (if aw_has_to_tag env (st_original tx) then cached_dialog env tx s else (False, s))
            in if hit then accept_user tx_user s
               else if aw_has_to_tag env (st_original tx) \<and> st_method tx = ''INVITE'' then accept_user tx_user s
               else if st_method tx \<noteq> ''INVITE'' \<and> st_method tx \<noteq> ''REGISTER'' then (Inr Continue, s)
               else authenticate_step env tx tx_user s)"

end
