(* ===== verification/Auth_Props.thy ===== *)
theory Auth_Props
  imports Auth_Module
begin

text \<open>
  Properties of authentication: on what grounds a request passes and as whom, and what the cache of
  authenticated dialogs vouches for.
\<close>

section \<open>Why a request passes\<close>

definition credentials_verified :: "('c, 'd) auth_env \<Rightarrow> sip_transaction \<Rightarrow> sip_user \<Rightarrow> sip_user \<Rightarrow> bool" where
  "credentials_verified env tx tx_user user \<longleftrightarrow>
     (\<exists>auth raw stored. first_credentials (aw_users env) (rq_headers (st_original tx)) = Some (auth, raw) \<and>
        aw_get_user env (su_username tx_user) (su_realm tx_user) (st_original tx) = Inr (Some stored) \<and>
        su_enabled stored \<and> (\<forall>r. su_realm tx_user = Some r \<longrightarrow> is_same_realm (aw_realms env) r) \<and>
        user = merge_with stored tx_user \<and> verify_credentials env user (st_method tx) auth raw)"

text \<open>The grounds on which a request may act as a user, in the order of the checks.\<close>

inductive may_act_as :: "('c, 'd) auth_env \<Rightarrow> sip_transaction \<Rightarrow> ('c, 'd) auth_state \<Rightarrow> sip_user \<Rightarrow> sip_user \<Rightarrow> bool"
  for env tx s tx_user where
  cached: "aw_has_to_tag env (st_original tx) \<Longrightarrow> fst (cached_dialog env tx s) \<Longrightarrow> may_act_as env tx s tx_user tx_user"
| reinvite: "aw_has_to_tag env (st_original tx) \<Longrightarrow> st_method tx = ''INVITE'' \<Longrightarrow> may_act_as env tx s tx_user tx_user"
| backend: "b \<in> set (aw_backends env) \<Longrightarrow> b (st_original tx) c = Inr (Some u) \<Longrightarrow>
    may_act_as env tx s tx_user (merge_with u tx_user)"
| trunk: "ck_trunk (as_cookie_of s) \<noteq> None \<Longrightarrow> may_act_as env tx s tx_user tx_user"
| peer: "is_cluster_peer_source env tx \<Longrightarrow> is_same_realm (aw_realms env) (uri_host (rq_uri (st_original tx))) \<Longrightarrow>
    may_act_as env tx s tx_user tx_user"
| digest: "credentials_verified env tx tx_user u \<Longrightarrow> may_act_as env tx s tx_user u"
| guest: "st_method tx = ''INVITE'' \<Longrightarrow> aw_to env (st_original tx) = Some to_uri \<Longrightarrow>
    aw_get_user env (uri_user to_uri) (Some (uri_host to_uri)) (st_original tx) = Inr (Some callee) \<Longrightarrow>
    su_allow_guest_calls callee \<Longrightarrow> may_act_as env tx s tx_user tx_user"

lemma frame_simps [simp]:
  "as_cookie_of (report_attempt env tx r u rl s) = as_cookie_of s"
  "as_user (remember_dialog env tx s) = as_user s"
  "ck_trunk (as_cookie_of (spam_mark s)) = ck_trunk (as_cookie_of s)"
  "as_cookie_of (snd (cached_dialog env tx s)) = as_cookie_of s"
  by (simp_all add: report_attempt_def remember_dialog_def spam_mark_def cached_dialog_def split: option.split prod.split)

lemma try_backends_props:
  "try_backends bs rq s = (res, s') \<Longrightarrow>
     ck_trunk (as_cookie_of s') = ck_trunk (as_cookie_of s) \<and>
     (\<forall>u. res = Some u \<longrightarrow> (\<exists>b \<in> set bs. \<exists>c. b rq c = Inr (Some u)))"
proof (induction bs arbitrary: s)
  case (Cons b bs)
  show ?case
  proof (cases "b rq (as_cookie_of s)")
    case (Inl e)
    with Cons.prems have "try_backends bs rq (if e = AeSpamDetected then spam_mark s else s) = (res, s')" by simp
    from Cons.IH [OF this] show ?thesis by (auto split: if_splits)
  next
    case (Inr r)
    with Cons show ?thesis by (cases r) fastforce+
  qed
qed simp

lemma authenticate_inner_verified:
  assumes "authenticate_request_inner env tx = Inr (Some u, r, n, rl)" "user_try_from (aw_users env) tx = Inr tx_user"
  shows "credentials_verified env tx tx_user u"
  using assms
  by (auto simp: authenticate_request_inner_def credentials_verified_def split: option.splits prod.splits sum.splits if_splits)

lemma unauthenticated_guest:
  assumes "unauthenticated env tx tx_user s = (Inr Continue, s')"
  shows "as_user s' = Some tx_user \<and> st_method tx = ''INVITE'' \<and> (\<exists>to_uri callee. aw_to env (st_original tx) = Some to_uri \<and>
    aw_get_user env (uri_user to_uri) (Some (uri_host to_uri)) (st_original tx) = Inr (Some callee) \<and> su_allow_guest_calls callee)"
  using assms
  by (auto simp: unauthenticated_def guest_callee_def accept_user_def send_challenge_def Let_def
      split: option.splits if_splits sum.splits)

lemma digest_step_grounds:
  assumes "digest_step env tx tx_user s = (Inr Continue, s')" "user_try_from (aw_users env) tx = Inr tx_user"
  shows "\<exists>u. as_user s' = Some u \<and> may_act_as env tx s0 tx_user u"
proof (cases "authenticate_request_inner env tx")
  case (Inl e)
  with assms(1) show ?thesis by (simp add: digest_step_def)
next
  case (Inr x)
  then obtain a r n rl where x: "authenticate_request_inner env tx = Inr (a, r, n, rl)" by (cases x) auto
  show ?thesis
  proof (cases a)
    case (Some u)
    with x authenticate_inner_verified [OF _ assms(2)] have "may_act_as env tx s0 tx_user u" by (blast intro: digest)
    with Some x assms(1) show ?thesis by (auto simp: digest_step_def accept_user_def Let_def)
  next
    case None
    with x assms(1) have "unauthenticated env tx tx_user (count_failure env tx r n (report_attempt env tx r n rl s)) = (Inr Continue, s')"
      by (simp add: digest_step_def Let_def)
    from unauthenticated_guest [OF this] show ?thesis by (blast intro: guest)
  qed
qed

lemma authenticate_step_grounds:
  assumes "authenticate_step env tx tx_user s = (Inr Continue, s')" "user_try_from (aw_users env) tx = Inr tx_user"
    and "ck_trunk (as_cookie_of s) = ck_trunk (as_cookie_of s0)"
  shows "\<exists>u. as_user s' = Some u \<and> may_act_as env tx s0 tx_user u"
proof -
  obtain res s1 where run: "try_backends (aw_backends env) (st_original tx) s = (res, s1)" by fastforce
  note props = try_backends_props [OF run]
  show ?thesis
  proof (cases res)
    case (Some u)
    with props have "may_act_as env tx s0 tx_user (merge_with u tx_user)" by (blast intro: backend)
    with Some run assms(1) show ?thesis by (auto simp: authenticate_step_def accept_user_def)
  next
    case None
    with run assms(1) consider "ck_trunk (as_cookie_of s1) \<noteq> None" "as_user s' = Some tx_user"
      | "is_cluster_peer_source env tx" "is_same_realm (aw_realms env) (uri_host (rq_uri (st_original tx)))" "as_user s' = Some tx_user"
      | "digest_step env tx tx_user s1 = (Inr Continue, s')"
      by (auto simp: authenticate_step_def accept_user_def split: if_splits)
    then show ?thesis
    proof cases
      case 1
      with props assms(3) show ?thesis by (auto intro: trunk)
    next
      case 2
      then show ?thesis by (blast intro: peer)
    next
      case 3
      then show ?thesis by (rule digest_step_grounds [OF _ assms(2)])
    qed
  qed
qed

text \<open>C4. No INVITE or REGISTER passes without grounds: its source is not banned, and the user it acts
  as is vouched for by a cached dialog, an in-dialog INVITE, an authentication backend, the trunk or
  the cluster peer it comes from, a digest verified against the enabled stored user of that name in a
  realm of the server, or, for an INVITE, a callee that accepts guests.\<close>

theorem auth_continue_sound:
  assumes "auth_begin env tx s = (Inr Continue, s')" "st_method tx = ''INVITE'' \<or> st_method tx = ''REGISTER''"
  shows "\<not> source_banned env tx s \<and>
    (\<exists>tx_user u. user_try_from (aw_users env) tx = Inr tx_user \<and> as_user s' = Some u \<and> may_act_as env tx s tx_user u)"
proof -
  obtain tx_user where tx_user: "user_try_from (aw_users env) tx = Inr tx_user"
    using assms(1) by (auto simp: auth_begin_def split: sum.splits)
  have free: "\<not> source_banned env tx s" using assms(1) tx_user by (auto simp: auth_begin_def)
  define tagged where "tagged = aw_has_to_tag env (st_original tx)"
  obtain hit s1 where look: "(if tagged then cached_dialog env tx s else (False, s)) = (hit, s1)" by fastforce
  then have s1: "as_cookie_of s1 = as_cookie_of s" by (auto split: if_splits) (metis frame_simps(4) snd_conv)
  have run: "(if hit then accept_user tx_user s1 else if tagged \<and> st_method tx = ''INVITE'' then accept_user tx_user s1
      else authenticate_step env tx tx_user s1) = (Inr Continue, s')"
    using assms tx_user free look by (auto simp: auth_begin_def tagged_def Let_def split: if_splits)
  show ?thesis
  proof (cases "hit \<or> tagged \<and> st_method tx = ''INVITE''")
    case True
    with run have "as_user s' = Some tx_user" by (auto simp: accept_user_def split: if_splits)
    moreover have "may_act_as env tx s tx_user tx_user"
      using True look by (auto simp: tagged_def intro: cached reinvite split: if_splits)
    ultimately show ?thesis using free tx_user by blast
  next
    case False
    with run have "authenticate_step env tx tx_user s1 = (Inr Continue, s')" by auto
    from authenticate_step_grounds [OF this tx_user, of s] s1 free tx_user show ?thesis by auto
  qed
qed

section \<open>What the cache vouches for\<close>

text \<open>The law of the cache the module relies on: what was put last is found.\<close>

definition lru_laws :: "'c lru_api \<Rightarrow> bool" where
  "lru_laws lru \<longleftrightarrow> (\<forall>k e c. fst (lr_get lru k (lr_put lru k e c)) = Some e)"

text \<open>A request of a cached dialog passes without credentials, as the user its own headers name.\<close>

lemma cached_dialog_any_user:
  assumes "lru_laws (aw_lru env)" "user_try_from (aw_users env) tx = Inr claimed"
    and "extract_auth_cache_key env tx = Some key" "get_source_addr tx = Some source"
    and "aw_has_to_tag env (st_original tx)" "\<not> source_banned env tx s"
    and "as_cache s = Some (cache_put (aw_lru env) t key source c)" "bk_now (aw_clock env) \<le> t + dc_ttl c"
  shows "\<exists>s'. auth_begin env tx s = (Inr Continue, s') \<and> as_user s' = Some claimed"
proof -
  let ?e = "\<lparr>ce_source_addr = source, ce_authenticated_at = t, ce_ttl = dc_ttl c\<rparr>"
  obtain inner where "lr_get (aw_lru env) key (lr_put (aw_lru env) key ?e (dc_inner c)) = (Some ?e, inner)"
    using assms(1) unfolding lru_laws_def by (metis prod.collapse)
  moreover have "\<not> cache_entry_expired (bk_now (aw_clock env)) ?e" using assms(8) by (simp add: cache_entry_expired_def)
  ultimately have "fst (cached_dialog env tx s)"
    using assms(3,4,7) by (simp add: cached_dialog_def cache_is_authenticated_def cache_put_def)
  then show ?thesis using assms(2,5,6)
    by (cases "cached_dialog env tx s") (simp add: auth_begin_def accept_user_def)
qed

end
