(* ===== verification/Security_Runs.thy ===== *)
theory Security_Runs
  imports Security_Bans
begin

text \<open>
  Runs of the ban list, over failures, reloads and releases: repeated failures within the window lead to a ban,
  a ban has that many failures or a row of the table behind it, and what happens to a ban that follows a
  released one.
\<close>

section \<open>Failures and bans\<close>

text \<open>What happens to a store: an authentication fails, the bans are read from the table, a ban is released.\<close>

datatype ban_event =
    AuthFailed ban_clock ip_addr string string
  | BansReloaded ban_clock
  | BanReleased ban_clock string string

fun ban_step :: "ban_config \<Rightarrow> 'd ban_db \<Rightarrow> ban_event \<Rightarrow> 'd ban_store \<Rightarrow> 'd ban_store" where
  "ban_step cfg db (AuthFailed clk ip u m) s = record_auth_failure cfg db clk ip u m s"
| "ban_step cfg db (BansReloaded clk) s = (case ban_reload db clk s of Some s' \<Rightarrow> s' | None \<Rightarrow> s)"
| "ban_step cfg db (BanReleased clk ip who) s = snd (ban_release db clk ip who s)"

fun ev_time :: "ban_event \<Rightarrow> instant" where
  "ev_time (AuthFailed clk ip u m) = bk_now clk"
| "ev_time (BansReloaded clk) = bk_now clk"
| "ev_time (BanReleased clk ip who) = bk_now clk"

fun failed_ip :: "ban_event \<Rightarrow> ip_addr option" where
  "failed_ip (AuthFailed clk ip u m) = Some ip"
| "failed_ip (BansReloaded clk) = None"
| "failed_ip (BanReleased clk ip who) = None"

definition times_of :: "ip_addr \<Rightarrow> ban_event list \<Rightarrow> instant list" where
  "times_of ip evs = map ev_time (filter (\<lambda>ev. failed_ip ev = Some ip) evs)"

definition ban_window :: "ban_config \<Rightarrow> duration" where
  "ban_window cfg = from_secs (unat (bc_window_secs cfg))"

definition queue_of :: "ip_addr \<Rightarrow> 'd ban_store \<Rightarrow> instant list" where
  "queue_of ip s = (case hm_get (bs_failures s) ip of Some q \<Rightarrow> q | None \<Rightarrow> [])"

text \<open>A query that a ban of the address makes fails.\<close>

definition ban_unstored :: "'d ban_db \<Rightarrow> ip_addr \<Rightarrow> 'd ban_store \<Rightarrow> bool" where
  "ban_unstored db ip s \<longleftrightarrow> bd_find db (bs_table s) (ip_addr_str ip) = None \<or>
     (\<exists>row f. bd_upsert db (ip_addr_str ip) row f (bs_table s) = None)"

text \<open>A ban that starts at a failure and lasts one of the configured durations.\<close>

definition ban_from :: "ban_config \<Rightarrow> ban_event \<Rightarrow> instant \<Rightarrow> bool" where
  "ban_from cfg ev t \<longleftrightarrow> (\<exists>d \<in> set (ban_durations cfg). t = ev_time ev + from_secs (nat (max 0 (sint d))))"

lemma ban_duration_configured: "ban_duration cfg n \<in> set (ban_durations cfg)"
proof -
  have "ban_durations cfg \<noteq> []" by (simp add: ban_durations_def)
  then have "min (nat (sint (n - 1))) (length (ban_durations cfg) - 1) < length (ban_durations cfg)"
    "length (ban_durations cfg) - 1 < length (ban_durations cfg)" by (cases "ban_durations cfg"; simp)+
  then show ?thesis by (simp add: ban_duration_def Let_def)
qed

lemma ban_from_now: "ban_from cfg (AuthFailed clk ip u m) (instant_from_unix clk (bk_unix clk + ban_duration cfg n))"
  using ban_duration_configured by (auto simp: ban_from_def instant_from_unix_def)

lemma apply_ban_bans:
  "case apply_ban cfg db clk ip u m s of
     None \<Rightarrow> ban_unstored db ip s
   | Some s' \<Rightarrow> bs_failures s' = bs_failures s \<and>
       (\<exists>t. bs_banned s' = hm_insert ip t (bs_banned s) \<and> ban_from cfg (AuthFailed clk ip u m) t)"
  using ban_from_now [of cfg clk ip u m]
  by (fastforce simp: apply_ban_def ban_unstored_def Let_def split: option.split)

definition kept :: "ban_config \<Rightarrow> instant \<Rightarrow> instant list \<Rightarrow> instant list" where
  "kept cfg now q = dropWhile (\<lambda>t. ban_window cfg < now - t) q @ [now]"

lemma fail_effect:
  assumes "bc_enabled cfg" "\<not> is_protected cfg ip" "failed_ip ev = Some ip"
    and "length (queue_of ip s) \<le> unat (bc_max_failures cfg) - 1"
  shows "if unat (bc_max_failures cfg) \<le> length (kept cfg (ev_time ev) (queue_of ip s))
    then queue_of ip (ban_step cfg db ev s) = [] \<and>
      ((\<exists>t. hm_get (bs_banned (ban_step cfg db ev s)) ip = Some t \<and> ban_from cfg ev t) \<or>
       ban_unstored db ip s \<and> bs_banned (ban_step cfg db ev s) = bs_banned s)
    else queue_of ip (ban_step cfg db ev s) = kept cfg (ev_time ev) (queue_of ip s) \<and>
      bs_banned (ban_step cfg db ev s) = bs_banned s"
proof -
  obtain clk u m where ev: "ev = AuthFailed clk ip u m" using assms(3) by (cases ev) auto
  let ?k = "kept cfg (ev_time ev) (queue_of ip s)" and ?s = "s\<lparr>bs_failures := hm_remove ip (bs_failures s)\<rparr>"
  have "length ?k \<le> Suc (length (queue_of ip s))" by (simp add: kept_def length_dropWhile_le)
  also have "\<dots> < 2 ^ 32" using assms(4) unat_lt_2p [of "bc_max_failures cfg"] by simp
  finally have small: "length ?k < 2 ^ 32" .
  then have count: "bc_max_failures cfg \<le> word_of_nat (length ?k) \<longleftrightarrow> unat (bc_max_failures cfg) \<le> length ?k"
    by (simp add: word_le_nat_alt unat_of_nat take_bit_eq_mod)
  have step: "ban_step cfg db ev s = (if bc_max_failures cfg \<le> word_of_nat (length ?k)
      then (case apply_ban cfg db clk ip u m ?s of Some s' \<Rightarrow> s' | None \<Rightarrow> ?s)
      else s\<lparr>bs_failures := hm_insert ip ?k (bs_failures s)\<rparr>)"
    using assms(1,2)
    by (simp add: ev record_auth_failure_def Let_def kept_def queue_of_def ban_window_def)
  note ban = apply_ban_bans [where cfg = cfg and db = db and clk = clk and ip = ip and u = u and m = m and s = ?s]
  show ?thesis
  proof (cases "apply_ban cfg db clk ip u m ?s")
    case None
    with ban have "ban_unstored db ip s" by (simp add: ban_unstored_def)
    with None step count show ?thesis by (simp add: queue_of_def)
  next
    case (Some s')
    with ban obtain t where "bs_failures s' = hm_remove ip (bs_failures s)" "bs_banned s' = hm_insert ip t (bs_banned s)"
      "ban_from cfg ev t" by (auto simp: ev)
    with Some step count show ?thesis by (simp add: queue_of_def)
  qed
qed

lemma release_keeps_failures: "bs_failures (snd (ban_release db clk k who s)) = bs_failures s"
  by (simp add: ban_release_def Let_def split: option.split)

lemma other_keeps_queue:
  assumes "failed_ip ev \<noteq> Some ip"
  shows "queue_of ip (ban_step cfg db ev s) = queue_of ip s"
  using assms
  by (cases ev)
    (auto simp: record_auth_failure_def apply_ban_def ban_reload_def release_keeps_failures queue_of_def Let_def
      split: option.splits)

definition fresh_bans :: "'d \<Rightarrow> 'd ban_store" where
  "fresh_bans d = \<lparr>bs_banned = [], bs_failures = [], bs_table = d\<rparr>"

abbreviation ban_run :: "ban_config \<Rightarrow> 'd ban_db \<Rightarrow> ban_event list \<Rightarrow> 'd ban_store \<Rightarrow> 'd ban_store" where
  "ban_run cfg db evs s \<equiv> fold (ban_step cfg db) evs s"

lemma queue_short_step:
  assumes "bc_enabled cfg" "\<not> is_protected cfg ip"
    and "length (queue_of ip s) \<le> unat (bc_max_failures cfg) - 1"
  shows "length (queue_of ip (ban_step cfg db ev s)) \<le> unat (bc_max_failures cfg) - 1"
proof (cases "failed_ip ev = Some ip")
  case True
  from fail_effect [OF assms(1,2) True assms(3), of db] show ?thesis by (auto split: if_splits)
next
  case False
  with assms(3) show ?thesis by (simp add: other_keeps_queue)
qed

interpretation failure_machine: event_machine "ban_step cfg db"
    "\<lambda>s. bc_enabled cfg \<and> \<not> is_protected cfg ip \<longrightarrow> length (queue_of ip s) \<le> unat (bc_max_failures cfg) - 1"
    for cfg db ip
  by unfold_locales (blast intro: queue_short_step)

lemma queue_short:
  assumes "bc_enabled cfg" "\<not> is_protected cfg ip"
  shows "length (queue_of ip (ban_run cfg db evs (fresh_bans d))) \<le> unat (bc_max_failures cfg) - 1"
  using failure_machine.run_inv [where cfg = cfg and ip = ip and db = db and s = "fresh_bans d" and es = evs] assms by (simp add: fresh_bans_def queue_of_def)

lemma dropWhile_stops:
  "\<forall>y \<in> set ys. \<not> P y \<Longrightarrow> \<exists>zs. dropWhile P (xs @ ys) = zs @ ys"
proof (induction xs)
  case Nil
  then have "dropWhile P ys = ys" by (cases ys) auto
  then show ?case by simp
next
  case (Cons x xs)
  then show ?case by (cases "P x") (auto intro: exI [of _ "x # xs"])
qed

text \<open>Failures close together stay in the queue until one of them bans.\<close>

lemma close_failures_queue:
  assumes "bc_enabled cfg" "\<not> is_protected cfg ip"
    and "length (queue_of ip s) \<le> unat (bc_max_failures cfg) - 1"
    and "\<forall>ev \<in> set evs. ev_time ev \<le> T \<and> T \<le> ev_time ev + ban_window cfg"
    and "\<forall>pre ev post. evs = pre @ ev # post \<longrightarrow> failed_ip ev = Some ip \<longrightarrow> queue_of ip (ban_run cfg db (pre @ [ev]) s) \<noteq> []"
  shows "\<exists>xs. queue_of ip (ban_run cfg db evs s) = xs @ times_of ip evs"
  using assms(4,5)
proof (induction evs rule: rev_induct)
  case Nil
  show ?case by (simp add: times_of_def)
next
  case (snoc ev evs)
  have "\<exists>xs. queue_of ip (ban_run cfg db evs s) = xs @ times_of ip evs"
  proof (rule snoc.IH)
    show "\<forall>pre e post. evs = pre @ e # post \<longrightarrow> failed_ip e = Some ip \<longrightarrow> queue_of ip (ban_run cfg db (pre @ [e]) s) \<noteq> []"
      using snoc.prems(2) by (metis append_Cons append_assoc)
  qed (use snoc.prems(1) in simp)
  then obtain xs where xs: "queue_of ip (ban_run cfg db evs s) = xs @ times_of ip evs" ..
  show ?case
  proof (cases "failed_ip ev = Some ip")
    case False
    with xs show ?thesis by (simp add: other_keeps_queue times_of_def)
  next
    case True
    let ?s = "ban_run cfg db evs s"
    have "length (queue_of ip ?s) \<le> unat (bc_max_failures cfg) - 1"
      using failure_machine.run_inv [where cfg = cfg and ip = ip and db = db and s = s and es = evs] assms(1-3) by blast
    from fail_effect [OF assms(1,2) True this, of db] snoc.prems(2) [rule_format, of evs ev "[]"] True
    have "queue_of ip (ban_step cfg db ev ?s) = kept cfg (ev_time ev) (queue_of ip ?s)"
      by (auto split: if_splits)
    moreover have "\<exists>zs. dropWhile (\<lambda>t. ban_window cfg < ev_time ev - t) (xs @ times_of ip evs) = zs @ times_of ip evs"
      using snoc.prems(1) by (intro dropWhile_stops) (force simp: times_of_def)
    ultimately show ?thesis using xs True by (auto simp: kept_def times_of_def)
  qed
qed


lemma dropWhile_old:
  "sorted xs \<Longrightarrow> dropWhile (\<lambda>t. w < now - t) xs = filter (\<lambda>t. now \<le> t + w) (xs :: nat list)"
proof (induction xs)
  case (Cons x xs)
  show ?case
  proof (cases "now \<le> x + w")
    case True
    with Cons.prems have "\<forall>t \<in> set xs. now \<le> t + w" by force
    with True show ?thesis by (simp add: filter_id_conv)
  next
    case False
    with Cons show ?thesis by simp
  qed
qed simp

lemma filter_drop_le: "length (filter P (drop k xs)) \<le> length (filter P xs)"
proof -
  have "length (filter P xs) = length (filter P (take k xs)) + length (filter P (drop k xs))"
    by (metis append_take_drop_id filter_append length_append)
  then show ?thesis by simp
qed

lemma queue_suffix:
  assumes "bc_enabled cfg" "\<not> is_protected cfg ip"
  shows "\<exists>k \<le> length (times_of ip evs). queue_of ip (ban_run cfg db evs (fresh_bans d)) = drop k (times_of ip evs)"
proof (induction evs rule: rev_induct)
  case Nil
  show ?case by (simp add: fresh_bans_def queue_of_def times_of_def)
next
  case (snoc ev evs)
  then obtain k where k: "queue_of ip (ban_run cfg db evs (fresh_bans d)) = drop k (times_of ip evs)"
    "k \<le> length (times_of ip evs)" by blast
  show ?case
  proof (cases "failed_ip ev = Some ip")
    case False
    with k show ?thesis by (auto simp: other_keeps_queue times_of_def)
  next
    case True
    let ?q = "queue_of ip (ban_run cfg db evs (fresh_bans d))" and ?ts = "times_of ip evs"
    define n where "n = length (takeWhile (\<lambda>t. ban_window cfg < ev_time ev - t) ?q)"
    have "n \<le> length ?ts - k" using length_takeWhile_le [of _ ?q] by (simp add: n_def k(1))
    then have n: "n + k \<le> length ?ts" using k(2) by simp
    have snoc_times: "times_of ip (evs @ [ev]) = ?ts @ [ev_time ev]" using True by (simp add: times_of_def)
    have "kept cfg (ev_time ev) ?q = drop n ?q @ [ev_time ev]" by (simp add: kept_def n_def dropWhile_eq_drop)
    also have "\<dots> = drop (n + k) (times_of ip (evs @ [ev]))" using n by (simp add: snoc_times k(1))
    finally have kept: "kept cfg (ev_time ev) ?q = drop (n + k) (times_of ip (evs @ [ev]))" .
    note eff = fail_effect [OF assms True queue_short [OF assms, of db evs d], of db]
    show ?thesis
    proof (cases "unat (bc_max_failures cfg) \<le> length (kept cfg (ev_time ev) ?q)")
      case True
      with eff show ?thesis by (intro exI [of _ "length (times_of ip (evs @ [ev]))"]) simp
    next
      case False
      with eff kept n snoc_times show ?thesis by (intro exI [of _ "n + k"]) simp
    qed
  qed
qed

section \<open>The table\<close>

text \<open>What the table promises: a row is found after it was written, merged with the row that was there,
  and a selection returns the rows that satisfy its filter.\<close>

definition table_laws :: "'d ban_db \<Rightarrow> bool" where
  "table_laws db \<longleftrightarrow>
     (\<forall>k r f d d' old. bd_upsert db k r f d = Some d' \<longrightarrow> bd_find db d k = Some old \<longrightarrow>
        bd_find db d' k = Some (Some (case old of None \<Rightarrow> r | Some row \<Rightarrow> f row))) \<and>
     (\<forall>P d rows k r. bd_select db P d = Some rows \<longrightarrow>
        ((k, r) \<in> set rows \<longleftrightarrow> bd_find db d k = Some (Some r) \<and> P r))"

lemma table_lawsD:
  "table_laws db \<Longrightarrow> bd_upsert db k r f d = Some d' \<Longrightarrow> bd_find db d k = Some (Some row) \<Longrightarrow>
     bd_find db d' k = Some (Some (f row))"
  "table_laws db \<Longrightarrow> bd_select db P d = Some rows \<Longrightarrow> (k, r) \<in> set rows \<longleftrightarrow> bd_find db d k = Some (Some r) \<and> P r"
  by (fastforce simp: table_laws_def)+

lemma reload_get:
  "hm_get (fold (\<lambda>(ip, rec) m. case parse_ip_addr ip of Some a \<Rightarrow> hm_insert a (f rec) m | None \<Rightarrow> m) rows m0) a = Some t \<Longrightarrow>
     hm_get m0 a = Some t \<or> (\<exists>(k, rec) \<in> set rows. parse_ip_addr k = Some a \<and> t = f rec)"
proof (induction rows arbitrary: m0)
  case (Cons row rows)
  obtain k rec where row: "row = (k, rec)" by (cases row)
  with Cons.IH Cons.prems show ?case by (cases "parse_ip_addr k") (fastforce split: if_splits)+
qed simp

section \<open>The cause of a ban\<close>

text \<open>The failures of the address itself have reached the limit within the window.\<close>

definition ban_earned :: "ban_config \<Rightarrow> ip_addr \<Rightarrow> instant \<Rightarrow> ban_event list \<Rightarrow> ban_event \<Rightarrow> bool" where
  "ban_earned cfg ip t pre ev \<longleftrightarrow> bc_enabled cfg \<and> \<not> is_protected cfg ip \<and> failed_ip ev = Some ip \<and> ban_from cfg ev t \<and>
     unat (bc_max_failures cfg) \<le> length (filter (\<lambda>u. ev_time ev \<le> u + ban_window cfg) (times_of ip (pre @ [ev])))"

text \<open>A reload has found a row of the address that is neither over nor released.\<close>

definition ban_read :: "'d ban_db \<Rightarrow> ip_addr \<Rightarrow> instant \<Rightarrow> 'd ban_store \<Rightarrow> ban_event \<Rightarrow> bool" where
  "ban_read db ip t s ev \<longleftrightarrow> (\<exists>clk key row. ev = BansReloaded clk \<and> bd_find db (bs_table s) key = Some (Some row) \<and>
     parse_ip_addr key = Some ip \<and> ban_active (bk_unix clk) row \<and> t = instant_from_unix clk (br_banned_until row))"

lemma reload_reads:
  assumes "table_laws db" "ban_reload db clk s = Some s'" "hm_get (bs_banned s') ip = Some t"
  shows "ban_read db ip t s (BansReloaded clk)"
proof -
  obtain rows where rows: "bd_select db (ban_active (bk_unix clk)) (bs_table s) = Some rows"
    "bs_banned s' = fold (\<lambda>(ip, rec) m. case parse_ip_addr ip of
       Some a \<Rightarrow> hm_insert a (instant_from_unix clk (br_banned_until rec)) m | None \<Rightarrow> m) rows []"
    using assms(2) by (auto simp: ban_reload_def)
  from reload_get [OF assms(3) [unfolded rows(2)]] obtain k row where "(k, row) \<in> set rows" "parse_ip_addr k = Some ip"
    "t = instant_from_unix clk (br_banned_until row)" by auto
  with table_lawsD(2) [OF assms(1) rows(1)] show ?thesis by (auto simp: ban_read_def)
qed

lemma step_bans:
  assumes "table_laws db" "hm_get (bs_banned (ban_step cfg db ev s)) ip = Some t"
  shows "hm_get (bs_banned s) ip = Some t \<or> ban_read db ip t s ev \<or>
    failed_ip ev = Some ip \<and> bc_enabled cfg \<and> \<not> is_protected cfg ip \<and> hm_get (bs_banned (ban_step cfg db ev s)) ip \<noteq> hm_get (bs_banned s) ip"
proof (cases ev)
  case (AuthFailed clk a u m)
  with assms(2) show ?thesis
    by (auto simp: record_auth_failure_def apply_ban_def Let_def split: option.splits if_splits)
next
  case (BansReloaded clk)
  with assms show ?thesis by (auto split: option.splits dest: reload_reads)
next
  case (BanReleased clk k who)
  with assms(2) show ?thesis by (auto simp: ban_release_def Let_def split: option.splits if_splits)
qed

lemma failure_earns:
  assumes "bc_enabled cfg" "\<not> is_protected cfg ip" "failed_ip ev = Some ip" "sorted (map ev_time (evs @ [ev]))"
    and "hm_get (bs_banned (ban_step cfg db ev (ban_run cfg db evs (fresh_bans d)))) ip = Some t"
    and "hm_get (bs_banned (ban_run cfg db evs (fresh_bans d))) ip \<noteq> Some t"
  shows "ban_earned cfg ip t evs ev"
proof -
  let ?s = "ban_run cfg db evs (fresh_bans d)"
  obtain k where k: "queue_of ip ?s = drop k (times_of ip evs)" using queue_suffix [OF assms(1,2), of evs db d] by blast
  have snoc_times: "times_of ip (evs @ [ev]) = times_of ip evs @ [ev_time ev]" using assms(3) by (simp add: times_of_def)
  have "sorted (times_of ip evs)" using assms(4) by (simp add: times_of_def sorted_append sorted_map sorted_wrt_filter)
  then have "kept cfg (ev_time ev) (queue_of ip ?s)
      = filter (\<lambda>u. ev_time ev \<le> u + ban_window cfg) (drop k (times_of ip evs)) @ [ev_time ev]"
    by (simp add: kept_def k dropWhile_old sorted_wrt_drop)
  then have in_window: "length (kept cfg (ev_time ev) (queue_of ip ?s))
      \<le> length (filter (\<lambda>u. ev_time ev \<le> u + ban_window cfg) (times_of ip (evs @ [ev])))"
    using filter_drop_le by (simp add: snoc_times)
  note eff = fail_effect [OF assms(1-3) queue_short [OF assms(1,2), of db evs d], of db]
  have reached: "unat (bc_max_failures cfg) \<le> length (kept cfg (ev_time ev) (queue_of ip ?s))"
    using eff assms(5,6) by (rule_tac ccontr) simp
  with eff assms(5,6) have "ban_from cfg ev t" by auto
  with reached in_window assms(1-3) show ?thesis by (auto simp: ban_earned_def)
qed


section \<open>Released bans\<close>

text \<open>C21. A ban that follows a released one is not recorded as such: the row keeps the old release. The
  address is banned in memory, but the ban is not listed, it cannot be released, and the next start
  of the server forgets it.\<close>

theorem reban_stays_released:
  assumes "table_laws db" "bd_find db (bs_table s) (ip_addr_str ip) = Some (Some old)" "br_released_at old = Some r"
    and "apply_ban cfg db clk ip u m s = Some s'"
    and "\<And>k row. bd_find db (bs_table s') k = Some (Some row) \<Longrightarrow> parse_ip_addr k = Some ip \<Longrightarrow> k = ip_addr_str ip"
  shows "hm_get (bs_banned s') ip \<noteq> None \<and> ban_release db later (ip_addr_str ip) who s' = (Some False, s') \<and>
    (\<forall>rows. ban_list_active db later s' = Some rows \<longrightarrow> ip_addr_str ip \<notin> fst ` set rows) \<and>
    (\<forall>s''. ban_reload db later s' = Some s'' \<longrightarrow> hm_get (bs_banned s'') ip = None)"
proof -
  obtain row where row: "bd_find db (bs_table s') (ip_addr_str ip) = Some (Some row)" "br_released_at row = Some r"
    using assms(2-4) table_lawsD(1) [OF assms(1)]
    by (fastforce simp: apply_ban_def Let_def ban_update_columns_def)
  have unlisted: "(ip_addr_str ip, x) \<notin> set rows" if "bd_select db (ban_active (bk_unix later)) (bs_table s') = Some rows" for x rows
    using table_lawsD(2) [OF assms(1) that] row by (auto simp: ban_active_def)
  have "hm_get (bs_banned s'') ip = None" if reload: "ban_reload db later s' = Some s''" for s''
  proof (rule ccontr)
    assume "hm_get (bs_banned s'') ip \<noteq> None"
    then obtain t where "hm_get (bs_banned s'') ip = Some t" by blast
    from reload_reads [OF assms(1) reload this] obtain k x where
      "bd_find db (bs_table s') k = Some (Some x)" "parse_ip_addr k = Some ip" "ban_active (bk_unix later) x"
      by (auto simp: ban_read_def)
    with assms(5) row show False by (fastforce simp: ban_active_def)
  qed
  moreover have "hm_get (bs_banned s') ip \<noteq> None" using assms(4) by (auto simp: apply_ban_def Let_def split: option.splits)
  ultimately show ?thesis using row unlisted by (auto simp: ban_release_def ban_list_active_def)
qed

section \<open>Witnesses\<close>

definition demo_table :: "(string, ban_record) hmap ban_db" where
  "demo_table = \<lparr>bd_find = (\<lambda>d k. Some (hm_get d k)),
     bd_upsert = (\<lambda>k r f d. Some (hm_insert k (case hm_get d k of None \<Rightarrow> r | Some row \<Rightarrow> f row) d)),
     bd_update = (\<lambda>k r d. Some (hm_insert k r d)),
     bd_select = (\<lambda>P d. Some (filter (\<lambda>(k, r). hm_get d k = Some r \<and> P r) d))\<rparr>"

lemma demo_table_laws: "table_laws demo_table"
  by (auto simp: table_laws_def demo_table_def dest: hm_get_in split: option.split)

definition demo_bans :: ban_config where
  "demo_bans = \<lparr>bc_enabled = True, bc_max_failures = 2, bc_window_secs = 60, bc_ban_durations_secs = [3600],
     bc_protected_cidrs = []\<rparr>"

definition demo_failure :: "nat \<Rightarrow> ban_event" where
  "demo_failure t = AuthFailed \<lparr>bk_now = t, bk_unix = word_of_nat t\<rparr> (IpV4 7) ''bob'' ''REGISTER''"

lemma demo_unprotected: "bc_enabled demo_bans" "\<not> is_protected demo_bans (IpV4 7)"
  by (simp_all add: demo_bans_def is_protected_def)

lemma demo_stored: "\<not> ban_unstored demo_table ip s"
  by (simp add: ban_unstored_def demo_table_def)


definition demo_quick_bans :: ban_config where
  "demo_quick_bans = demo_bans\<lparr>bc_max_failures := 1\<rparr>"


definition demo_released :: ban_record where
  "demo_released = \<lparr>br_reason = [], br_last_username = None, br_last_method = None, br_offense_count = 1,
     br_banned_until = 0, br_created_at = 0, br_released_at = Some 0, br_released_by = None\<rparr>"

definition demo_released_store :: "(string, ban_record) hmap ban_store" where
  "demo_released_store = \<lparr>bs_banned = [], bs_failures = [], bs_table = [(ip_addr_str (IpV4 7), demo_released)]\<rparr>"

theorem reban_stays_released_witness:
  "\<exists>s'. apply_ban demo_bans demo_table \<lparr>bk_now = 5, bk_unix = 5\<rparr> (IpV4 7) ''bob'' ''INVITE'' demo_released_store = Some s' \<and>
     hm_get (bs_banned s') (IpV4 7) \<noteq> None \<and>
     ban_release demo_table \<lparr>bk_now = 6, bk_unix = 6\<rparr> (ip_addr_str (IpV4 7)) ''admin'' s' = (Some False, s')"
proof -
  let ?clk = "\<lparr>bk_now = 5, bk_unix = 5\<rparr>"
  obtain s' where s': "apply_ban demo_bans demo_table ?clk (IpV4 7) ''bob'' ''INVITE'' demo_released_store = Some s'"
    using apply_ban_bans [where cfg = demo_bans and db = demo_table and clk = ?clk and ip = "IpV4 7" and u = "''bob''" and m = "''INVITE''"
      and s = demo_released_store] demo_stored
    by (auto split: option.splits)
  then have table: "fst ` set (bs_table s') \<subseteq> {ip_addr_str (IpV4 7)}"
    by (auto simp: apply_ban_def demo_table_def demo_released_store_def Let_def hm_insert_def hm_get_def)
  have "hm_get (bs_banned s') (IpV4 7) \<noteq> None \<and>
    ban_release demo_table \<lparr>bk_now = 6, bk_unix = 6\<rparr> (ip_addr_str (IpV4 7)) ''admin'' s' = (Some False, s') \<and>
    (\<forall>rows. ban_list_active demo_table \<lparr>bk_now = 6, bk_unix = 6\<rparr> s' = Some rows \<longrightarrow> ip_addr_str (IpV4 7) \<notin> fst ` set rows) \<and>
    (\<forall>s''. ban_reload demo_table \<lparr>bk_now = 6, bk_unix = 6\<rparr> s' = Some s'' \<longrightarrow> hm_get (bs_banned s'') (IpV4 7) = None)"
  proof (rule reban_stays_released [OF demo_table_laws _ _ s'])
    show "bd_find demo_table (bs_table demo_released_store) (ip_addr_str (IpV4 7)) = Some (Some demo_released)"
      by (simp add: demo_table_def demo_released_store_def hm_get_def)
    show "br_released_at demo_released = Some 0" by (simp add: demo_released_def)
    show "k = ip_addr_str (IpV4 7)" if "bd_find demo_table (bs_table s') k = Some (Some row)" for k row
      using that table hm_get_in [of "bs_table s'" k row] by (force simp: demo_table_def)
  qed
  with s' show ?thesis by blast
qed

end
