(* ===== verification/Auth_Runs.thy ===== *)
theory Auth_Runs
  imports Auth_Props Registrar_Runs Security_Runs
begin

text \<open>
  Authentication followed by registration, and concrete runs.
\<close>

section \<open>Registration within a cached dialog\<close>

text \<open>C5. A cached dialog is enough to register anybody: within the lifetime of its entry, a REGISTER with
  its Call-ID, From tag and source and a To tag passes authentication without credentials, as the
  user its own headers name, and the registrar then binds its contact for that user.\<close>

theorem dialog_takeover:
  assumes "lru_laws (aw_lru env)" "user_try_from (aw_users env) tx = Inr claimed" "trim (su_username claimed) \<noteq> []"
    and "extract_auth_cache_key env tx = Some key" "get_source_addr tx = Some source"
    and "aw_has_to_tag env (st_original tx)" "\<not> source_banned env tx s"
    and "as_cache s = Some (cache_put (aw_lru env) t key source c)" "bk_now (aw_clock env) \<le> t + dc_ttl c"
    and "rv_users reg = aw_users env" "rv_locator reg = memory_api (rv_sip reg) (rv_now reg)"
    and "locator_inv (rv_sip reg) (rs_store r)" "st_method tx = ''REGISTER''"
    and "rv_to reg (st_original tx) = Some aor" "rv_hook reg = None"
    and "parse_contact_headers (rv_sip reg) (rv_header_str reg) (rq_headers (st_original tx)) = Inr [entry]"
    and "\<not> pc_wildcard entry" "granted_expires reg (st_original tx) entry \<noteq> 0"
  shows "\<exists>s' r'. auth_begin env tx s = (Inr Continue, s') \<and> registrar_begin reg (as_user s') tx r = (Inr Abort, r') \<and>
    has_active_bindings (rs_store r') (rv_now reg) (su_username claimed) (su_realm claimed)"
proof -
  obtain s' where auth: "auth_begin env tx s = (Inr Continue, s')" "as_user s' = Some claimed"
    using cached_dialog_any_user [OF assms(1,2,4-9)] by blast
  have user: "register_user reg (as_user s') tx = Some (merge_with claimed claimed)"
    using assms(2,10) auth(2) by (simp add: register_user_def)
  obtain r' l where reg: "registrar_begin reg (as_user s') tx r = (Inr Abort, r')"
    "rs_store r' = ml_register (rv_sip reg) (rv_now reg) (su_username claimed) (su_realm claimed) l (rs_store r)"
    "loc_expires l \<noteq> 0" "loc_last_modified l = Some (rv_now reg)"
    using register_one_contact [OF assms(11,13) user assms(14-18), of r] by (auto simp: or_else_def split: option.splits)
  with auth(1) register_one_active [OF assms(12,3) reg(3,4)] show ?thesis by auto
qed

section \<open>Witnesses\<close>

definition demo_lru :: "(auth_cache_key, auth_cache_entry) hmap lru_api" where
  "demo_lru = \<lparr>lr_new = (\<lambda>_. []), lr_put = hm_insert, lr_get = (\<lambda>k c. (hm_get c k, c)), lr_pop = hm_remove, lr_len = length\<rparr>"

definition demo_peer :: sip_addr where
  "demo_peer = \<lparr>sad_type = Some Tcp, sad_addr = \<lparr>hp_host = ''p'', hp_port = None\<rparr>\<rparr>"

definition demo_auth_users :: user_api where
  "demo_auth_users = demo_users\<lparr>ux_from := (\<lambda>_. Some demo_bob), ux_via_target := (\<lambda>_. Some (Tcp, sad_addr demo_peer))\<rparr>"

definition demo_auth :: "((auth_cache_key, auth_cache_entry) hmap, (string, ban_record) hmap) auth_env" where
  "demo_auth = \<lparr>aw_users = demo_auth_users, aw_lru = demo_lru, aw_ban_config = demo_bans, aw_ban_db = demo_table,
     aw_clock = \<lparr>bk_now = 9, bk_unix = 9\<rparr>, aw_addr_str = (\<lambda>_. []), aw_has_to_tag = (\<lambda>_. True),
     aw_call_id = (\<lambda>_. Some ''c1''), aw_from_tag = (\<lambda>_. Some ''f1''), aw_to = (\<lambda>_. Some demo_bob),
     aw_verify_digest = (\<lambda>_ _ _ _. False), aw_get_user = (\<lambda>_ _ _. Inr None), aw_backends = [],
     aw_realms = \<lparr>rc_ports = [], rc_external_ip = None, rc_realms = None, rc_listen_addrs = [],
       rc_backend_same_realm = (\<lambda>_. False)\<rparr>,
     aw_cluster_peer_ips = [], aw_ensure_user = False, aw_registry = False, aw_nonce = ''n''\<rparr>"

definition demo_cached :: "((auth_cache_key, auth_cache_entry) hmap, (string, ban_record) hmap) auth_state" where
  "demo_cached = \<lparr>as_cache = Some (cache_put demo_lru 5 (''c1'', ''f1'') demo_peer \<lparr>dc_inner = [], dc_ttl = 60\<rparr>),
     as_bans = None, as_user = None, as_cookie_of = \<lparr>ck_spam_result = Nice, ck_trunk = None\<rparr>,
     as_callee_display = None, as_attempts = [], as_auth_replies = []\<rparr>"

definition demo_rider :: sip_transaction where
  "demo_rider = demo_register\<lparr>st_connection := Some \<lparr>cn_reliable = False, cn_remote = Some demo_peer\<rparr>\<rparr>"

lemma demo_lru_laws: "lru_laws demo_lru"
  by (simp add: lru_laws_def demo_lru_def)

lemma demo_claimed:
  "\<exists>u. user_try_from demo_auth_users demo_rider = Inr u \<and> su_username u = ''bob'' \<and> su_realm u = Some ''x''"
  by (simp add: user_try_from_def demo_auth_users_def claimed_identity_def check_authorization_headers_def standard_header_def
      demo_rider_def demo_register_def demo_users_def demo_bob_def map_filter_def uri_user_def Let_def)

lemma demo_cached_passes: "\<exists>s'. auth_begin demo_auth demo_rider demo_cached = (Inr Continue, s')"
proof -
  obtain u where "user_try_from demo_auth_users demo_rider = Inr u" using demo_claimed by blast
  then show ?thesis
    by (simp add: auth_begin_def demo_auth_def source_banned_def demo_cached_def cached_dialog_def extract_auth_cache_key_def
        get_source_addr_def demo_rider_def cache_is_authenticated_def cache_put_def demo_lru_def cache_entry_expired_def
        accept_user_def)
qed

theorem auth_continue_sound_witness:
  "\<exists>s' tx_user u. auth_begin demo_auth demo_rider demo_cached = (Inr Continue, s') \<and>
     user_try_from demo_auth_users demo_rider = Inr tx_user \<and> as_user s' = Some u \<and>
     may_act_as demo_auth demo_rider demo_cached tx_user u"
proof -
  obtain s' where run: "auth_begin demo_auth demo_rider demo_cached = (Inr Continue, s')" using demo_cached_passes by blast
  have "st_method demo_rider = ''INVITE'' \<or> st_method demo_rider = ''REGISTER''" by (simp add: demo_rider_def demo_register_def)
  from auth_continue_sound [OF run this] run show ?thesis by (auto simp: demo_auth_def)
qed

definition demo_auth_registrar :: "memory_locator registrar_env" where
  "demo_auth_registrar = demo_registrar\<lparr>rv_users := demo_auth_users\<rparr>"

theorem dialog_takeover_witness:
  "\<exists>s' r'. auth_begin demo_auth demo_rider demo_cached = (Inr Continue, s') \<and>
     registrar_begin demo_auth_registrar (as_user s') demo_rider demo_start = (Inr Abort, r') \<and>
     has_active_bindings (rs_store r') 7 ''bob'' (Some ''x'')"
proof -
  obtain u where u: "user_try_from demo_auth_users demo_rider = Inr u" "su_username u = ''bob''" "su_realm u = Some ''x''"
    using demo_claimed by blast
  have "\<exists>s' r'. auth_begin demo_auth demo_rider demo_cached = (Inr Continue, s') \<and>
     registrar_begin demo_auth_registrar (as_user s') demo_rider demo_start = (Inr Abort, r') \<and>
     has_active_bindings (rs_store r') (rv_now demo_auth_registrar) (su_username u) (su_realm u)"
  proof (rule dialog_takeover [where key = "(''c1'', ''f1'')" and source = demo_peer and t = 5
        and c = "\<lparr>dc_inner = [], dc_ttl = 60\<rparr>" and aor = demo_bob and entry = demo_bound_contact])
    show "lru_laws (aw_lru demo_auth)" using demo_lru_laws by (simp add: demo_auth_def)
    show "user_try_from (aw_users demo_auth) demo_rider = Inr u" using u(1) by (simp add: demo_auth_def)
    show "trim (su_username u) \<noteq> []" by (simp add: u(2) trim_def trim_start_def trim_end_def is_white_def code_def)
    show "locator_inv (rv_sip demo_auth_registrar) (rs_store demo_start)" by (rule demo_start_inv)
    show "parse_contact_headers (rv_sip demo_auth_registrar) (rv_header_str demo_auth_registrar)
        (rq_headers (st_original demo_rider)) = Inr [demo_bound_contact]"
      using demo_contacts by (simp add: demo_auth_registrar_def demo_registrar_def demo_rider_def demo_register_def)
    show "granted_expires demo_auth_registrar (st_original demo_rider) demo_bound_contact \<noteq> 0"
      by (simp add: granted_expires_def contact_expires_def contact_param_value_def demo_bound_contact_def global_expires_def
        demo_rider_def demo_register_def standard_header_def map_filter_def demo_registrar_def demo_auth_registrar_def)
  qed (simp_all add: demo_auth_def demo_cached_def source_banned_def extract_auth_cache_key_def get_source_addr_def
      demo_rider_def demo_register_def demo_auth_registrar_def demo_registrar_def demo_bound_contact_def)
  then show ?thesis using u by (simp add: demo_auth_registrar_def demo_registrar_def)
qed

end
