(* ===== verification/Trunk_Health.thy ===== *)
theory Trunk_Health
  imports Route_Rewrite
begin

text \<open>
  Health checks of trunks, \<^verbatim>\<open>src/src/proxy/trunk_health.rs\<close>: the verdict on a probe, the targets of a
  trunk, and one pass of the loop over the trunks. The endpoint that carries the OPTIONS request is a
  parameter: what became of each request, and the text of the error where a URI or a Via does not parse.
  The count of failures is a \<^verbatim>\<open>u32\<close> that wraps, as in a release build. Log lines are left out.
\<close>

section \<open>Probes\<close>

record monitored_trunk = trunk_config +
  tc_health_check_enabled :: "bool option"
  tc_health_check_per_ip :: "bool option"
  tc_health_check_interval_secs :: "u64 option"
  tc_health_check_probe_count :: "u32 option"
  tc_health_check_fallback_trunk :: "string option"

record per_ip_health_state =
  pi_target :: string
  pi_healthy :: bool
  pi_rtt_ms :: "u64 option"
  pi_last_error :: "string option"
  pi_last_checked :: "string option"

record trunk_health_state =
  th_trunk_name :: string
  th_healthy :: bool
  th_consecutive_failures :: u32
  th_rtt_ms :: "u64 option"
  th_last_checked :: "string option"
  th_last_error :: "string option"
  th_dest :: string
  th_fallback_trunk :: "string option"
  th_per_ip_states :: "per_ip_health_state list option"

text \<open>What became of a request: it had no transaction key, it was not sent, a response with its status and
  the time it took, another message, the transaction closed, or nothing in time.\<close>

datatype probe_reply =
    NoKey string
  | NotSent string
  | ProbeResponse u16 u64
  | ProbeOther u64
  | ProbeClosed
  | ProbeTimeout

record probe_env =
  pv_uri_error :: "string \<Rightarrow> string option"
  pv_via_error :: "string \<Rightarrow> string option"
  pv_branch :: "string \<Rightarrow> string \<Rightarrow> string"
  pv_local_sip_addr :: string
  pv_reply :: "string \<Rightarrow> string \<Rightarrow> probe_reply"
  pv_now :: "string \<Rightarrow> string \<Rightarrow> string"

definition reply_verdict :: "probe_reply \<Rightarrow> string + u64" where
  "reply_verdict reply =
     (case reply of
        NoKey e \<Rightarrow> Inl (''transaction key: '' @ e)
      | NotSent e \<Rightarrow> Inl (''tx send: '' @ e)
      | ProbeResponse status elapsed \<Rightarrow>
          if status < 300 then Inr elapsed else Inl (''SIP '' @ nat_to_string (unat status))
      | ProbeOther elapsed \<Rightarrow> Inl (''non-response reply in '' @ nat_to_string (unat elapsed) @ ''ms'')
      | ProbeClosed \<Rightarrow> Inl ''no response (transaction closed)''
      | ProbeTimeout \<Rightarrow> Inl ''timeout (10s)'')"

definition probe_trunk_with_timeout :: "probe_env \<Rightarrow> string \<Rightarrow> string \<Rightarrow> string + u64" where
  "probe_trunk_with_timeout env name dest =
     (case pv_uri_error env (''sip:health@'' @ dest) of
        Some e \<Rightarrow> Inl (''invalid dest URI '' @ dest @ '': '' @ e)
      | None \<Rightarrow>
          (case pv_via_error env (''SIP/2.0/UDP '' @ pv_local_sip_addr env @ '';branch=z9hG4bK-hc'' @ pv_branch env name dest) of
             Some e \<Rightarrow> Inl (''invalid via: '' @ e)
           | None \<Rightarrow>
               (case pv_uri_error env (''sip:health-check@'' @ pv_local_sip_addr env) of
                  Some e \<Rightarrow> Inl (''invalid from uri: '' @ e)
                | None \<Rightarrow> reply_verdict (pv_reply env name dest))))"

definition dest_name :: "string \<Rightarrow> string" where
  "dest_name dest = (case strip_prefix ''sip:'' (trim dest) of Some rest \<Rightarrow> rest | None \<Rightarrow> trim dest)"

definition extract_port :: "string \<Rightarrow> string option" where
  "extract_port target =
     (case rsplit_once CHR '':'' (trim target) of
        Some (_, port_str) \<Rightarrow> if parse_uint (2 ^ 16) port_str \<noteq> None then Some port_str else None
      | None \<Rightarrow> None)"

definition probe_target :: "string option \<Rightarrow> string \<Rightarrow> string" where
  "probe_target default_port host =
     (let host = trim host
      in if extract_port host \<noteq> None then host
         else case default_port of Some port \<Rightarrow> host @ '':'' @ port | None \<Rightarrow> host)"

definition build_per_ip_targets :: "string \<Rightarrow> string list \<Rightarrow> string list" where
  "build_per_ip_targets dest inbound_hosts =
     fold (\<lambda>t targets. if t \<in> set targets then targets else targets @ [t])
       (dest_name dest # map (probe_target (extract_port (dest_name dest))) inbound_hosts) []"

section \<open>A pass over the trunks\<close>

definition health_default :: "string \<Rightarrow> monitored_trunk \<Rightarrow> trunk_health_state" where
  "health_default name cfg =
     \<lparr>th_trunk_name = name, th_healthy = True, th_consecutive_failures = 0, th_rtt_ms = None,
      th_last_checked = None, th_last_error = None, th_dest = tc_dest cfg,
      th_fallback_trunk = tc_health_check_fallback_trunk cfg, th_per_ip_states = None\<rparr>"

definition probe_target_state :: "probe_env \<Rightarrow> string \<Rightarrow> string \<Rightarrow> per_ip_health_state" where
  "probe_target_state env name target =
     (case probe_trunk_with_timeout env name (dest_name target) of
        Inr rtt \<Rightarrow> \<lparr>pi_target = target, pi_healthy = True, pi_rtt_ms = Some rtt, pi_last_error = None,
          pi_last_checked = Some (pv_now env name target)\<rparr>
      | Inl e \<Rightarrow> \<lparr>pi_target = target, pi_healthy = False, pi_rtt_ms = None, pi_last_error = Some e,
          pi_last_checked = Some (pv_now env name target)\<rparr>)"

definition check_per_ip :: "probe_env \<Rightarrow> string \<Rightarrow> monitored_trunk \<Rightarrow> trunk_health_state option \<Rightarrow> trunk_health_state" where
  "check_per_ip env name cfg prev =
     (let results = map (probe_target_state env name) (build_per_ip_targets (tc_dest cfg) (tc_inbound_hosts cfg));
          all_healthy = (\<forall>p \<in> set results. pi_healthy p);
          prev = (case prev of Some p \<Rightarrow> p | None \<Rightarrow> health_default name cfg)
      in \<lparr>th_trunk_name = name, th_healthy = all_healthy,
          th_consecutive_failures = (if all_healthy then 0 else th_consecutive_failures prev + 1),
          th_rtt_ms = (case List.find (\<lambda>p. pi_healthy p \<and> pi_rtt_ms p \<noteq> None) results of
                         Some p \<Rightarrow> pi_rtt_ms p | None \<Rightarrow> None),
          th_last_checked = Some (pv_now env name []),
          th_last_error = (if all_healthy then None else case results of p # _ \<Rightarrow> pi_last_error p | [] \<Rightarrow> None),
          th_dest = tc_dest cfg, th_fallback_trunk = tc_health_check_fallback_trunk cfg,
          th_per_ip_states = Some results\<rparr>)"

definition probe_threshold :: "monitored_trunk \<Rightarrow> u32" where
  "probe_threshold cfg = (case tc_health_check_probe_count cfg of Some n \<Rightarrow> n | None \<Rightarrow> 3)"

definition check_standard :: "probe_env \<Rightarrow> string \<Rightarrow> monitored_trunk \<Rightarrow> trunk_health_state option \<Rightarrow> trunk_health_state" where
  "check_standard env name cfg prev =
     (case probe_trunk_with_timeout env name (dest_name (tc_dest cfg)) of
        Inr rtt \<Rightarrow>
          \<lparr>th_trunk_name = name, th_healthy = True, th_consecutive_failures = 0, th_rtt_ms = Some rtt,
           th_last_checked = Some (pv_now env name []), th_last_error = None, th_dest = tc_dest cfg,
           th_fallback_trunk = tc_health_check_fallback_trunk cfg, th_per_ip_states = None\<rparr>
      | Inl e \<Rightarrow>
          let prev = (case prev of Some p \<Rightarrow> p | None \<Rightarrow> health_default name cfg);
              failures = th_consecutive_failures prev + 1;
              is_unhealthy = (probe_threshold cfg \<le> failures)
          in \<lparr>th_trunk_name = name, th_healthy = (\<not> is_unhealthy), th_consecutive_failures = failures,
              th_rtt_ms = None, th_last_checked = Some (pv_now env name []),
              th_last_error = Some (''OPTIONS failed: '' @ e), th_dest = tc_dest cfg,
              th_fallback_trunk = tc_health_check_fallback_trunk cfg, th_per_ip_states = None\<rparr>)"

definition health_enabled :: "monitored_trunk \<Rightarrow> bool" where
  "health_enabled cfg = (tc_health_check_enabled cfg = Some True)"

definition per_ip_mode :: "monitored_trunk \<Rightarrow> bool" where
  "per_ip_mode cfg = (tc_health_check_per_ip cfg = Some True \<and> tc_inbound_hosts cfg \<noteq> [])"

definition check_trunk :: "probe_env \<Rightarrow> u64 \<Rightarrow> string \<times> monitored_trunk \<Rightarrow>
    u64 \<times> (string, trunk_health_state) hmap \<Rightarrow> u64 \<times> (string, trunk_health_state) hmap" where
  "check_trunk env default_interval_secs nc st =
     (case (nc, st) of ((name, cfg), (next_tick, states)) \<Rightarrow>
        if \<not> health_enabled cfg then (next_tick, states)
        else (min next_tick (case tc_health_check_interval_secs cfg of Some i \<Rightarrow> i | None \<Rightarrow> default_interval_secs),
              hm_insert name
                ((if per_ip_mode cfg then check_per_ip else check_standard) env name cfg (hm_get states name))
                states))"

text \<open>One turn of the loop: the seconds until the next turn and the states.\<close>

definition health_pass :: "u64 \<Rightarrow> probe_env \<times> (string, monitored_trunk) hmap \<Rightarrow>
    (string, trunk_health_state) hmap \<Rightarrow> u64 \<times> (string, trunk_health_state) hmap" where
  "health_pass default_interval_secs et states =
     (case et of (env, trunks) \<Rightarrow>
        (case fold (check_trunk env default_interval_secs) trunks (default_interval_secs, states) of
           (next_tick, states) \<Rightarrow>
             (next_tick,
              hm_retain (\<lambda>name _. case hm_get trunks name of Some cfg \<Rightarrow> health_enabled cfg | None \<Rightarrow> False) states)))"

definition health_loop :: "u64 \<Rightarrow> (probe_env \<times> (string, monitored_trunk) hmap) list \<Rightarrow>
    (string, trunk_health_state) hmap \<Rightarrow> (string, trunk_health_state) hmap" where
  "health_loop default_interval_secs passes states =
     fold (\<lambda>et states. snd (health_pass default_interval_secs et states)) passes states"

definition snapshot :: "(string, trunk_health_state) hmap \<Rightarrow> trunk_health_state list" where
  "snapshot states = sort_key th_trunk_name (map snd states)"

section \<open>The effect of a pass\<close>

lemma check_trunks_get:
  assumes "hm_ok trunks"
  shows "hm_get (snd (fold (check_trunk env d) trunks (tick, states))) n =
    (case hm_get trunks n of
       Some cfg \<Rightarrow> if health_enabled cfg
         then Some ((if per_ip_mode cfg then check_per_ip else check_standard) env n cfg (hm_get states n))
         else hm_get states n
     | None \<Rightarrow> hm_get states n)"
  using assms
proof (induction trunks arbitrary: tick states)
  case Nil
  then show ?case by simp
next
  case (Cons nc trunks)
  obtain name cfg where nc: "nc = (name, cfg)" by (cases nc)
  obtain tick' states' where s: "check_trunk env d nc (tick, states) = (tick', states')" by fastforce
  have ok: "hm_ok trunks" and fresh: "hm_get trunks name = None"
    using Cons.prems nc by (auto simp: hm_ok_def hm_get_def map_of_eq_None_iff)
  have st: "hm_get states' m = (if m = name \<and> health_enabled cfg
      then Some ((if per_ip_mode cfg then check_per_ip else check_standard) env name cfg (hm_get states name))
      else hm_get states m)" for m
    using s nc by (auto simp: check_trunk_def split: if_splits)
  have hd: "hm_get (nc # trunks) n = (if n = name then Some cfg else hm_get trunks n)"
    by (simp add: nc hm_get_def)
  show ?case
    by (simp add: s Cons.IH [OF ok] hd st fresh split: option.split)
qed

lemma check_trunks_ok:
  "hm_ok states \<Longrightarrow> hm_ok (snd (fold (check_trunk env d) trunks (tick, states)))"
proof (induction trunks arbitrary: tick states)
  case (Cons nc trunks)
  obtain tick' states' where s: "check_trunk env d nc (tick, states) = (tick', states')" by fastforce
  then have "hm_ok states'" using Cons.prems by (auto simp: check_trunk_def split: prod.splits if_splits)
  with Cons.IH s show ?case by simp
qed simp

lemma health_pass_get:
  assumes "hm_ok trunks" "hm_ok states"
  shows "hm_get (snd (health_pass d (env, trunks) states)) n =
    (case hm_get trunks n of
       Some cfg \<Rightarrow> if health_enabled cfg
         then Some ((if per_ip_mode cfg then check_per_ip else check_standard) env n cfg (hm_get states n))
         else None
     | None \<Rightarrow> None)"
proof -
  let ?f = "fold (check_trunk env d) trunks (d, states)"
  have "hm_get (snd (health_pass d (env, trunks) states)) n = (case hm_get (snd ?f) n of None \<Rightarrow> None
      | Some v \<Rightarrow> if (case hm_get trunks n of Some cfg \<Rightarrow> health_enabled cfg | None \<Rightarrow> False) then Some v else None)"
    using hm_get_retain [OF check_trunks_ok [OF assms(2)]] by (simp add: health_pass_def split_beta)
  then show ?thesis by (auto simp: check_trunks_get [OF assms(1)] split: option.splits)
qed

lemma health_pass_ok: "hm_ok states \<Longrightarrow> hm_ok (snd (health_pass d et states))"
  by (simp add: health_pass_def split_beta check_trunks_ok)

lemma health_loop_snoc:
  "health_loop d (passes @ [et]) states = snd (health_pass d et (health_loop d passes states))"
  by (simp add: health_loop_def)

interpretation health_machine: event_machine "\<lambda>et states. snd (health_pass d et states)" hm_ok for d
  by unfold_locales (rule health_pass_ok)

section \<open>Failures in a row\<close>

definition probe_answered :: "string \<Rightarrow> probe_env \<times> (string, monitored_trunk) hmap \<Rightarrow> bool" where
  "probe_answered n et =
     (case hm_get (snd et) n of
        Some cfg \<Rightarrow> \<not> isl (probe_trunk_with_timeout (fst et) n (dest_name (tc_dest cfg)))
      | None \<Rightarrow> False)"

definition standard_pass :: "string \<Rightarrow> u32 \<Rightarrow> probe_env \<times> (string, monitored_trunk) hmap \<Rightarrow> bool" where
  "standard_pass n limit et \<longleftrightarrow> hm_ok (snd et) \<and>
     (\<exists>cfg. hm_get (snd et) n = Some cfg \<and> health_enabled cfg \<and> \<not> per_ip_mode cfg \<and> probe_threshold cfg = limit)"

definition failed_last :: "string \<Rightarrow> (probe_env \<times> (string, monitored_trunk) hmap) list \<Rightarrow> nat" where
  "failed_last n passes = length (takeWhile (\<lambda>et. \<not> probe_answered n et) (rev passes))"

lemma failed_last_simps [simp]:
  "failed_last n [] = 0"
  "failed_last n (passes @ [et]) = (if probe_answered n et then 0 else Suc (failed_last n passes))"
  by (simp_all add: failed_last_def)

lemma failed_last_le: "failed_last n passes \<le> length passes"
  using length_takeWhile_le [of "\<lambda>et. \<not> probe_answered n et" "rev passes"] by (simp add: failed_last_def)

lemma check_standard_result:
  "if \<not> isl (probe_trunk_with_timeout env n (dest_name (tc_dest cfg)))
   then th_healthy (check_standard env n cfg prev) \<and> th_consecutive_failures (check_standard env n cfg prev) = 0
   else th_consecutive_failures (check_standard env n cfg prev)
          = (case prev of Some p \<Rightarrow> th_consecutive_failures p | None \<Rightarrow> 0) + 1 \<and>
        (th_healthy (check_standard env n cfg prev)
           \<longleftrightarrow> th_consecutive_failures (check_standard env n cfg prev) < probe_threshold cfg)"
  by (cases "probe_trunk_with_timeout env n (dest_name (tc_dest cfg))")
    (auto simp: check_standard_def health_default_def Let_def not_le split: option.splits)

text \<open>C29. A trunk probed in the standard mode is healthy exactly when its last probe was answered or fewer
  probes in a row have failed than the configured count, and the number reported is that of the failures in
  a row, over any number of passes and whatever happens to the other trunks.\<close>

theorem standard_health_exact:
  assumes "\<forall>et \<in> set passes. standard_pass n limit et" "hm_ok states" "hm_get states n = None"
    and "passes \<noteq> []" "length passes < 2 ^ 32"
  shows "\<exists>st. hm_get (health_loop d passes states) n = Some st \<and>
    unat (th_consecutive_failures st) = failed_last n passes \<and>
    (th_healthy st \<longleftrightarrow> failed_last n passes = 0 \<or> failed_last n passes < unat limit)"
  using assms(1,4,5)
proof (induction passes rule: rev_induct)
  case Nil
  then show ?case by simp
next
  case (snoc et passes)
  obtain env trunks where et: "et = (env, trunks)" by (cases et)
  obtain cfg where cfg: "hm_ok trunks" "hm_get trunks n = Some cfg" "health_enabled cfg" "\<not> per_ip_mode cfg"
    "probe_threshold cfg = limit"
    using snoc.prems(1) et by (auto simp: standard_pass_def)
  let ?prev = "hm_get (health_loop d passes states) n" and ?st = "check_standard env n cfg"
  have "hm_ok (health_loop d passes states)"
    unfolding health_loop_def by (rule health_machine.run_inv [OF assms(2)])
  with cfg have st: "hm_get (health_loop d (passes @ [et]) states) n = Some (?st ?prev)"
    by (simp add: health_loop_snoc et health_pass_get)
  have prev: "unat (case ?prev of Some p \<Rightarrow> th_consecutive_failures p | None \<Rightarrow> 0) = failed_last n passes"
  proof (cases "passes = []")
    case True
    then show ?thesis by (simp add: health_loop_def assms(3))
  next
    case False
    then show ?thesis using snoc by force
  qed
  have "failed_last n passes < 2 ^ 32 - 1" using failed_last_le [of n passes] snoc.prems(3) by simp
  then have "unat ((case ?prev of Some p \<Rightarrow> th_consecutive_failures p | None \<Rightarrow> 0) + 1) = Suc (failed_last n passes)"
    using prev by (simp add: unat_word_ariths)
  with check_standard_result [of env n cfg ?prev] st cfg et show ?case
    by (auto simp: probe_answered_def word_less_nat_alt split: if_splits)
qed

section \<open>One target down\<close>

lemma fold_targets:
  "distinct acc \<Longrightarrow> distinct (fold (\<lambda>t targets. if t \<in> set targets then targets else targets @ [t]) ts acc) \<and>
     set (fold (\<lambda>t targets. if t \<in> set targets then targets else targets @ [t]) ts acc) = set acc \<union> set ts"
  by (induction ts arbitrary: acc) auto

lemma build_per_ip_targets_set:
  "distinct (build_per_ip_targets dest hosts)"
  "set (build_per_ip_targets dest hosts) =
     insert (dest_name dest) (probe_target (extract_port (dest_name dest)) ` set hosts)"
  using fold_targets [of "[]" "dest_name dest # map (probe_target (extract_port (dest_name dest))) hosts"]
  by (auto simp: build_per_ip_targets_def)

text \<open>C30. A trunk probed address by address is healthy exactly when all its targets answered in the last
  pass: one address that does not answer makes it unhealthy at once, however many others answer and whatever
  count of failures is configured.\<close>

theorem per_ip_needs_all:
  assumes "hm_ok trunks" "hm_ok states" "hm_get trunks n = Some cfg" "health_enabled cfg" "per_ip_mode cfg"
  shows "\<exists>st. hm_get (snd (health_pass d (env, trunks) states)) n = Some st \<and>
    (th_healthy st \<longleftrightarrow> \<not> isl (probe_trunk_with_timeout env n (dest_name (dest_name (tc_dest cfg)))) \<and>
       (\<forall>host \<in> set (tc_inbound_hosts cfg). \<not> isl (probe_trunk_with_timeout env n
          (dest_name (probe_target (extract_port (dest_name (tc_dest cfg))) host)))))"
proof -
  have "pi_healthy (probe_target_state env n t) \<longleftrightarrow> \<not> isl (probe_trunk_with_timeout env n (dest_name t))" for t
    by (simp add: probe_target_state_def split: sum.split)
  then have "th_healthy (check_per_ip env n cfg prev) \<longleftrightarrow>
      (\<forall>t \<in> set (build_per_ip_targets (tc_dest cfg) (tc_inbound_hosts cfg)).
         \<not> isl (probe_trunk_with_timeout env n (dest_name t)))" for prev
    by (simp add: check_per_ip_def Let_def)
  with health_pass_get [OF assms(1,2), of d env n] assms(3-5) show ?thesis
    by (simp add: build_per_ip_targets_set)
qed

section \<open>A trunk with two addresses\<close>

definition demo_trunk :: "bool \<Rightarrow> monitored_trunk" where
  "demo_trunk per_ip =
     trunk_config.extend (trunk_config_default\<lparr>tc_dest := ''sip:a:5060'', tc_inbound_hosts := [''b'']\<rparr>)
       (monitored_trunk.fields (Some True) (Some per_ip) None (Some 2) None)"

definition demo_endpoint :: "string list \<Rightarrow> probe_env" where
  "demo_endpoint up = \<lparr>pv_uri_error = (\<lambda>_. None), pv_via_error = (\<lambda>_. None), pv_branch = (\<lambda>_ _. ''b1''),
     pv_local_sip_addr = ''10.0.0.1:5060'', pv_reply = (\<lambda>_ t. if t \<in> set up then ProbeResponse 200 4 else ProbeTimeout),
     pv_now = (\<lambda>_ _. ''now'')\<rparr>"

lemma demo_trunk_fields:
  "health_enabled (demo_trunk b)" "per_ip_mode (demo_trunk b) = b" "probe_threshold (demo_trunk b) = 2"
  "tc_dest (demo_trunk b) = ''sip:a:5060''" "tc_inbound_hosts (demo_trunk b) = [''b'']"
  by (simp_all add: demo_trunk_def health_enabled_def per_ip_mode_def probe_threshold_def trunk_config.defs
      monitored_trunk.defs)

lemma demo_probes:
  "isl (probe_trunk_with_timeout (demo_endpoint up) n t) \<longleftrightarrow> t \<notin> set up"
  by (simp add: probe_trunk_with_timeout_def demo_endpoint_def reply_verdict_def)

lemma demo_names:
  "dest_name ''sip:a:5060'' = ''a:5060''" "dest_name ''a:5060'' = ''a:5060''"
  "probe_target (extract_port ''a:5060'') ''b'' = ''b:5060''" "dest_name ''b:5060'' = ''b:5060''"
proof -
  note strs = trim_def trim_start_def trim_end_def is_white_def code_def strip_prefix_def starts_with_def
  show "dest_name ''sip:a:5060'' = ''a:5060''" "dest_name ''a:5060'' = ''a:5060''" "dest_name ''b:5060'' = ''b:5060''"
    by (simp_all add: dest_name_def strs)
  have "extract_port ''a:5060'' = Some ''5060''" "extract_port ''b'' = None"
    by (simp_all add: extract_port_def strs rsplit_once_def parse_uint_def is_ascii_digit_def)
  then show "probe_target (extract_port ''a:5060'') ''b'' = ''b:5060''"
    by (simp add: probe_target_def strs)
qed

text \<open>Two probes without an answer in a row, the second reaches the count of two.\<close>

theorem standard_health_exact_witness:
  "\<exists>st. hm_get (health_loop 30 [(demo_endpoint [''a:5060''], [(''t'', demo_trunk False)]),
      (demo_endpoint [], [(''t'', demo_trunk False)]), (demo_endpoint [], [(''t'', demo_trunk False)])] []) ''t'' = Some st \<and>
    th_consecutive_failures st = 2 \<and> \<not> th_healthy st"
proof -
  let ?ps = "[(demo_endpoint [''a:5060''], [(''t'', demo_trunk False)]),
      (demo_endpoint [], [(''t'', demo_trunk False)]), (demo_endpoint [], [(''t'', demo_trunk False)])]"
  have "\<forall>et \<in> set ?ps. standard_pass ''t'' 2 et"
    by (simp add: standard_pass_def hm_ok_def hm_get_def demo_trunk_fields)
  from standard_health_exact [OF this, of "[]" 30]
  have "\<exists>st. hm_get (health_loop 30 ?ps []) ''t'' = Some st \<and>
      unat (th_consecutive_failures st) = failed_last ''t'' ?ps \<and>
      (th_healthy st \<longleftrightarrow> failed_last ''t'' ?ps = 0 \<or> failed_last ''t'' ?ps < unat (2 :: u32))" by simp
  moreover have "failed_last ''t'' ?ps = 2"
    by (simp add: failed_last_def probe_answered_def hm_get_def demo_trunk_fields demo_names demo_probes)
  moreover have "(w :: u32) = 2" if "unat w = 2" for w
    using that by (simp add: word_unat_eq_iff)
  ultimately show ?thesis by auto
qed

text \<open>The destination answers, the second address does not; two failures are configured.\<close>

theorem per_ip_needs_all_witness:
  "\<exists>st. hm_get (snd (health_pass 30 (demo_endpoint [''a:5060''], [(''t'', demo_trunk True)]) [])) ''t'' = Some st \<and>
    \<not> th_healthy st"
proof -
  have "hm_ok [(''t'', demo_trunk True)]" "hm_get [(''t'', demo_trunk True)] ''t'' = Some (demo_trunk True)"
    by (simp_all add: hm_ok_def hm_get_def)
  from per_ip_needs_all [OF this(1) hm_ok_Nil this(2), of 30 "demo_endpoint [''a:5060'']"]
  show ?thesis by (auto simp: demo_trunk_fields demo_names demo_probes)
qed

end
