(* ===== verification/Dialplan_Inspectors.thy ===== *)
theory Dialplan_Inspectors
  imports Route_Rewrite Acl_Module "HOL-Library.Product_Lexorder"
begin

text \<open>
  The inspectors that may change a dialplan after routing: their order and the overrides of it
  (\<^verbatim>\<open>src/src/proxy/routing/stack.rs\<close>, \<^verbatim>\<open>inspector_stack.rs\<close>, \<^verbatim>\<open>server.rs\<close>), the chain
  (\<^verbatim>\<open>src/src/proxy/call.rs\<close>), and the two inspectors of the core: emergency numbers
  (\<^verbatim>\<open>src/src/proxy/emergency.rs\<close>) and the assignment of caller numbers from a pool
  (\<^verbatim>\<open>src/src/proxy/number_pool.rs\<close>). Of a dialplan only the fields these two touch are kept. The LRU table
  of the usage counts is a parameter; priorities are only compared and are kept as integers.
\<close>

section \<open>The stack of inspectors\<close>

datatype eval_mode = PreRoute | PostRoute

datatype routing_phase = PhPreRoute | PhRouteTable | PhPostRoute | PhExtensionResolve | PhOutboundWholesale | PhSessionBehavior

fun phase_order :: "routing_phase \<Rightarrow> nat" where
  "phase_order PhPreRoute = 0"
| "phase_order PhRouteTable = 1"
| "phase_order PhExtensionResolve = 2"
| "phase_order PhPostRoute = 3"
| "phase_order PhOutboundWholesale = 4"
| "phase_order PhSessionBehavior = 5"

record contribution_override =
  co_id :: string
  co_enabled :: "bool option"
  co_priority :: "int option"
  co_eval_mode :: "eval_mode option"

record 'h dialplan =
  dp_caller :: "sip_uri option"
  dp_flow :: "'h dialplan_flow"

datatype ('h, 'e) dialplan_verdict = VContinue "'h dialplan" | VFinal "'h dialplan" | VReject 'e

type_synonym ('h, 'e, 's) inspector = "'h dialplan \<Rightarrow> 's \<Rightarrow> ('h, 'e) dialplan_verdict \<times> 's"

record ('h, 'e, 's) ordered_inspector =
  oi_id :: string
  oi_phase :: routing_phase
  oi_priority :: int
  oi_eval_mode :: eval_mode
  oi_enabled :: bool
  oi_inspector :: "('h, 'e, 's) inspector"

definition upsert_contribution_override :: "string \<Rightarrow> bool option \<Rightarrow> int option \<Rightarrow> eval_mode option \<Rightarrow>
    contribution_override list \<Rightarrow> contribution_override list" where
  "upsert_contribution_override i enabled priority mode file =
     (case List.find (\<lambda>c. co_id c = i) file of
        Some _ \<Rightarrow>
          (let k = length (takeWhile (\<lambda>c. co_id c \<noteq> i) file); c = file ! k
           in file[k := c\<lparr>co_enabled := (if enabled = None then co_enabled c else enabled),
                          co_priority := (if priority = None then co_priority c else priority),
                          co_eval_mode := (if mode = None then co_eval_mode c else mode)\<rparr>])
      | None \<Rightarrow> file @ [\<lparr>co_id = i, co_enabled = enabled, co_priority = priority, co_eval_mode = mode\<rparr>])"

definition apply_overrides_to_inspector_meta :: "contribution_override list \<Rightarrow>
    ('h, 'e, 's) ordered_inspector \<Rightarrow> ('h, 'e, 's) ordered_inspector" where
  "apply_overrides_to_inspector_meta file entry =
     (case List.find (\<lambda>c. co_id c = oi_id entry) file of
        None \<Rightarrow> entry
      | Some ov \<Rightarrow>
          entry\<lparr>oi_enabled := (case co_enabled ov of Some v \<Rightarrow> v | None \<Rightarrow> oi_enabled entry),
                oi_priority := (case co_priority ov of Some v \<Rightarrow> v | None \<Rightarrow> oi_priority entry),
                oi_eval_mode := (case co_eval_mode ov of Some v \<Rightarrow> v | None \<Rightarrow> oi_eval_mode entry)\<rparr>)"

definition sort_inspector_entries :: "('h, 'e, 's) ordered_inspector list \<Rightarrow> ('h, 'e, 's) ordered_inspector list" where
  "sort_inspector_entries entries = sort_key (\<lambda>e. (phase_order (oi_phase e), - oi_priority e, oi_id e)) entries"

definition finalize_dialplan_inspectors :: "contribution_override list \<Rightarrow> ('h, 'e, 's) ordered_inspector list \<Rightarrow>
    ('h, 'e, 's) ordered_inspector list" where
  "finalize_dialplan_inspectors file entries =
     sort_inspector_entries (map (apply_overrides_to_inspector_meta file) entries)"

definition default_priority_for_id :: "string \<Rightarrow> int" where
  "default_priority_for_id i =
     (if i = ''core.emergency'' then 9999 else if i = ''core.number_pool'' then 8900
      else if i = ''voicemail.check'' then 8500 else if i = ''cc.quick_route'' then 8450
      else if i = ''cc.monitor'' then 8400 else 100)"

text \<open>The chain of \<^verbatim>\<open>build_dialplan\<close>.\<close>

fun run_inspectors :: "('h, 'e, 's) ordered_inspector list \<Rightarrow> 'h dialplan \<Rightarrow> 's \<Rightarrow> ('e + 'h dialplan) \<times> 's" where
  "run_inspectors [] dp s = (Inr dp, s)"
| "run_inspectors (entry # entries) dp s =
     (if \<not> oi_enabled entry then run_inspectors entries dp s
      else if oi_eval_mode entry = PostRoute \<and> \<not> flow_is_empty (dp_flow dp) then run_inspectors entries dp s
      else case oi_inspector entry dp s of
             (VContinue dp', s') \<Rightarrow> run_inspectors entries dp' s'
           | (VFinal dp', s') \<Rightarrow> (Inr dp', s')
           | (VReject e, s') \<Rightarrow> (Inl e, s'))"

section \<open>Emergency numbers\<close>

record emergency_config =
  em_enabled :: bool
  em_numbers :: "string list"
  em_emergency_trunk :: string

definition default_emergency_numbers :: "string list" where
  "default_emergency_numbers = [''110'', ''119'', ''120'', ''122'', ''911'', ''999'']"

text \<open>The arguments besides the dialplan: the method and the URI of the To header, \<open>None\<close> where it does not
  parse.\<close>

definition emergency_inspect :: "sip_api \<Rightarrow> emergency_config option \<Rightarrow> string \<Rightarrow> sip_uri option \<Rightarrow>
    ('h, 'e, 's) inspector" where
  "emergency_inspect api config m to_uri dp s =
     (case (config, to_uri) of
        (Some cfg, Some to) \<Rightarrow>
          if em_enabled cfg \<and> m = ''INVITE'' \<and> (\<exists>n \<in> set (em_numbers cfg). str_contains_str n (uri_user to))
          then (case sa_parse_uri api (em_emergency_trunk cfg) of
                  Some trunk_uri \<Rightarrow>
                    (VContinue (dp\<lparr>dp_flow := FTargets (DSequential [dial_attempt_of_location (location_of trunk_uri)])\<rparr>), s)
                | None \<Rightarrow> (VContinue dp, s))
          else (VContinue dp, s)
      | _ \<Rightarrow> (VContinue dp, s))"

section \<open>The number pool\<close>

record 'c usage_api =
  us_new :: "nat \<Rightarrow> 'c"
  us_cap :: "'c \<Rightarrow> nat"
  us_peek :: "string \<Rightarrow> 'c \<Rightarrow> u64 option"
  us_get_mut :: "string \<Rightarrow> (u64 \<Rightarrow> u64) \<Rightarrow> 'c \<Rightarrow> 'c option"
  us_put :: "string \<Rightarrow> u64 \<Rightarrow> 'c \<Rightarrow> 'c"

record pool_context = trunk_context +
  tx_did_numbers :: "string list"

definition number_pool_usage_cap :: nat where
  "number_pool_usage_cap = 10000"

definition least_used :: "'c usage_api \<Rightarrow> 'c \<Rightarrow> string list \<Rightarrow> string" where
  "least_used api usage dids =
     (if dids = [] then [] else arg_min_list (\<lambda>d. case us_peek api d usage of Some n \<Rightarrow> n | None \<Rightarrow> 0) dids)"

definition bump_usage :: "'c usage_api \<Rightarrow> string \<Rightarrow> 'c \<Rightarrow> 'c" where
  "bump_usage api did usage =
     (case us_get_mut api did (\<lambda>n. n + 1) usage of
        Some usage' \<Rightarrow> usage'
      | None \<Rightarrow> us_put api did 1 usage)"

text \<open>The inspector locks the table twice, once to choose a number and once to count it; other calls may take
  the lock in between.\<close>

definition number_pool_choose :: "'c usage_api \<Rightarrow> pool_context option \<Rightarrow> 'c \<Rightarrow> string option" where
  "number_pool_choose api ctx usage =
     (case ctx of
        None \<Rightarrow> None
      | Some c \<Rightarrow> if tx_did_numbers c = [] then None else Some (least_used api usage (tx_did_numbers c)))"

definition number_pool_assign :: "sip_api \<Rightarrow> string \<Rightarrow> 'h dialplan \<Rightarrow> 'h dialplan" where
  "number_pool_assign sip did dp =
     (case sa_parse_uri sip (''sip:'' @ did) of Some uri \<Rightarrow> dp\<lparr>dp_caller := Some uri\<rparr> | None \<Rightarrow> dp)"

text \<open>The whole inspector for a call that no other call overtakes.\<close>

definition number_pool_inspect :: "'c usage_api \<Rightarrow> sip_api \<Rightarrow> pool_context option \<Rightarrow> ('h, 'e, 'c) inspector" where
  "number_pool_inspect api sip ctx dp usage =
     (case number_pool_choose api ctx usage of
        None \<Rightarrow> (VContinue dp, usage)
      | Some did \<Rightarrow> (VContinue (number_pool_assign sip did dp), bump_usage api did usage))"

text \<open>The inspectors of the core, as \<^verbatim>\<open>src/src/app.rs\<close> registers them after those of the addons.\<close>

definition core_inspectors :: "'c usage_api \<Rightarrow> sip_api \<Rightarrow> emergency_config option \<Rightarrow> string \<Rightarrow> sip_uri option \<Rightarrow>
    pool_context option \<Rightarrow> ('h, 'e, 'c) ordered_inspector list" where
  "core_inspectors api sip config m to_uri ctx =
     (if config = None then []
      else [\<lparr>oi_id = ''core.emergency'', oi_phase = PhPreRoute, oi_priority = default_priority_for_id ''core.emergency'',
             oi_eval_mode = PreRoute, oi_enabled = True, oi_inspector = emergency_inspect sip config m to_uri\<rparr>]) @
     [\<lparr>oi_id = ''core.number_pool'', oi_phase = PhPreRoute, oi_priority = default_priority_for_id ''core.number_pool'',
       oi_eval_mode = PreRoute, oi_enabled = True, oi_inspector = number_pool_inspect api sip ctx\<rparr>]"

section \<open>Emergency calls\<close>

lemma str_contains_str_iff: "str_contains_str p s \<longleftrightarrow> (\<exists>a b. s = a @ p @ b)"
proof
  show "str_contains_str p s \<Longrightarrow> \<exists>a b. s = a @ p @ b"
  proof (induction s)
    case (Cons c s)
    show ?case
    proof (cases "starts_with (c # s) p")
      case True
      then have "c # s = [] @ p @ drop (length p) (c # s)"
        by (metis append_Nil append_take_drop_id starts_with_def)
      then show ?thesis by blast
    next
      case False
      with Cons obtain a b where "s = a @ p @ b" by auto
      then have "c # s = (c # a) @ p @ b" by simp
      then show ?thesis by blast
    qed
  qed simp
next
  have "str_contains_str p (p @ b)" for b by (cases "p @ b") (simp_all, metis starts_with_append)
  moreover have "str_contains_str p s \<Longrightarrow> str_contains_str p (c # s)" for c s by simp
  ultimately have "str_contains_str p (a @ p @ b)" for a b by (induction a) simp_all
  then show "\<exists>a b. s = a @ p @ b \<Longrightarrow> str_contains_str p s" by blast
qed

lemma number_pool_flow:
  "\<exists>dp' s'. number_pool_inspect api sip ctx dp s = (VContinue dp', s') \<and> dp_flow dp' = dp_flow dp"
  by (simp add: number_pool_inspect_def number_pool_assign_def split: option.split)

lemma overrides_fields [simp]:
  "oi_id (apply_overrides_to_inspector_meta file e) = oi_id e"
  "oi_phase (apply_overrides_to_inspector_meta file e) = oi_phase e"
  "oi_inspector (apply_overrides_to_inspector_meta file e) = oi_inspector e"
  by (simp_all add: apply_overrides_to_inspector_meta_def split: option.split)

lemma overrides_keep:
  assumes "\<forall>c \<in> set file. co_id c = oi_id e \<longrightarrow> co_enabled c \<noteq> Some False \<and> co_eval_mode c \<noteq> Some PostRoute"
    and "oi_enabled e" "oi_eval_mode e = PreRoute"
  shows "oi_enabled (apply_overrides_to_inspector_meta file e)"
    "oi_eval_mode (apply_overrides_to_inspector_meta file e) = PreRoute"
  using assms by (auto simp: apply_overrides_to_inspector_meta_def find_Some_iff split: option.splits)
    (metis (full_types) eval_mode.exhaust nth_mem)+

text \<open>Two inspectors in either order: one that changes the flow, one that leaves it alone.\<close>

lemma run_flow_setter:
  assumes "chain \<in> {[x, y], [y, x]}" "oi_enabled x" "oi_eval_mode x = PreRoute"
    and "\<And>dp s. oi_inspector x dp s = (VContinue (dp\<lparr>dp_flow := f (dp_flow dp)\<rparr>), s)"
    and "\<And>dp s. \<exists>dp' s'. oi_inspector y dp s = (VContinue dp', s') \<and> dp_flow dp' = dp_flow dp"
  shows "\<exists>dp' s'. run_inspectors chain dp s = (Inr dp', s') \<and> dp_flow dp' = f (dp_flow dp)"
proof -
  have y: "\<exists>dp' s'. run_inspectors (y # es) dp s = run_inspectors es dp' s' \<and> dp_flow dp' = dp_flow dp" for es dp s
    using assms(5) [of dp s] by (auto, metis+)
  show ?thesis
  proof (cases "chain = [x, y]")
    case True
    then have "run_inspectors chain dp s = run_inspectors [y] (dp\<lparr>dp_flow := f (dp_flow dp)\<rparr>) s"
      using assms(2-4) by (simp del: run_inspectors.simps(2) add: run_inspectors.simps(2) [of x])
    with y [of "[]" "dp\<lparr>dp_flow := f (dp_flow dp)\<rparr>" s] show ?thesis by auto
  next
    case False
    then have "chain = [y, x]" using assms(1) by auto
    with y [of "[x]" dp s] obtain dp' s' where "run_inspectors chain dp s = run_inspectors [x] dp' s'"
      "dp_flow dp' = dp_flow dp" by auto
    with assms(2-4) show ?thesis by simp
  qed
qed


section \<open>Fair use of a pool\<close>

text \<open>What the number pool relies on, the documented behaviour of the LRU table: a peek or an update in place
  sees the stored value, and a value put while the table has room displaces no other.\<close>

definition usage_update_law :: "'c usage_api \<Rightarrow> bool" where
  "usage_update_law api \<longleftrightarrow>
     (\<forall>k f c. case us_peek api k c of
        None \<Rightarrow> us_get_mut api k f c = None
      | Some v \<Rightarrow> \<exists>c'. us_get_mut api k f c = Some c' \<and> us_cap api c' = us_cap api c \<and>
          (\<forall>k'. us_peek api k' c' = (if k' = k then Some (f v) else us_peek api k' c)))"

definition usage_put_law :: "'c usage_api \<Rightarrow> bool" where
  "usage_put_law api \<longleftrightarrow>
     (\<forall>k v c. us_cap api (us_put api k v c) = us_cap api c \<and>
        (finite {k'. us_peek api k' c \<noteq> None} \<and> card ({k'. us_peek api k' c \<noteq> None} - {k}) < us_cap api c \<longrightarrow>
          (\<forall>k'. us_peek api k' (us_put api k v c) = (if k' = k then Some v else us_peek api k' c))))"

definition usage_laws :: "'c usage_api \<Rightarrow> bool" where
  "usage_laws api \<longleftrightarrow>
     (\<forall>n. us_cap api (us_new api n) = n) \<and> (\<forall>n k. us_peek api k (us_new api n) = None) \<and>
     usage_update_law api \<and> usage_put_law api"

lemma usage_get_mut_laws:
  assumes "usage_laws api"
  shows "us_peek api k c = None \<Longrightarrow> us_get_mut api k f c = None"
    and "us_peek api k c = Some v \<Longrightarrow> \<exists>c'. us_get_mut api k f c = Some c' \<and> us_cap api c' = us_cap api c \<and>
      (\<forall>k'. us_peek api k' c' = (if k' = k then Some (f v) else us_peek api k' c))"
proof -
  have "case us_peek api k c of
        None \<Rightarrow> us_get_mut api k f c = None
      | Some v \<Rightarrow> \<exists>c'. us_get_mut api k f c = Some c' \<and> us_cap api c' = us_cap api c \<and>
          (\<forall>k'. us_peek api k' c' = (if k' = k then Some (f v) else us_peek api k' c))"
    using assms unfolding usage_laws_def usage_update_law_def by blast
  then show "us_peek api k c = None \<Longrightarrow> us_get_mut api k f c = None"
    and "us_peek api k c = Some v \<Longrightarrow> \<exists>c'. us_get_mut api k f c = Some c' \<and> us_cap api c' = us_cap api c \<and>
      (\<forall>k'. us_peek api k' c' = (if k' = k then Some (f v) else us_peek api k' c))"
    by simp_all
qed

lemma usage_put_laws:
  assumes "usage_laws api" "{k'. us_peek api k' c \<noteq> None} = set ks" "card (set ks - {k}) < us_cap api c"
  shows "us_cap api (us_put api k v c) = us_cap api c"
    and "us_peek api k' (us_put api k v c) = (if k' = k then Some v else us_peek api k' c)"
proof -
  have "us_cap api (us_put api k v c) = us_cap api c \<and>
        (finite {k'. us_peek api k' c \<noteq> None} \<and> card ({k'. us_peek api k' c \<noteq> None} - {k}) < us_cap api c \<longrightarrow>
          (\<forall>k'. us_peek api k' (us_put api k v c) = (if k' = k then Some v else us_peek api k' c)))"
    using assms(1) unfolding usage_laws_def usage_put_law_def by blast
  then show "us_cap api (us_put api k v c) = us_cap api c"
    and "us_peek api k' (us_put api k v c) = (if k' = k then Some v else us_peek api k' c)"
    unfolding assms(2) using assms(3) by simp_all
qed

text \<open>The calls of all trunks on the shared table: a call chooses its number, and later counts it. The numbers
  counted so far are a history variable; those chosen and not yet counted belong to the calls in between.\<close>

record 'c pool_world =
  pl_counted :: "string list"
  pl_in_flight :: "string list"
  pl_usage :: 'c

datatype pool_event = PoolChoose pool_context | PoolCount nat

fun pool_step :: "'c usage_api \<Rightarrow> pool_event \<Rightarrow> 'c pool_world \<Rightarrow> 'c pool_world" where
  "pool_step api (PoolChoose ctx) w =
     (case number_pool_choose api (Some ctx) (pl_usage w) of
        None \<Rightarrow> w
      | Some did \<Rightarrow> w\<lparr>pl_in_flight := pl_in_flight w @ [did]\<rparr>)"
| "pool_step api (PoolCount i) w =
     (if i < length (pl_in_flight w)
      then \<lparr>pl_counted = pl_counted w @ [pl_in_flight w ! i],
            pl_in_flight = take i (pl_in_flight w) @ drop (Suc i) (pl_in_flight w),
            pl_usage = bump_usage api (pl_in_flight w ! i) (pl_usage w)\<rparr>
      else w)"

definition pool_start :: "'c usage_api \<Rightarrow> 'c pool_world" where
  "pool_start api = \<lparr>pl_counted = [], pl_in_flight = [], pl_usage = us_new api number_pool_usage_cap\<rparr>"

text \<open>How often a number was assigned, and the most calls that were between their two locks at once.\<close>

definition assigned :: "'c pool_world \<Rightarrow> string \<Rightarrow> nat" where
  "assigned w d = count_list (pl_counted w) d + count_list (pl_in_flight w) d"

fun most_in_flight :: "'c usage_api \<Rightarrow> pool_event list \<Rightarrow> 'c pool_world \<Rightarrow> nat" where
  "most_in_flight api [] w = length (pl_in_flight w)"
| "most_in_flight api (e # es) w = max (length (pl_in_flight w)) (most_in_flight api es (pool_step api e w))"

fun event_numbers :: "pool_event \<Rightarrow> string list" where
  "event_numbers (PoolChoose ctx) = tx_did_numbers ctx"
| "event_numbers (PoolCount i) = []"

definition usage_of :: "string list \<Rightarrow> string \<Rightarrow> u64 option" where
  "usage_of log d = (if d \<in> set log then Some (of_nat (count_list log d)) else None)"

definition usage_inv :: "'c usage_api \<Rightarrow> string set \<Rightarrow> string list \<times> 'c \<Rightarrow> bool" where
  "usage_inv api dids lu \<longleftrightarrow> us_cap api (snd lu) = number_pool_usage_cap \<and> set (fst lu) \<subseteq> dids \<and>
     (\<forall>d. us_peek api d (snd lu) = usage_of (fst lu) d)"

lemma count_snoc: "count_list (log @ [x]) d = count_list log d + (if x = d then 1 else 0)"
  by simp

lemma bump_usage_inv:
  assumes "usage_laws api" "finite dids" "card dids \<le> number_pool_usage_cap" "usage_inv api dids (log, usage)" "did \<in> dids"
  shows "usage_inv api dids (log @ [did], bump_usage api did usage)"
proof -
  let ?u = "bump_usage api did usage"
  have old: "us_cap api usage = number_pool_usage_cap" "set log \<subseteq> dids" "\<And>k. us_peek api k usage = usage_of log k"
    using assms(4) by (simp_all add: usage_inv_def)
  have new: "us_cap api ?u = us_cap api usage \<and>
    (\<forall>k. us_peek api k ?u = (if k = did then Some (of_nat (count_list log did) + 1) else usage_of log k))"
  proof (cases "did \<in> set log")
    case True
    then have "us_peek api did usage = Some (of_nat (count_list log did))" by (simp add: old(3) usage_of_def)
    from usage_get_mut_laws(2) [OF assms(1) this, of "\<lambda>n. n + 1"]
    obtain u where u: "us_get_mut api did (\<lambda>n. n + 1) usage = Some u" "us_cap api u = us_cap api usage"
      "\<forall>k. us_peek api k u = (if k = did then Some (of_nat (count_list log did) + 1) else us_peek api k usage)"
      by blast
    have "?u = u" by (simp add: bump_usage_def u(1))
    with u(2,3) show ?thesis by (simp add: old(3))
  next
    case False
    then have "us_peek api did usage = None" by (simp add: old(3) usage_of_def)
    from usage_get_mut_laws(1) [OF assms(1) this] have bump: "?u = us_put api did 1 usage" by (simp add: bump_usage_def)
    have keys: "{k. us_peek api k usage \<noteq> None} = set log" by (simp add: old(3) usage_of_def)
    have "set log - {did} \<subset> dids" using old(2) assms(5) by blast
    then have "card (set log - {did}) < us_cap api usage"
      using psubset_card_mono [OF assms(2)] assms(3) old(1) by (metis order.strict_trans2)
    note put = usage_put_laws [OF assms(1) keys this]
    have "count_list log did = 0" using False by (simp add: count_list_0_iff)
    with put show ?thesis by (simp add: bump old(3))
  qed
  have "us_peek api k ?u = usage_of (log @ [did]) k" for k using new by (simp add: usage_of_def)
  with new old(1,2) assms(5) show ?thesis by (simp add: usage_inv_def)
qed

lemma least_used_min:
  assumes "usage_inv api dids (log, usage)" "length log < 2 ^ 64" "ds \<noteq> []" "d \<in> set ds"
  shows "least_used api usage ds \<in> set ds"
    and "count_list log (least_used api usage ds) \<le> count_list log d"
proof -
  let ?f = "\<lambda>d. case us_peek api d usage of Some n \<Rightarrow> n | None \<Rightarrow> 0"
  show "least_used api usage ds \<in> set ds"
    using assms(3) by (simp add: least_used_def arg_min_list_in)
  have f: "?f k = of_nat (count_list log k)" for k
    using assms(1) by (simp add: usage_inv_def usage_of_def count_list_0_iff)
  have small: "count_list log k < 2 ^ 64" for k
    using count_le_length [of log k] assms(2) by simp
  have "?f (least_used api usage ds) \<le> ?f d"
    using f_arg_min_list_f [OF assms(3), of ?f] assms(3,4) by (simp add: least_used_def)
  then show "count_list log (least_used api usage ds) \<le> count_list log d"
    unfolding f using small by (simp add: word_le_nat_alt unat_of_nat take_bit_nat_eq_self)
qed

definition pool_inv :: "'c usage_api \<Rightarrow> string set \<Rightarrow> string list \<Rightarrow> nat \<Rightarrow> 'c pool_world \<Rightarrow> bool" where
  "pool_inv api dids pool k w \<longleftrightarrow> usage_inv api dids (pl_counted w, pl_usage w) \<and> set (pl_in_flight w) \<subseteq> dids \<and>
     (\<forall>a \<in> set pool. \<forall>b \<in> set pool. assigned w a \<le> count_list (pl_counted w) b + k)"

lemma pool_choose_inv:
  assumes "pool_inv api dids pool k w" "length (pl_counted w) < 2 ^ 64" "set (tx_did_numbers ctx) \<subseteq> dids"
    and "tx_did_numbers ctx = pool \<or> set (tx_did_numbers ctx) \<inter> set pool = {}"
    and "length (pl_in_flight (pool_step api (PoolChoose ctx) w)) \<le> k"
  shows "pool_inv api dids pool k (pool_step api (PoolChoose ctx) w)"
proof (cases "tx_did_numbers ctx = []")
  case True
  with assms(1) show ?thesis by (simp add: number_pool_choose_def)
next
  case False
  define did where "did = least_used api (pl_usage w) (tx_did_numbers ctx)"
  have w: "pool_step api (PoolChoose ctx) w = w\<lparr>pl_in_flight := pl_in_flight w @ [did]\<rparr>"
    using False by (simp add: number_pool_choose_def did_def)
  have inv: "usage_inv api dids (pl_counted w, pl_usage w)" using assms(1) by (simp add: pool_inv_def)
  note least = least_used_min [OF inv assms(2) False, folded did_def]
  have did: "did \<in> set (tx_did_numbers ctx)" using least(1) last_in_set [OF False] by blast
  have "count_list (pl_in_flight w @ [did]) did \<le> length (pl_in_flight w @ [did])" by (rule count_le_length)
  also have "\<dots> \<le> k" using assms(5) w by simp
  finally have few: "count_list (pl_in_flight w) did + 1 \<le> k" by simp
  have "assigned (w\<lparr>pl_in_flight := pl_in_flight w @ [did]\<rparr>) a \<le> count_list (pl_counted w) b + k"
    if "a \<in> set pool" "b \<in> set pool" for a b
  proof (cases "a = did")
    case True
    with that(1) did assms(4) have "tx_did_numbers ctx = pool" by auto
    with least(2) [of b] that(2) True few show ?thesis by (simp add: assigned_def)
  next
    case False
    with assms(1) that show ?thesis by (simp add: pool_inv_def assigned_def)
  qed
  with assms(1,3) did show ?thesis unfolding w by (auto simp: pool_inv_def)
qed

lemma pool_count_inv:
  assumes "usage_laws api" "finite dids" "card dids \<le> number_pool_usage_cap" "pool_inv api dids pool k w"
  shows "pool_inv api dids pool k (pool_step api (PoolCount i) w)"
proof (cases "i < length (pl_in_flight w)")
  case True
  let ?did = "pl_in_flight w ! i" and ?w = "pool_step api (PoolCount i) w"
  have "?did \<in> dids" using assms(4) True by (auto simp: pool_inv_def)
  with bump_usage_inv [OF assms(1-3), of "pl_counted w" "pl_usage w" ?did] assms(4)
  have "usage_inv api dids (pl_counted w @ [?did], bump_usage api ?did (pl_usage w))" by (simp add: pool_inv_def)
  moreover have "set (take i (pl_in_flight w) @ drop (Suc i) (pl_in_flight w)) \<subseteq> dids"
    using assms(4) by (auto simp: pool_inv_def dest: in_set_takeD in_set_dropD)
  moreover have "count_list (pl_in_flight w) a = count_list (take i (pl_in_flight w) @ ?did # drop (Suc i) (pl_in_flight w)) a" for a
    using id_take_nth_drop [OF True] by simp
  then have same: "assigned ?w a = assigned w a" for a using True by (simp add: assigned_def)
  have "assigned ?w a \<le> count_list (pl_counted ?w) b + k" if "a \<in> set pool" "b \<in> set pool" for a b
  proof -
    have "assigned w a \<le> count_list (pl_counted w) b + k" using assms(4) that by (simp add: pool_inv_def)
    with True show ?thesis unfolding same by simp
  qed
  ultimately show ?thesis using True by (simp add: pool_inv_def)
qed (use assms(4) in simp)

lemma counted_step: "length (pl_counted (pool_step api e w)) \<le> Suc (length (pl_counted w))"
  by (cases e) (simp_all split: option.split)

lemma pool_run_inv:
  assumes "usage_laws api" "finite dids" "card dids \<le> number_pool_usage_cap" "pool_inv api dids pool k w"
    and "length (pl_counted w) + length es < 2 ^ 64" "most_in_flight api es w \<le> k"
    and "\<forall>e \<in> set es. set (event_numbers e) \<subseteq> dids \<and> (event_numbers e = pool \<or> set (event_numbers e) \<inter> set pool = {})"
  shows "pool_inv api dids pool k (fold (pool_step api) es w)"
  using assms(4-7)
proof (induction es arbitrary: w)
  case (Cons e es)
  have size: "length (pl_in_flight (pool_step api e w)) \<le> k" using Cons.prems(3) by (cases es) simp_all
  have "pool_inv api dids pool k (pool_step api e w)"
  proof (cases e)
    case (PoolChoose ctx)
    show ?thesis
      unfolding PoolChoose
      by (rule pool_choose_inv [OF Cons.prems(1)]) (use Cons.prems(2,4) PoolChoose size in auto)
  next
    case (PoolCount i)
    show ?thesis unfolding PoolCount by (rule pool_count_inv [OF assms(1-3) Cons.prems(1)])
  qed
  moreover have "length (pl_counted (pool_step api e w)) + length es < 2 ^ 64"
    using counted_step [of api e w] Cons.prems(2) by simp
  ultimately show ?case using Cons by simp
qed simp


section \<open>Concrete runs\<close>

definition demo_inspect_sip :: sip_api where
  "demo_inspect_sip = \<lparr>sa_parse_uri = (\<lambda>s. Some \<lparr>uri_scheme = Some Sip, uri_auth = None,
       uri_host_with_port = \<lparr>hp_host = s, hp_port = None\<rparr>, uri_params = []\<rparr>),
     sa_uri_str = (\<lambda>u. hp_host (uri_host_with_port u)), sa_parse_hostport = (\<lambda>_. None), sa_addr_str = hp_host\<rparr>"

definition demo_usage :: "(nat \<times> (string, u64) hmap) usage_api" where
  "demo_usage = \<lparr>us_new = (\<lambda>n. (n, [])), us_cap = fst, us_peek = (\<lambda>k c. hm_get (snd c) k),
     us_get_mut = (\<lambda>k f c. map_option (\<lambda>v. (fst c, hm_insert k (f v) (snd c))) (hm_get (snd c) k)),
     us_put = (\<lambda>k v c. (fst c, take (fst c) ((k, v) # hm_remove k (AList.clearjunk (snd c)))))\<rparr>"

lemma demo_usage_laws: "usage_laws demo_usage"
proof -
  have "hm_get (take n ((k, v) # hm_remove k (AList.clearjunk m))) k' = (if k' = k then Some v else hm_get m k')"
    if "card ({k'. hm_get m k' \<noteq> None} - {k}) < n" for n k k' v and m :: "(string, u64) hmap"
  proof -
    let ?r = "hm_remove k (AList.clearjunk m)"
    have d: "distinct (map fst ?r)" by (simp add: hm_remove_def distinct_delete)
    have "set (map fst ?r) = {k'. hm_get m k' \<noteq> None} - {k}"
      by (auto simp: hm_remove_def delete_keys hm_get_def map_of_eq_None_iff clearjunk_keys_set dom_clearjunk image_iff)
    with distinct_card [OF d] that have "length ?r < n" by simp
    then show ?thesis by (simp add: hm_get_def hm_remove_def delete_conv map_of_clearjunk)
  qed
  then have "usage_put_law demo_usage" by (simp add: usage_put_law_def demo_usage_def)
  moreover have "usage_update_law demo_usage"
    by (auto simp: usage_update_law_def demo_usage_def split: option.split)
  ultimately show ?thesis by (simp add: usage_laws_def demo_usage_def)
qed


text \<open>Two calls that choose before either counts get the same number, and the other number is left over.\<close>

definition demo_pool :: pool_context where
  "demo_pool = \<lparr>tx_trunk_id = None, tx_trunk_name = ''t'', tx_did_numbers = [''1'', ''2'']\<rparr>"

definition demo_overtaking :: "pool_event list" where
  "demo_overtaking = [PoolChoose demo_pool, PoolChoose demo_pool, PoolCount 0, PoolCount 0]"

lemma overtaking_calls:
  "assigned (fold (pool_step demo_usage) demo_overtaking (pool_start demo_usage)) ''1'' = 2"
  "assigned (fold (pool_step demo_usage) demo_overtaking (pool_start demo_usage)) ''2'' = 0"
  "most_in_flight demo_usage demo_overtaking (pool_start demo_usage) = 2"
  by (simp_all add: demo_overtaking_def demo_pool_def pool_start_def number_pool_choose_def least_used_def bump_usage_def
      assigned_def demo_usage_def number_pool_usage_cap_def hm_get_def hm_insert_def hm_remove_def)


end
