(* ===== verification/Spec2Isabelle.thy ===== *)
theory Spec2Isabelle
  imports Cps_Limiter Policy_Runs Header_Passthrough Route_Runs Session_Timer_Runs Sipflow_Protocol Acl_Runs
    Dialog_Locator Registrar_Runs Auth_Runs Trunk_Health Dialplan_Inspectors
begin

text \<open>
  \<^bold>\<open>Verification of the call-control core of rustpbx.\<close>

  rustpbx is a SIP private branch exchange in Rust. A request arrives at the SIP server and passes a chain of
  modules: access control, authentication, the registrar, the call module. A REGISTER ends in the location
  store. An INVITE is routed: rules are matched, the INVITE is rewritten, a trunk is chosen, and the limits on
  trunks and callers are charged; inspectors may then change the dialplan. An established call keeps session
  timers that refresh or end it. SIP traffic is copied to a collector in datagrams. Trunks are probed in the
  background. This development models these parts.

  \<^bold>\<open>Conventions.\<close> A string is the list of its code points, restricted to Latin-1 (\<^verbatim>\<open>Rust_Str\<close>; byte offsets are
  computed as UTF-8 counts them). Machine integers are words where the code computes with them; \<^verbatim>\<open>Instant\<close>
  and \<^verbatim>\<open>Duration\<close> are natural numbers of nanoseconds, with the panics of their arithmetic as error values
  (\<^verbatim>\<open>Rust_Time\<close>). Hash maps are association lists with distinct keys (\<^verbatim>\<open>Hash_Map\<close>); their order stands for the
  iteration order. State is passed explicitly; errors, early returns and panics are values of a sum or option
  type. Packages outside the repository (rsipstack, tokio, sea-orm, lru, regex, ipnet, the digest) are records
  of functions, arguments of the definitions that use them. What is relied on is a named predicate over such a
  record (\<^verbatim>\<open>semaphore_laws\<close>, \<^verbatim>\<open>delay_queue_laws\<close>, \<^verbatim>\<open>lru_laws\<close>, \<^verbatim>\<open>usage_laws\<close> and the like), and each theorem with such a
  hypothesis has a witness that instantiates the record.

  \<^bold>\<open>Theories.\<close>

  \<^item> \<^verbatim>\<open>Prelude\<close>, \<^verbatim>\<open>Interfaces\<close>, \<^verbatim>\<open>Hash_Map\<close>, \<^verbatim>\<open>Rust_Str\<close>, \<^verbatim>\<open>Rust_Time\<close>, \<^verbatim>\<open>Net_Addr\<close>, \<^verbatim>\<open>Sip_Types\<close>: shared types, the
    parts of the standard library the sources use, and the locales of the development: systems with an invariant,
    machines driven by events, keyed stores and codecs.

  \<^item> \<^verbatim>\<open>Cps_Limiter\<close> (\<^verbatim>\<open>call/cps_limiter.rs\<close>): the limiter of calls per second, sequentially and as interleaved
    compare-and-swap loops of any number of threads. The rate is bounded in every window, and every interleaving
    is linearisable.

  \<^item> \<^verbatim>\<open>Call_Limiter\<close> (\<^verbatim>\<open>call/concurrent_call_limiter.rs\<close>): permits and leases over semaphores. No sequence of
    operations oversubscribes a limiter.

  \<^item> \<^verbatim>\<open>Call_Policy\<close>, \<^verbatim>\<open>Policy_Runs\<close> (\<^verbatim>\<open>call/policy.rs\<close>): the checks of a call against a policy and the in-memory
    limiter behind the locale \<^verbatim>\<open>frequency_limiter\<close>. Windows and slots are bounded over all interleavings, and an
    allowed call satisfies the conditions of its policy.

  \<^item> \<^verbatim>\<open>Dial_Targets\<close>, \<^verbatim>\<open>Header_Passthrough\<close>, \<^verbatim>\<open>Route_Config\<close>, \<^verbatim>\<open>Route_Functions\<close> (\<^verbatim>\<open>call/mod.rs\<close>,
    \<^verbatim>\<open>proxy/routing/mod.rs\<close>, parts of \<^verbatim>\<open>config.rs\<close>): what is dialled, and the routing configuration with its
    functions.

  \<^item> \<^verbatim>\<open>Route_Rewrite\<close>, \<^verbatim>\<open>Trunk_Select\<close>, \<^verbatim>\<open>Trunk_Stamp\<close>, \<^verbatim>\<open>Route_Match\<close> (\<^verbatim>\<open>proxy/routing/matcher.rs\<close>): matching and
    rewriting, the choice of a trunk, what a trunk stamps on a call, and \<^verbatim>\<open>match_invite_impl\<close> as a computation over
    the shared limiters, semaphores, counters and policy backend. \<^verbatim>\<open>Route_Triples\<close> has Hoare-style triples and the
    locale \<^verbatim>\<open>route_invariant\<close>, which carries an invariant of the resources from the steps to the whole decision;
    \<^verbatim>\<open>Route_Resources\<close> interprets it for permits and for policy slots; \<^verbatim>\<open>Route_Outcomes\<close> shows which rule decides and
    through which trunk a call leaves; \<^verbatim>\<open>Route_Runs\<close> holds concrete runs and the slots a rejecting rule keeps.

  \<^item> \<^verbatim>\<open>Session_Timer\<close>, \<^verbatim>\<open>Session_Timer_Props\<close>, \<^verbatim>\<open>Session_Timer_Runs\<close> (\<^verbatim>\<open>proxy/proxy_call/session_timer.rs\<close> and the
    timer arm of \<^verbatim>\<open>sip_session/session.rs\<close>): negotiation, scheduling in a delay queue, the refresh exchange and the
    set of dialogs to hang up, which every turn of the session loop drains. No timer goes unwatched, the hangup of an
    unrefreshed session is started, a refresh ends after at most four attempts, and both ends agree on the
    refresher; one header value makes the clock arithmetic panic. How a started hangup ends is not modelled.

  \<^item> \<^verbatim>\<open>Sipflow_Protocol\<close> (\<^verbatim>\<open>rustpbx-sipflow/src/protocol.rs\<close>): datagrams to the collector. Batches and packets are
    read back as written.

  \<^item> \<^verbatim>\<open>Acl_Rules\<close>, \<^verbatim>\<open>Acl_Module\<close>, \<^verbatim>\<open>Acl_Runs\<close> (\<^verbatim>\<open>proxy/acl.rs\<close>, the module loop of \<^verbatim>\<open>proxy/server.rs\<close>): networks and
    rules, the check of a transaction and the rate limit per address. Rules decide as an ordered list of ranges,
    a request passes only on the stated grounds, the rate per address is bounded, and the count of running
    requests drifts in two cases.

  \<^item> \<^verbatim>\<open>Security_Bans\<close>, \<^verbatim>\<open>Security_Runs\<close> (\<^verbatim>\<open>security/mod.rs\<close>): failures and bans, in memory and in their table.
    Repeated failures are banned unless the database fails, a ban has them or a row of the table as its cause, and a
    ban after a release is mislaid.

  \<^item> \<^verbatim>\<open>Sip_User\<close>, \<^verbatim>\<open>Auth_Module\<close>, \<^verbatim>\<open>Auth_Props\<close>, \<^verbatim>\<open>Auth_Runs\<close> (\<^verbatim>\<open>call/user.rs\<close>, \<^verbatim>\<open>proxy/auth.rs\<close>,
    \<^verbatim>\<open>proxy/dialog_auth_cache.rs\<close>, the realms of \<^verbatim>\<open>proxy/server.rs\<close>): the whole check of a transaction. The inductive
    predicate \<^verbatim>\<open>may_act_as\<close> lists the grounds on which a request passes as a user; the cache of authenticated
    dialogs is the ground that does not bind the user.

  \<^item> \<^verbatim>\<open>Locator\<close>, \<^verbatim>\<open>Locator_Props\<close>, \<^verbatim>\<open>Locator_Runs\<close>, \<^verbatim>\<open>Dialog_Locator\<close> (\<^verbatim>\<open>proxy/locator.rs\<close>): the in-memory location store
    as a map from identity and binding key to location, lookups, the expiry sweep, closed transports, and the
    target of a request inside a dialog.

  \<^item> \<^verbatim>\<open>Contact_Header\<close>, \<^verbatim>\<open>Registrar\<close>, \<^verbatim>\<open>Registrar_Props\<close>, \<^verbatim>\<open>Registrar_Runs\<close> (\<^verbatim>\<open>proxy/registrar.rs\<close>): a REGISTER from its
    headers to the store, the presence events and the reply. The locale \<^verbatim>\<open>presence_store\<close> states what the registrar
    relies on; the in-memory store is its interpretation.

  \<^item> \<^verbatim>\<open>Trunk_Health\<close> (\<^verbatim>\<open>proxy/trunk_health.rs\<close>): probes of trunks and the loop over them. The standard mode counts
    failures in a row exactly; the per-IP mode needs every target.

  \<^item> \<^verbatim>\<open>Dialplan_Inspectors\<close> (\<^verbatim>\<open>proxy/routing/stack.rs\<close>, \<^verbatim>\<open>inspector_stack.rs\<close>, \<^verbatim>\<open>proxy/emergency.rs\<close>,
    \<^verbatim>\<open>proxy/number_pool.rs\<close>, the chain of \<^verbatim>\<open>proxy/call.rs\<close>): emergency calls reach the emergency trunk, and the number
    pool, which chooses and counts under two locks, assigns evenly up to the calls that overtake each other.

  \<^bold>\<open>Bounds and fuel.\<close> No definition takes fuel: every loop of the sources is a structural recursion or has a
  termination proof, and the compare-and-swap loop is a step relation, so that no bound on retries is assumed.
  Clock readings are bounded where words would saturate (584 years after the start of a limiter), and counters
  where they would wrap (\<open>2 ^ 32\<close> passes of the health loop, \<open>2 ^ 64\<close> calls of a pool).

  \<^bold>\<open>Not modelled.\<close> The rest of the call session, the media engine, the call applications, the real-time interface
  and the cluster are asynchronous programs over sockets, media streams and live sessions: their behaviour is for
  the most part that of the libraries they drive, and a model would have to invent it. The console, the database
  and HTTP backends of the stores, uploads, logs, metrics and migrations are input and output. Log lines and
  metrics inside the modelled functions are left out, and fields of configuration records that no modelled
  function reads are not part of the records.
\<close>

end
